(* ===== verification/Scim_Strings.thy ===== *)
theory Scim_Strings
  imports Scim_Prelude
begin

text \<open>
  Go strings and the parts of the standard library the package uses on them: UTF-8 decoding and
  encoding, case mapping, simple case folding, trimming, splitting, prefixes and decimal
  numbers. A Go string is a list of bytes (\<^typ>\<open>char\<close> is a byte here), so \<^const>\<open>length\<close> counts
  what \<^verbatim>\<open>len\<close> counts. Invalid UTF-8 decodes to U+FFFD with width one, as in Go.

  The record \<open>platform\<close> holds what is not under src/ or is a data table of the toolchain: the
  Unicode case tables above ASCII, \<^verbatim>\<open>golang.org/x/text\<close> case folding and PRECIS preparation,
  RFC 3339 and URL parsing, and SHA-256. The four characters outside ASCII whose case mapping or
  folding reaches ASCII are written out, so comparisons with ASCII names are exact.
\<close>

section \<open>Bytes and UTF-8\<close>

abbreviation byte :: "char \<Rightarrow> nat" where
  "byte c \<equiv> of_char c"

definition in_range :: "nat \<Rightarrow> nat \<Rightarrow> char \<Rightarrow> bool" where
  "in_range lo hi c \<longleftrightarrow> lo \<le> byte c \<and> byte c \<le> hi"

abbreviation cont_byte :: "char \<Rightarrow> bool" where
  "cont_byte c \<equiv> in_range 0x80 0xBF c"

text \<open>Width of the well-formed encoding at the head of a string; 0 when there is none.\<close>

fun rune_width :: "string \<Rightarrow> nat" where
  "rune_width [] = 0"
| "rune_width (a # s) =
     (if byte a < 0x80 then 1
      else if in_range 0xC2 0xDF a then
        (case s of b # _ \<Rightarrow> if cont_byte b then 2 else 0 | _ \<Rightarrow> 0)
      else if in_range 0xE0 0xEF a then
        (case s of b # c # _ \<Rightarrow>
           if in_range (if byte a = 0xE0 then 0xA0 else 0x80) (if byte a = 0xED then 0x9F else 0xBF) b
              \<and> cont_byte c then 3 else 0 | _ \<Rightarrow> 0)
      else if in_range 0xF0 0xF4 a then
        (case s of b # c # d # _ \<Rightarrow>
           if in_range (if byte a = 0xF0 then 0x90 else 0x80) (if byte a = 0xF4 then 0x8F else 0xBF) b
              \<and> cont_byte c \<and> cont_byte d then 4 else 0 | _ \<Rightarrow> 0)
      else 0)"

declare rune_width.simps(2) [simp del]

definition rune_error :: nat where
  "rune_error = 0xFFFD"

fun rune_value :: "string \<Rightarrow> nat" where
  "rune_value [a] = byte a"
| "rune_value [a, b] = (byte a - 0xC0) * 64 + (byte b - 0x80)"
| "rune_value [a, b, c] = (byte a - 0xE0) * 4096 + (byte b - 0x80) * 64 + (byte c - 0x80)"
| "rune_value [a, b, c, d] =
     (byte a - 0xF0) * 262144 + (byte b - 0x80) * 4096 + (byte c - 0x80) * 64 + (byte d - 0x80)"
| "rune_value _ = rune_error"

text \<open>utf8.DecodeRuneInString on a non-empty string.\<close>

definition decode_rune :: "string \<Rightarrow> nat \<times> nat" where
  "decode_rune s =
     (let w = rune_width s in if w = 0 then (rune_error, 1) else (rune_value (take w s), w))"

fun runes :: "string \<Rightarrow> nat list" where
  "runes [] = []"
| "runes (a # s) = (case decode_rune (a # s) of (r, w) \<Rightarrow> r # runes (drop (w - 1) s))"

fun valid_utf8 :: "string \<Rightarrow> bool" where
  "valid_utf8 [] = True"
| "valid_utf8 (a # s) =
     (rune_width (a # s) \<noteq> 0 \<and> valid_utf8 (drop (rune_width (a # s) - 1) s))"

definition encode_rune :: "nat \<Rightarrow> string" where
  "encode_rune r =
     (if r < 0x80 then [char_of r]
      else if r < 0x800 then [char_of (0xC0 + r div 64), char_of (0x80 + r mod 64)]
      else if 0x10FFFF < r \<or> (0xD800 \<le> r \<and> r \<le> 0xDFFF) then [CHR 0xEF, CHR 0xBF, CHR 0xBD]
      else if r < 0x10000 then
        [char_of (0xE0 + r div 4096), char_of (0x80 + r div 64 mod 64), char_of (0x80 + r mod 64)]
      else
        [char_of (0xF0 + r div 262144), char_of (0x80 + r div 4096 mod 64),
         char_of (0x80 + r div 64 mod 64), char_of (0x80 + r mod 64)])"

definition ascii :: "string \<Rightarrow> bool" where
  "ascii s \<longleftrightarrow> (\<forall>c \<in> set s. byte c < 0x80)"

lemma ascii_simps [simp]: "ascii []" "ascii (a # s) \<longleftrightarrow> byte a < 0x80 \<and> ascii s"
  "ascii (s @ t) \<longleftrightarrow> ascii s \<and> ascii t"
  by (auto simp: ascii_def)

lemma rune_width_le: "rune_width s \<le> length s"
  by (cases s) (auto simp: rune_width.simps split: list.splits if_splits)

lemma rune_width_ascii [simp]: "byte a < 0x80 \<Longrightarrow> rune_width (a # s) = 1"
  by (simp add: rune_width.simps)

lemma rune_width_append:
  "rune_width s \<noteq> 0 \<Longrightarrow> rune_width (s @ t) = rune_width s"
proof (cases s)
  case (Cons a u)
  assume w: "rune_width s \<noteq> 0"
  consider "u = []" | b where "u = [b]" | b c where "u = [b, c]" | b c d v where "u = b # c # d # v"
    by (metis list.exhaust)
  then show ?thesis
    using w Cons by cases (simp_all add: rune_width.simps split: if_splits)
qed simp

lemma runes_ascii: "ascii s \<Longrightarrow> runes s = map byte s"
  by (induction s) (auto simp: decode_rune_def Let_def)

lemma valid_utf8_ascii: "ascii s \<Longrightarrow> valid_utf8 s"
  by (induction s) auto

lemma valid_utf8_append: "valid_utf8 s \<Longrightarrow> valid_utf8 t \<Longrightarrow> valid_utf8 (s @ t)"
proof (induction s rule: valid_utf8.induct)
  case 1
  then show ?case by simp
next
  case (2 a s)
  let ?w = "rune_width (a # s)"
  from "2.prems" have w: "?w \<noteq> 0" and v: "valid_utf8 (drop (?w - 1) s)" by simp_all
  have le: "?w - 1 \<le> length s" using rune_width_le [of "a # s"] by simp
  have "rune_width (a # s @ t) = ?w" using rune_width_append [OF w, of t] by simp
  moreover have "valid_utf8 (drop (?w - 1) s @ t)" using "2.IH" "2.prems" v by blast
  ultimately show ?case using w le by simp
qed

section \<open>The platform\<close>

record url =
  url_scheme :: string
  url_opaque :: string
  url_has_user :: bool
  url_host :: string
  url_path :: string
  url_escaped_path :: string
  url_raw_path :: string
  url_raw_query :: string
  url_force_query :: bool
  url_fragment :: string

record platform =
  uni_lower :: "nat \<Rightarrow> nat"
  uni_upper :: "nat \<Rightarrow> nat"
  uni_fold :: "nat \<Rightarrow> nat"
  case_fold :: "string \<Rightarrow> string"
  precis_username :: "string \<Rightarrow> string option"
  precis_opaque :: "string \<Rightarrow> string option"
  time_parse :: "string \<Rightarrow> int option"
  time_format :: "int \<Rightarrow> string"
  url_parse :: "string \<Rightarrow> url option"
  sha256 :: "string \<Rightarrow> string"

text \<open>
  unicode.ToLower, unicode.ToUpper, and a representative of the orbit of unicode.SimpleFold. The
  dotted and dotless I, the Kelvin sign and the long S are the characters above ASCII that
  these reach ASCII from.
\<close>

definition rune_lower :: "platform \<Rightarrow> nat \<Rightarrow> nat" where
  "rune_lower P r =
     (if r < 0x80 then (if 65 \<le> r \<and> r \<le> 90 then r + 32 else r)
      else if r = 0x130 then 105 else if r = 0x212A then 107 else uni_lower P r)"

definition rune_upper :: "platform \<Rightarrow> nat \<Rightarrow> nat" where
  "rune_upper P r =
     (if r < 0x80 then (if 97 \<le> r \<and> r \<le> 122 then r - 32 else r)
      else if r = 0x131 then 73 else if r = 0x17F then 83 else uni_upper P r)"

definition rune_fold :: "platform \<Rightarrow> nat \<Rightarrow> nat" where
  "rune_fold P r =
     (if r < 0x80 then (if 65 \<le> r \<and> r \<le> 90 then r + 32 else r)
      else if r = 0x17F then 115 else if r = 0x212A then 107 else uni_fold P r)"

definition lower_byte :: "char \<Rightarrow> char" where
  "lower_byte c = (if in_range 65 90 c then char_of (byte c + 32) else c)"

definition upper_byte :: "char \<Rightarrow> char" where
  "upper_byte c = (if in_range 97 122 c then char_of (byte c - 32) else c)"

definition to_lower :: "platform \<Rightarrow> string \<Rightarrow> string" where
  "to_lower P s =
     (if ascii s then map lower_byte s
      else concat (map (\<lambda>r. encode_rune (rune_lower P r)) (runes s)))"

definition to_upper :: "platform \<Rightarrow> string \<Rightarrow> string" where
  "to_upper P s =
     (if ascii s then map upper_byte s
      else concat (map (\<lambda>r. encode_rune (rune_upper P r)) (runes s)))"

definition fold_key :: "platform \<Rightarrow> string \<Rightarrow> nat list" where
  "fold_key P s = map (rune_fold P) (runes s)"

definition equal_fold :: "platform \<Rightarrow> string \<Rightarrow> string \<Rightarrow> bool" where
  "equal_fold P s t \<longleftrightarrow> fold_key P s = fold_key P t"

lemma equal_fold_refl [simp, intro]: "equal_fold P s s"
  by (simp add: equal_fold_def)

lemma equal_fold_sym: "equal_fold P s t \<Longrightarrow> equal_fold P t s"
  by (simp add: equal_fold_def)

lemma equal_fold_trans: "equal_fold P s t \<Longrightarrow> equal_fold P t u \<Longrightarrow> equal_fold P s u"
  by (simp add: equal_fold_def)

lemma byte_char_of [simp]: "n < 256 \<Longrightarrow> byte (char_of n) = n"
  by simp

lemma byte_lower_byte: "byte (lower_byte c) = (if in_range 65 90 c then byte c + 32 else byte c)"
  by (simp add: lower_byte_def in_range_def)

lemma lower_byte_idem [simp]: "lower_byte (lower_byte c) = lower_byte c"
  by (simp add: lower_byte_def in_range_def)

lemma ascii_map_lower [simp]: "ascii (map lower_byte s) \<longleftrightarrow> ascii s"
  by (induction s) (auto simp: byte_lower_byte in_range_def)

lemma to_lower_ascii: "ascii s \<Longrightarrow> to_lower P s = map lower_byte s"
  by (simp add: to_lower_def)

lemma to_lower_idem_ascii: "ascii s \<Longrightarrow> to_lower P (to_lower P s) = to_lower P s"
  by (simp add: to_lower_def)

lemma fold_key_ascii: "ascii s \<Longrightarrow> fold_key P s = map byte (map lower_byte s)"
  by (auto simp: fold_key_def runes_ascii ascii_def rune_fold_def byte_lower_byte in_range_def)

lemma map_byte_inject [simp]: "map byte s = map byte t \<longleftrightarrow> s = t"
  by (metis (no_types, lifting) char_of_char list.inj_map_strong of_char_eq_iff)

text \<open>On ASCII strings the two case-insensitive comparisons of the code agree.\<close>

lemma equal_fold_ascii:
  "ascii s \<Longrightarrow> ascii t \<Longrightarrow> equal_fold P s t \<longleftrightarrow> to_lower P s = to_lower P t"
  by (simp add: equal_fold_def fold_key_ascii to_lower_ascii del: map_map)

section \<open>Character classes, trimming, splitting\<close>

definition is_control :: "nat \<Rightarrow> bool" where
  "is_control r \<longleftrightarrow> r < 0x20 \<or> (0x7F \<le> r \<and> r < 0xA0)"

definition has_control :: "string \<Rightarrow> bool" where
  "has_control s \<longleftrightarrow> list_ex is_control (runes s)"

definition is_space :: "nat \<Rightarrow> bool" where
  "is_space r \<longleftrightarrow>
     (9 \<le> r \<and> r \<le> 13) \<or> r = 32 \<or> r = 0x85 \<or> r = 0xA0 \<or> r = 0x1680 \<or> (0x2000 \<le> r \<and> r \<le> 0x200A)
     \<or> r = 0x2028 \<or> r = 0x2029 \<or> r = 0x202F \<or> r = 0x205F \<or> r = 0x3000"

fun trim_left_space :: "string \<Rightarrow> string" where
  "trim_left_space [] = []"
| "trim_left_space (a # s) =
     (case decode_rune (a # s) of (r, w) \<Rightarrow>
        if is_space r then trim_left_space (drop (w - 1) s) else a # s)"

fun trim_right_space :: "string \<Rightarrow> string" where
  "trim_right_space [] = []"
| "trim_right_space (a # s) =
     (case decode_rune (a # s) of (r, w) \<Rightarrow>
        let t = trim_right_space (drop (w - 1) s)
        in if t = [] \<and> is_space r then [] else take w (a # s) @ t)"

definition trim_space :: "string \<Rightarrow> string" where
  "trim_space s = trim_right_space (trim_left_space s)"

definition is_blank :: "char \<Rightarrow> bool" where
  "is_blank c \<longleftrightarrow> c = CHR 0x20 \<or> c = CHR 0x09"

definition trim_blanks :: "string \<Rightarrow> string" where
  "trim_blanks s = rev (dropWhile is_blank (rev (dropWhile is_blank s)))"

text \<open>strings.Split with a one-byte separator: always at least one part.\<close>

fun split_on :: "char \<Rightarrow> string \<Rightarrow> string list" where
  "split_on c [] = [[]]"
| "split_on c (a # s) =
     (if a = c then [] # split_on c s
      else (case split_on c s of [] \<Rightarrow> [[a]] | p # ps \<Rightarrow> (a # p) # ps))"

fun has_prefix :: "string \<Rightarrow> string \<Rightarrow> bool" where
  "has_prefix s [] = True"
| "has_prefix [] (p # ps) = False"
| "has_prefix (a # s) (p # ps) = (a = p \<and> has_prefix s ps)"

definition has_suffix :: "string \<Rightarrow> string \<Rightarrow> bool" where
  "has_suffix s t = has_prefix (rev s) (rev t)"

fun contains_sub :: "string \<Rightarrow> string \<Rightarrow> bool" where
  "contains_sub [] t = (t = [])"
| "contains_sub (a # s) t = (has_prefix (a # s) t \<or> contains_sub s t)"

definition trim_prefix :: "string \<Rightarrow> string \<Rightarrow> string" where
  "trim_prefix s p = (if has_prefix s p then drop (length p) s else s)"

definition trim_suffix :: "string \<Rightarrow> string \<Rightarrow> string" where
  "trim_suffix s p = (if has_suffix s p then take (length s - length p) s else s)"

fun join_with :: "string \<Rightarrow> string list \<Rightarrow> string" where
  "join_with sep [] = []"
| "join_with sep [x] = x"
| "join_with sep (x # y # xs) = x @ sep @ join_with sep (y # xs)"

lemma has_prefix_iff: "has_prefix s p \<longleftrightarrow> (\<exists>t. s = p @ t)"
  by (induction s p rule: has_prefix.induct) auto

lemma has_suffix_iff: "has_suffix s p \<longleftrightarrow> (\<exists>t. s = t @ p)"
  unfolding has_suffix_def has_prefix_iff
  by (metis rev_append rev_rev_ident)

lemma contains_sub_iff: "contains_sub s t \<longleftrightarrow> (\<exists>u v. s = u @ t @ v)"
proof (induction s)
  case Nil
  then show ?case by simp
next
  case (Cons a s)
  have "contains_sub (a # s) t \<longleftrightarrow> (\<exists>v. a # s = t @ v) \<or> (\<exists>u v. s = u @ t @ v)"
    by (simp add: has_prefix_iff Cons.IH)
  also have "\<dots> \<longleftrightarrow> (\<exists>u v. a # s = u @ t @ v)"
    by (metis append_Cons append_Nil list.exhaust list.inject)
  finally show ?case .
qed

lemma split_on_nonempty [simp]: "split_on c s \<noteq> []"
  by (induction s) (auto split: list.splits)

lemma split_on_join: "join_with [c] (split_on c s) = s"
proof (induction s)
  case Nil
  then show ?case by simp
next
  case (Cons a s)
  show ?case
  proof (cases "split_on c s")
    case Nil
    then show ?thesis by simp
  next
    case (Cons p ps)
    with Cons.IH show ?thesis by (cases ps) auto
  qed
qed

lemma split_on_no_sep: "c \<notin> set s \<Longrightarrow> split_on c s = [s]"
  by (induction s) auto

section \<open>Decimal numbers\<close>

definition digit_char :: "nat \<Rightarrow> char" where
  "digit_char n = char_of (48 + n)"

fun show_nat :: "nat \<Rightarrow> string" where
  "show_nat n = (if n < 10 then [digit_char n] else show_nat (n div 10) @ [digit_char (n mod 10)])"

declare show_nat.simps [simp del]

definition itoa :: "int \<Rightarrow> string" where
  "itoa n = (if n < 0 then CHR ''-'' # show_nat (nat (- n)) else show_nat (nat n))"

definition is_digit :: "char \<Rightarrow> bool" where
  "is_digit c \<longleftrightarrow> in_range 48 57 c"

definition digit_value :: "char \<Rightarrow> nat" where
  "digit_value c = byte c - 48"

definition read_nat :: "string \<Rightarrow> nat" where
  "read_nat s = foldl (\<lambda>n c. n * 10 + digit_value c) 0 s"

lemma read_nat_snoc: "read_nat (s @ [c]) = read_nat s * 10 + digit_value c"
  by (simp add: read_nat_def)

lemma digit_char_simps:
  "n < 10 \<Longrightarrow> is_digit (digit_char n)" "n < 10 \<Longrightarrow> digit_value (digit_char n) = n"
  by (simp_all add: digit_char_def is_digit_def digit_value_def in_range_def)

lemma read_show_nat: "read_nat (show_nat n) = n"
proof (induction n rule: show_nat.induct)
  case (1 n)
  show ?case
  proof (cases "n < 10")
    case True
    then show ?thesis by (simp add: show_nat.simps read_nat_def digit_char_simps)
  next
    case False
    then show ?thesis
      using 1 by (subst show_nat.simps) (simp add: read_nat_snoc digit_char_simps)
  qed
qed

lemma show_nat_digits: "\<forall>c \<in> set (show_nat n). is_digit c"
proof (induction n rule: show_nat.induct)
  case (1 n)
  then show ?case
    by (cases "n < 10"; subst show_nat.simps) (auto simp: digit_char_simps)
qed

lemma show_nat_nonempty: "show_nat n \<noteq> []"
  by (subst show_nat.simps) simp

end
