(* ===== verification/Scim_Names.thy ===== *)
theory Scim_Names
  imports Scim_Strings
begin

text \<open>
  The admission predicates on names, strings and identifiers that the other components share
  (resource.go, store.go, bulk.go, patch.go), resource identifiers (id.go), schema sets and the
  error envelope (schemas.go, protocol_error.go). Every identifier that reaches storage or a
  client passes one of these predicates.
\<close>

section \<open>Strings and names\<close>

definition maximumStringBytes :: nat where
  "maximumStringBytes = 65536"

definition maximumValues :: nat where
  "maximumValues = 1000"

definition oneOf :: "string \<Rightarrow> string list \<Rightarrow> bool" where
  "oneOf value admitted \<longleftrightarrow> List.member admitted value"

definition validString :: "string \<Rightarrow> nat \<Rightarrow> bool" where
  "validString value maximum \<longleftrightarrow>
     length value \<le> maximum \<and> valid_utf8 value \<and> \<not> has_control value"

definition is_letter :: "char \<Rightarrow> bool" where
  "is_letter c \<longleftrightarrow> in_range 65 90 c \<or> in_range 97 122 c"

fun name_chars :: "nat \<Rightarrow> string \<Rightarrow> bool" where
  "name_chars index [] = True"
| "name_chars index (c # cs) =
     (if \<not> is_letter c \<and> \<not> (index > 0 \<and> (is_digit c \<or> c = CHR ''-'' \<or> c = CHR ''_''))
      then False else name_chars (Suc index) cs)"

definition validName :: "string \<Rightarrow> bool" where
  "validName value \<longleftrightarrow>
     (if value = [] \<or> 128 < length value then False else name_chars 0 value)"

definition validAttributeName :: "string \<Rightarrow> bool" where
  "validAttributeName value \<longleftrightarrow>
     (let parts = split_on (CHR ''.'') value
      in if 2 < length parts then False else list_all validName parts)"

definition validSchemaAttributeName :: "string \<Rightarrow> bool" where
  "validSchemaAttributeName value \<longleftrightarrow> value = ''$ref'' \<or> validName value"

definition validResourceID :: "string \<Rightarrow> bool" where
  "validResourceID i \<longleftrightarrow>
     i \<noteq> [] \<and> i \<noteq> ''.'' \<and> i \<noteq> ''..'' \<and> i \<noteq> ''bulkId'' \<and> validString i 1024
     \<and> \<not> List.member i (CHR ''/'')"

definition validBulkID :: "string \<Rightarrow> bool" where
  "validBulkID value \<longleftrightarrow>
     0 < length value \<and> length value \<le> 128 \<and> valid_utf8 value \<and> \<not> has_control value"

definition validAttributePath :: "string \<Rightarrow> bool" where
  "validAttributePath path \<longleftrightarrow>
     (if 1024 < length path \<or> \<not> valid_utf8 path \<or> trim_space path \<noteq> path \<or> has_control path then False
      else if list_ex (\<lambda>c. List.member path c) (''{}<>'' @ [CHR 0x5C]) then False
      else path \<noteq> [])"

fun string_list_ok :: "string list \<Rightarrow> string list \<Rightarrow> bool" where
  "string_list_ok [] seen = True"
| "string_list_ok (value # rest) seen =
     (if value = [] \<or> \<not> validString value 1024 then False
      else if List.member seen value then False
      else string_list_ok rest (value # seen))"

definition validStringList :: "string list \<Rightarrow> nat \<Rightarrow> bool" where
  "validStringList values maximum \<longleftrightarrow>
     (if maximum < length values then False else string_list_ok values [])"

section \<open>Schema sets and the error envelope\<close>

definition UserSchema :: string where
  "UserSchema = ''urn:ietf:params:scim:schemas:core:2.0:User''"
definition GroupSchema :: string where
  "GroupSchema = ''urn:ietf:params:scim:schemas:core:2.0:Group''"
definition EnterpriseUserSchema :: string where
  "EnterpriseUserSchema = ''urn:ietf:params:scim:schemas:extension:enterprise:2.0:User''"
definition ListResponseSchema :: string where
  "ListResponseSchema = ''urn:ietf:params:scim:api:messages:2.0:ListResponse''"
definition PatchSchema :: string where
  "PatchSchema = ''urn:ietf:params:scim:api:messages:2.0:PatchOp''"
definition ErrorSchema :: string where
  "ErrorSchema = ''urn:ietf:params:scim:api:messages:2.0:Error''"
definition BulkRequestSchema :: string where
  "BulkRequestSchema = ''urn:ietf:params:scim:api:messages:2.0:BulkRequest''"
definition BulkResponseSchema :: string where
  "BulkResponseSchema = ''urn:ietf:params:scim:api:messages:2.0:BulkResponse''"
definition SearchRequestSchema :: string where
  "SearchRequestSchema = ''urn:ietf:params:scim:api:messages:2.0:SearchRequest''"

fun expected_schemas :: "platform \<Rightarrow> string list \<Rightarrow> string list \<Rightarrow> string list result" where
  "expected_schemas P [] want = Inr want"
| "expected_schemas P (schema # rest) want =
     (if schema = [] then Inl (OtherError ''expected schema is empty'')
      else expected_schemas P rest (to_lower P schema # want))"

fun admit_schemas :: "platform \<Rightarrow> string list \<Rightarrow> string list \<Rightarrow> string list \<Rightarrow> unit result" where
  "admit_schemas P want [] seen = Inr ()"
| "admit_schemas P want (schema # rest) seen =
     (let key = to_lower P schema in
      if List.member seen key then Inl (OtherError ''schemas contain a case-equivalent duplicate'')
      else if \<not> List.member want key then Inl (OtherError ''schemas contain an unexpected value'')
      else admit_schemas P want rest (key # seen))"

definition ValidateSchemas :: "platform \<Rightarrow> string list \<Rightarrow> string list \<Rightarrow> unit result" where
  "ValidateSchemas P actual expected =
     (if length actual \<noteq> length expected \<or> length actual = 0
      then Inl (OtherError ''schemas do not match the required exact set'')
      else and_then (expected_schemas P expected []) (\<lambda>want. admit_schemas P want actual []))"

record error_response =
  er_schemas :: "string list"
  er_status :: string
  er_scim_type :: string
  er_detail :: string

definition NewError :: "int \<Rightarrow> string \<Rightarrow> string \<Rightarrow> error_response result" where
  "NewError st ty det =
     (if st < 400 \<or> 599 < st \<or> det = [] \<or> list_ex (\<lambda>c. List.member det c) [CHR 0x00, CHR 0x0D, CHR 0x0A]
      then Inl (OtherError ''SCIM error fields are invalid'')
      else Inr \<lparr>er_schemas = [ErrorSchema], er_status = itoa st, er_scim_type = ty, er_detail = det\<rparr>)"

section \<open>Resource identifiers\<close>

definition resourceIDBytes :: nat where
  "resourceIDBytes = 16"

definition base64_alphabet :: string where
  "base64_alphabet = ''ABCDEFGHIJKLMNOPQRSTUVWXYZabcdefghijklmnopqrstuvwxyz0123456789-_''"

definition sextet :: "nat \<Rightarrow> char" where
  "sextet n = base64_alphabet ! n"

text \<open>base64.RawURLEncoding.EncodeToString: no padding.\<close>

fun base64url :: "string \<Rightarrow> string" where
  "base64url (a # b # c # rest) =
     sextet (byte a div 4) # sextet (byte a mod 4 * 16 + byte b div 16)
     # sextet (byte b mod 16 * 4 + byte c div 64) # sextet (byte c mod 64) # base64url rest"
| "base64url [a, b] =
     [sextet (byte a div 4), sextet (byte a mod 4 * 16 + byte b div 16), sextet (byte b mod 16 * 4)]"
| "base64url [a] = [sextet (byte a div 4), sextet (byte a mod 4 * 16)]"
| "base64url [] = []"

text \<open>
  The entropy source is the bytes it will deliver; a read takes them from the front and
  io.ReadFull fails when fewer than sixteen are left. A nil reader is \<^const>\<open>None\<close>.
\<close>

definition NewResourceID :: "string option \<Rightarrow> (string \<times> string) result" where
  "NewResourceID entropy =
     (case entropy of
        None \<Rightarrow> Inl (OtherError ''resource ID entropy is required'')
      | Some bytes \<Rightarrow>
          if length bytes < resourceIDBytes then Inl (OtherError ''read resource ID entropy'')
          else Inr (base64url (take resourceIDBytes bytes), drop resourceIDBytes bytes))"

section \<open>Facts\<close>

lemma is_letter_ascii: "is_letter c \<Longrightarrow> 32 < byte c \<and> byte c < 127"
  by (auto simp: is_letter_def in_range_def)

lemma name_chars_visible:
  "name_chars n s \<Longrightarrow> c \<in> set s \<Longrightarrow> 32 < byte c \<and> byte c < 127 \<and> c \<noteq> CHR ''.''"
  by (induction n s rule: name_chars.induct)
    (auto split: if_splits simp: is_letter_def is_digit_def in_range_def)

lemma validName_ascii: "validName s \<Longrightarrow> ascii s"
  by (auto simp: validName_def ascii_def split: if_splits dest: name_chars_visible)

lemma has_control_ascii: "ascii s \<Longrightarrow> has_control s \<longleftrightarrow> (\<exists>c \<in> set s. is_control (byte c))"
  by (simp add: has_control_def runes_ascii list_ex_iff)

text \<open>A string of visible ASCII characters within the bound is a valid string.\<close>

lemma validString_visible:
  assumes "\<And>c. c \<in> set s \<Longrightarrow> 32 \<le> byte c \<and> byte c < 127" and "length s \<le> n"
  shows "validString s n"
proof -
  from assms(1) have a: "ascii s" by (force simp: ascii_def)
  have "\<not> has_control s" using assms(1) by (fastforce simp: has_control_ascii [OF a] is_control_def)
  with a assms(2) show ?thesis by (simp add: validString_def valid_utf8_ascii)
qed

lemma validName_validString: "validName s \<Longrightarrow> validString s 128"
  by (rule validString_visible)
    (auto simp: validName_def split: if_splits dest: name_chars_visible)

lemma validString_mono: "validString s m \<Longrightarrow> m \<le> n \<Longrightarrow> validString s n"
  by (auto simp: validString_def)

lemma string_list_ok_distinct:
  "string_list_ok xs seen \<Longrightarrow> distinct xs \<and> set xs \<inter> set seen = {} \<and> [] \<notin> set xs"
  by (induction xs seen rule: string_list_ok.induct) (auto split: if_splits)

lemma expected_schemas_Inr:
  "expected_schemas P xs w = Inr w' \<Longrightarrow> set w' = set w \<union> to_lower P ` set xs \<and> [] \<notin> set xs"
  by (induction P xs w rule: expected_schemas.induct) (auto split: if_splits)

lemma expected_schemas_ok:
  "[] \<notin> set xs \<Longrightarrow> \<exists>w'. expected_schemas P xs w = Inr w'"
  by (induction P xs w rule: expected_schemas.induct) auto

lemma admit_schemas_Inr:
  "admit_schemas P want xs seen = Inr () \<longleftrightarrow>
     distinct (map (to_lower P) xs) \<and> set (map (to_lower P) xs) \<inter> set seen = {}
     \<and> set (map (to_lower P) xs) \<subseteq> set want"
  by (induction P want xs seen rule: admit_schemas.induct) (auto simp: Let_def)

text \<open>The accepted lists are exactly the orderings of the expected set, up to letter case.\<close>

lemma ValidateSchemas_exact_set:
  assumes "[] \<notin> set expected" and "distinct (map (to_lower P) expected)" and "expected \<noteq> []"
  shows "ValidateSchemas P actual expected = Inr () \<longleftrightarrow>
           distinct (map (to_lower P) actual)
           \<and> set (map (to_lower P) actual) = set (map (to_lower P) expected)"
    (is "?ok \<longleftrightarrow> ?spec")
proof -
  obtain want where want: "expected_schemas P expected [] = Inr want"
    using expected_schemas_ok [OF assms(1)] by blast
  from expected_schemas_Inr [OF want] have sw: "set want = to_lower P ` set expected" by simp
  have card_e: "card (set (map (to_lower P) expected)) = length expected"
    using assms(2) distinct_card by fastforce
  show ?thesis
  proof
    assume ?ok
    then have len: "length actual = length expected"
      and d: "distinct (map (to_lower P) actual)"
      and sub: "set (map (to_lower P) actual) \<subseteq> set (map (to_lower P) expected)"
      using want sw by (auto simp: ValidateSchemas_def admit_schemas_Inr split: if_splits)
    have "card (set (map (to_lower P) actual)) = length actual"
      using d distinct_card by fastforce
    with len card_e sub have "set (map (to_lower P) actual) = set (map (to_lower P) expected)"
      by (metis List.finite_set card_subset_eq)
    with d show ?spec by simp
  next
    assume spec: ?spec
    then have "length actual = length expected"
      using card_e distinct_card by (metis length_map)
    with spec want sw assms(3) show ?ok
      by (auto simp: ValidateSchemas_def admit_schemas_Inr)
  qed
qed

lemma base64_alphabet_length: "length base64_alphabet = 64"
  by (simp add: base64_alphabet_def)

lemma base64_alphabet_distinct: "distinct base64_alphabet"
  by (simp add: base64_alphabet_def)

lemma base64_alphabet_visible:
  "\<forall>c \<in> set base64_alphabet. 32 \<le> byte c \<and> byte c < 127 \<and> c \<noteq> CHR ''/'' \<and> c \<noteq> CHR ''.''"
  by (simp add: base64_alphabet_def)

lemma sextet_alphabet: "n < 64 \<Longrightarrow> sextet n \<in> set base64_alphabet"
  by (simp add: sextet_def base64_alphabet_length)

lemma sextet_inject: "m < 64 \<Longrightarrow> n < 64 \<Longrightarrow> sextet m = sextet n \<longleftrightarrow> m = n"
  unfolding sextet_def
  by (rule nth_eq_iff_index_eq [OF base64_alphabet_distinct]) (simp_all add: base64_alphabet_length)

lemma byte_div_16: "byte b div 16 < 16" and byte_div_64: "byte b div 64 < 4"
  using nat_of_char_less_256 [of b] by (simp_all add: less_mult_imp_div_less)

text \<open>The sextets of a three-byte group stay inside the alphabet.\<close>

lemma sextet_bounds:
  "byte a div 4 < 64" "byte a mod 4 * 16 + byte b div 16 < 64"
  "byte b mod 16 * 4 + byte c div 64 < 64" "byte c mod 64 < 64"
  "byte a mod 4 * 16 < 64" "byte b mod 16 * 4 < 64"
proof -
  have m: "byte a mod 4 < 4" "byte b mod 16 < 16" by simp_all
  show "byte a div 4 < 64" using nat_of_char_less_256 [of a] by (simp add: less_mult_imp_div_less)
  show "byte a mod 4 * 16 + byte b div 16 < 64" using m byte_div_16 [of b] by linarith
  show "byte b mod 16 * 4 + byte c div 64 < 64" using m byte_div_64 [of c] by linarith
  show "byte c mod 64 < 64" "byte a mod 4 * 16 < 64" "byte b mod 16 * 4 < 64" using m by simp_all
qed

lemma base64url_set: "set (base64url s) \<subseteq> set base64_alphabet"
  by (induction s rule: base64url.induct) (simp_all add: sextet_alphabet sextet_bounds)

lemma base64url_length: "length (base64url s) = (4 * length s + 2) div 3"
  by (induction s rule: base64url.induct) simp_all

lemma byte_eqI: "byte a div k = byte b div k \<Longrightarrow> byte a mod k = byte b mod k \<Longrightarrow> a = b"
  by (metis div_mult_mod_eq of_char_eq_iff)

lemma radix_inject:
  fixes x y x' y' k :: nat
  assumes "x * k + y = x' * k + y'" and "y < k" and "y' < k"
  shows "x = x' \<and> y = y'"
proof -
  have "x = (x * k + y) div k" "y = (x * k + y) mod k" using assms(2) by simp_all
  moreover have "x' = (x' * k + y') div k" "y' = (x' * k + y') mod k" using assms(3) by simp_all
  ultimately show ?thesis using assms(1) by metis
qed

lemma sextet_group:
  assumes "sextet (byte a div 4) = sextet (byte a' div 4)"
    and "sextet (byte a mod 4 * 16 + byte b div 16) = sextet (byte a' mod 4 * 16 + byte b' div 16)"
  shows "a = a'" and "byte b div 16 = byte b' div 16"
proof -
  have "byte a div 4 = byte a' div 4" using assms(1) sextet_inject sextet_bounds(1) by blast
  moreover have "byte a mod 4 * 16 + byte b div 16 = byte a' mod 4 * 16 + byte b' div 16"
    using assms(2) sextet_inject sextet_bounds(2) by blast
  then have ab: "byte a mod 4 = byte a' mod 4 \<and> byte b div 16 = byte b' div 16"
    by (rule radix_inject) (rule byte_div_16)+
  ultimately show "a = a'" using byte_eqI by blast
  from ab show "byte b div 16 = byte b' div 16" ..
qed

lemma base64url_inject: "length s = length t \<Longrightarrow> base64url s = base64url t \<Longrightarrow> s = t"
proof (induction s arbitrary: t rule: base64url.induct)
  case (1 a b c rest)
  from 1(2) obtain a' b' c' rest' where t: "t = a' # b' # c' # rest'"
    by (cases t rule: base64url.cases) auto
  from 1(3) have g: "sextet (byte a div 4) = sextet (byte a' div 4)"
    "sextet (byte a mod 4 * 16 + byte b div 16) = sextet (byte a' mod 4 * 16 + byte b' div 16)"
    unfolding t base64url.simps list.inject by simp_all
  from 1(3) have "byte b mod 16 * 4 + byte c div 64 = byte b' mod 16 * 4 + byte c' div 64"
    and c: "byte c mod 64 = byte c' mod 64" and rest: "base64url rest = base64url rest'"
    unfolding t base64url.simps list.inject by (simp_all add: sextet_inject sextet_bounds)
  then have "byte b mod 16 = byte b' mod 16" and "byte c div 64 = byte c' div 64"
    using radix_inject [OF _ byte_div_64 byte_div_64] by blast+
  with sextet_group [OF g] c have "a = a'" and "b = b'" and "c = c'" using byte_eqI by blast+
  moreover from 1(2) t have "length rest = length rest'" by simp
  ultimately show ?case using 1(1) [OF _ rest] t by simp
next
  case (2 a b)
  from 2(1) obtain a' b' where t: "t = [a', b']" by (cases t rule: base64url.cases) auto
  from 2(2) have g: "sextet (byte a div 4) = sextet (byte a' div 4)"
    "sextet (byte a mod 4 * 16 + byte b div 16) = sextet (byte a' mod 4 * 16 + byte b' div 16)"
    and "byte b mod 16 = byte b' mod 16"
    unfolding t base64url.simps list.inject by (simp_all add: sextet_inject sextet_bounds)
  with sextet_group [OF g] t show ?case using byte_eqI by blast
next
  case (3 a)
  from 3(1) obtain a' where t: "t = [a']" by (cases t rule: base64url.cases) auto
  with 3 have "byte a div 4 = byte a' div 4" and "byte a mod 4 = byte a' mod 4"
    by (simp_all add: sextet_inject sextet_bounds)
  with t show ?case using byte_eqI by blast
qed simp

text \<open>An identifier is 22 characters of the URL alphabet, so it passes the path checks.\<close>

lemma NewResourceID_valid:
  assumes "NewResourceID entropy = Inr (i, rest)"
  shows "validResourceID i \<and> length i = 22"
proof -
  from assms obtain bytes where i: "i = base64url (take 16 bytes)" and "16 \<le> length bytes"
    by (auto simp: NewResourceID_def resourceIDBytes_def split: option.splits if_splits)
  then have len: "length i = 22" by (simp add: base64url_length)
  have vis: "32 \<le> byte c \<and> byte c < 127 \<and> c \<noteq> CHR ''/''" if "c \<in> set i" for c
    using that base64url_set base64_alphabet_visible by (fastforce simp: i)
  then have "validString i 1024" using len by (auto intro: validString_visible)
  with len vis show ?thesis by (auto simp: validResourceID_def)
qed

end
