(* ===== verification/Scim_Json.thy ===== *)
theory Scim_Json
  imports Scim_Names
begin

text \<open>
  JSON values and the strict decoder of json.go, with the parts of encoding/json it stands on:
  the lexical grammar behind \<^verbatim>\<open>Decoder.Token\<close>, and \<^verbatim>\<open>Marshal\<close> of decoded values. The decoder
  bounds depth and node count, rejects object names that differ only in letter case, and spells
  the protocol's own names canonically.

  A decoded value is a \<open>json\<close>: numbers keep their literal text (\<^verbatim>\<open>UseNumber\<close>), an object is a
  Go map, that is, the list of its entries in an iteration order. \<open>canon\<close> sorts the entries of
  every object; two values are \<^verbatim>\<open>reflect.DeepEqual\<close> when their canonical forms agree.
\<close>

section \<open>Values\<close>

datatype json =
    JNull
  | JBool bool
  | JNum string
  | JStr string
  | JArr "json list"
  | JObj "(string \<times> json) list"

type_synonym document = "(string \<times> json) list"

primrec canon :: "json \<Rightarrow> json" where
  "canon JNull = JNull"
| "canon (JBool b) = JBool b"
| "canon (JNum n) = JNum n"
| "canon (JStr s) = JStr s"
| "canon (JArr xs) = JArr (map canon xs)"
| "canon (JObj m) = JObj (sort_key fst (map (map_prod id canon) m))"

definition deep_equal :: "json \<Rightarrow> json \<Rightarrow> bool" where
  "deep_equal x y \<longleftrightarrow> canon x = canon y"

primrec nodes :: "json \<Rightarrow> nat" where
  "nodes JNull = 1"
| "nodes (JBool b) = 1"
| "nodes (JNum n) = 1"
| "nodes (JStr s) = 1"
| "nodes (JArr xs) = Suc (sum_list (map nodes xs))"
| "nodes (JObj m) = Suc (sum_list (map snd (map (map_prod id nodes) m)))"

primrec height :: "json \<Rightarrow> nat" where
  "height JNull = 0"
| "height (JBool b) = 0"
| "height (JNum n) = 0"
| "height (JStr s) = 0"
| "height (JArr xs) = foldr max (map Suc (map height xs)) 0"
| "height (JObj m) = foldr max (map Suc (map snd (map (map_prod id height) m))) 0"

section \<open>Canonical names\<close>

definition core_keys :: "string list" where
  "core_keys =
     [''Operations'', ''Resources'', ''$ref'', ''active'', ''addresses'', ''attributes'',
      ''authenticationSchemes'', ''bulk'', ''bulkId'', ''caseExact'', ''changePassword'',
      ''country'', ''created'', ''data'', ''description'', ''display'', ''displayName'',
      ''emails'', ''endpoint'', ''entitlements'', ''excludedAttributes'', ''externalId'',
      ''failOnErrors'', ''familyName'', ''filter'', ''formatted'', ''givenName'', ''groups'',
      ''honorificPrefix'', ''honorificSuffix'', ''id'', ''ims'', ''itemsPerPage'',
      ''lastModified'', ''locale'', ''locality'', ''location'', ''maxOperations'',
      ''maxPayloadSize'', ''maxResults'', ''members'', ''meta'', ''method'', ''middleName'',
      ''multiValued'', ''mutability'', ''name'', ''nickName'', ''op'', ''password'', ''patch'',
      ''path'', ''phoneNumbers'', ''photos'', ''postalCode'', ''preferredLanguage'', ''primary'',
      ''profileUrl'', ''region'', ''required'', ''response'', ''returned'', ''roles'', ''schema'',
      ''schemaExtensions'', ''schemas'', ''sort'', ''startIndex'', ''status'', ''streetAddress'',
      ''subAttributes'', ''supported'', ''timezone'', ''title'', ''totalResults'', ''type'',
      ''uniqueness'', ''userName'', ''userType'', ''value'', ''version'', ''x509Certificates'']"

definition CoreKeyCases :: "platform \<Rightarrow> (string \<times> string) list" where
  "CoreKeyCases P = foldl (\<lambda>m key. AList.update (to_lower P key) key m) [] core_keys"

text \<open>The table the loop builds, computed once; evaluation uses it.\<close>

lemma CoreKeyCases_table [code]:
  "CoreKeyCases P =
     [(''operations'', ''Operations''), (''resources'', ''Resources''), (''$ref'', ''$ref''),
      (''active'', ''active''), (''addresses'', ''addresses''), (''attributes'', ''attributes''),
      (''authenticationschemes'', ''authenticationSchemes''), (''bulk'', ''bulk''),
      (''bulkid'', ''bulkId''), (''caseexact'', ''caseExact''),
      (''changepassword'', ''changePassword''), (''country'', ''country''),
      (''created'', ''created''), (''data'', ''data''), (''description'', ''description''),
      (''display'', ''display''), (''displayname'', ''displayName''), (''emails'', ''emails''),
      (''endpoint'', ''endpoint''), (''entitlements'', ''entitlements''),
      (''excludedattributes'', ''excludedAttributes''), (''externalid'', ''externalId''),
      (''failonerrors'', ''failOnErrors''), (''familyname'', ''familyName''),
      (''filter'', ''filter''), (''formatted'', ''formatted''), (''givenname'', ''givenName''),
      (''groups'', ''groups''), (''honorificprefix'', ''honorificPrefix''),
      (''honorificsuffix'', ''honorificSuffix''), (''id'', ''id''), (''ims'', ''ims''),
      (''itemsperpage'', ''itemsPerPage''), (''lastmodified'', ''lastModified''),
      (''locale'', ''locale''), (''locality'', ''locality''), (''location'', ''location''),
      (''maxoperations'', ''maxOperations''), (''maxpayloadsize'', ''maxPayloadSize''),
      (''maxresults'', ''maxResults''), (''members'', ''members''), (''meta'', ''meta''),
      (''method'', ''method''), (''middlename'', ''middleName''),
      (''multivalued'', ''multiValued''), (''mutability'', ''mutability''), (''name'', ''name''),
      (''nickname'', ''nickName''), (''op'', ''op''), (''password'', ''password''),
      (''patch'', ''patch''), (''path'', ''path''), (''phonenumbers'', ''phoneNumbers''),
      (''photos'', ''photos''), (''postalcode'', ''postalCode''),
      (''preferredlanguage'', ''preferredLanguage''), (''primary'', ''primary''),
      (''profileurl'', ''profileUrl''), (''region'', ''region''), (''required'', ''required''),
      (''response'', ''response''), (''returned'', ''returned''), (''roles'', ''roles''),
      (''schema'', ''schema''), (''schemaextensions'', ''schemaExtensions''),
      (''schemas'', ''schemas''), (''sort'', ''sort''), (''startindex'', ''startIndex''),
      (''status'', ''status''), (''streetaddress'', ''streetAddress''),
      (''subattributes'', ''subAttributes''), (''supported'', ''supported''),
      (''timezone'', ''timezone''), (''title'', ''title''), (''totalresults'', ''totalResults''),
      (''type'', ''type''), (''uniqueness'', ''uniqueness''), (''username'', ''userName''),
      (''usertype'', ''userType''), (''value'', ''value''), (''version'', ''version''),
      (''x509certificates'', ''x509Certificates'')]"
  by code_simp

definition admitted_key :: "(string \<times> string) list \<Rightarrow> string \<Rightarrow> string \<Rightarrow> string" where
  "admitted_key canonical folded key =
     (case map_of canonical folded of Some known \<Rightarrow> known | None \<Rightarrow> key)"

text \<open>
  NormalizeKeys over a value: \<open>seen\<close> maps the folded spelling to the name already admitted.
  The recursion follows the value, with the loop over an object's entries as \<^const>\<open>for_each\<close>.
\<close>

fun NormalizeKeys :: "platform \<Rightarrow> json \<Rightarrow> (string \<times> string) list \<Rightarrow> json result" where
  "NormalizeKeys P (JArr xs) canonical =
     and_then (traverse (\<lambda>item. NormalizeKeys P item canonical) xs) (\<lambda>ys. Inr (JArr ys))"
| "NormalizeKeys P (JObj m) canonical =
     and_then
       (for_each (\<lambda>(key, item) (res, seen).
          let folded = to_lower P key;
              normalizedKey = admitted_key canonical folded key;
              collisionKey = to_lower P normalizedKey
          in if has_key seen collisionKey
             then Inl (OtherError ''attributes are case-equivalent'')
             else and_then (NormalizeKeys P item canonical) (\<lambda>normalized.
               Inr (AList.update normalizedKey normalized res, AList.update collisionKey key seen)))
        m ([], []))
       (\<lambda>(res, seen). Inr (JObj res))"
| "NormalizeKeys P value canonical = Inr value"

section \<open>Lexical grammar\<close>

datatype jtoken =
    TLBrace | TRBrace | TLBrack | TRBrack | TComma | TColon
  | TStr string | TNum string | TTrue | TFalse | TNull

definition json_space :: "char \<Rightarrow> bool" where
  "json_space c \<longleftrightarrow> c = CHR 0x20 \<or> c = CHR 0x09 \<or> c = CHR 0x0A \<or> c = CHR 0x0D"

definition hex_value :: "char \<Rightarrow> nat option" where
  "hex_value c =
     (if in_range 48 57 c then Some (byte c - 48)
      else if in_range 97 102 c then Some (byte c - 87)
      else if in_range 65 70 c then Some (byte c - 55) else None)"

definition hex4 :: "string \<Rightarrow> nat option" where
  "hex4 s =
     (case s of
        a # b # c # d # _ \<Rightarrow>
          (case (hex_value a, hex_value b, hex_value c, hex_value d) of
             (Some w, Some x, Some y, Some z) \<Rightarrow> Some (w * 4096 + x * 256 + y * 16 + z)
           | _ \<Rightarrow> None)
      | _ \<Rightarrow> None)"

definition is_surrogate :: "nat \<Rightarrow> bool" where
  "is_surrogate r \<longleftrightarrow> 0xD800 \<le> r \<and> r < 0xE000"

text \<open>The second half of a surrogate pair, when the text goes on with one.\<close>

definition surrogate_pair :: "nat \<Rightarrow> string \<Rightarrow> nat option" where
  "surrogate_pair r s =
     (case s of
        b # u # h \<Rightarrow>
          (if b = CHR 0x5C \<and> u = CHR ''u'' then
             (case hex4 h of
                Some r2 \<Rightarrow>
                  if 0xD800 \<le> r \<and> r < 0xDC00 \<and> 0xDC00 \<le> r2 \<and> r2 < 0xE000
                  then Some ((r - 0xD800) * 1024 + (r2 - 0xDC00) + 0x10000) else None
              | None \<Rightarrow> None)
           else None)
      | _ \<Rightarrow> None)"

definition simple_escape :: "char \<Rightarrow> char option" where
  "simple_escape e =
     (if e = CHR 0x22 \<or> e = CHR 0x5C \<or> e = CHR ''/'' then Some e
      else if e = CHR ''b'' then Some (CHR 0x08) else if e = CHR ''f'' then Some (CHR 0x0C)
      else if e = CHR ''n'' then Some (CHR 0x0A) else if e = CHR ''r'' then Some (CHR 0x0D)
      else if e = CHR ''t'' then Some (CHR 0x09) else None)"

definition prepend :: "string \<Rightarrow> (string \<times> string) option \<Rightarrow> (string \<times> string) option" where
  "prepend u r = map_option (apfst (\<lambda>s. u @ s)) r"

text \<open>The contents of a string literal up to the closing quote, and the text after it.\<close>

fun lex_string :: "string \<Rightarrow> (string \<times> string) option" where
  "lex_string [] = None"
| "lex_string (c # s) =
     (if c = CHR 0x22 then Some ([], s)
      else if c = CHR 0x5C then
        (case s of
           [] \<Rightarrow> None
         | e # t \<Rightarrow>
             if e = CHR ''u'' then
               (case hex4 t of
                  None \<Rightarrow> None
                | Some r \<Rightarrow>
                    if is_surrogate r then
                      (case surrogate_pair r (drop 4 t) of
                         Some full \<Rightarrow> prepend (encode_rune full) (lex_string (drop 10 t))
                       | None \<Rightarrow> prepend (encode_rune rune_error) (lex_string (drop 4 t)))
                    else prepend (encode_rune r) (lex_string (drop 4 t)))
             else
               (case simple_escape e of
                  None \<Rightarrow> None
                | Some x \<Rightarrow> prepend [x] (lex_string t)))
      else if byte c < 0x20 then None
      else prepend [c] (lex_string s))"

definition lex_int :: "string \<Rightarrow> (string \<times> string) option" where
  "lex_int s =
     (case s of
        [] \<Rightarrow> None
      | c # r \<Rightarrow>
          if c = CHR ''0'' then Some ([c], r)
          else if is_digit c then Some (takeWhile is_digit s, dropWhile is_digit s) else None)"

definition lex_frac :: "string \<Rightarrow> (string \<times> string) option" where
  "lex_frac s =
     (case s of
        [] \<Rightarrow> Some ([], [])
      | c # r \<Rightarrow>
          if c = CHR ''.'' then
            (let ds = takeWhile is_digit r in if ds = [] then None else Some (c # ds, dropWhile is_digit r))
          else Some ([], s))"

definition is_sign :: "char \<Rightarrow> bool" where
  "is_sign c \<longleftrightarrow> c = CHR ''+'' \<or> c = CHR ''-''"

definition lex_exp :: "string \<Rightarrow> (string \<times> string) option" where
  "lex_exp s =
     (case s of
        [] \<Rightarrow> Some ([], [])
      | c # r \<Rightarrow>
          if c = CHR ''e'' \<or> c = CHR ''E'' then
            (let sg = (case r of x # _ \<Rightarrow> if is_sign x then [x] else [] | [] \<Rightarrow> []);
                 t = drop (length sg) r; ds = takeWhile is_digit t
             in if ds = [] then None else Some (c # sg @ ds, dropWhile is_digit t))
          else Some ([], s))"

definition lex_sign :: "string \<Rightarrow> string \<times> string" where
  "lex_sign s = (case s of c # r \<Rightarrow> if c = CHR ''-'' then ([c], r) else ([], s) | [] \<Rightarrow> ([], []))"

definition lex_number :: "string \<Rightarrow> (string \<times> string) option" where
  "lex_number s =
     (let (sg, s0) = lex_sign s in
      Option.bind (lex_int s0) (\<lambda>(i, s1).
      Option.bind (lex_frac s1) (\<lambda>(f, s2).
      Option.bind (lex_exp s2) (\<lambda>(e, s3). Some (sg @ i @ f @ e, s3)))))"

definition valid_number :: "string \<Rightarrow> bool" where
  "valid_number s \<longleftrightarrow> lex_number s = Some (s, [])"

lemma prepend_Some: "prepend u r = Some (x, y) \<longleftrightarrow> (\<exists>z. r = Some (z, y) \<and> x = u @ z)"
  by (cases r) (auto simp: prepend_def)

lemma lex_string_shorter: "lex_string s = Some (t, r) \<Longrightarrow> length r < length s"
proof (induction s arbitrary: t r rule: lex_string.induct)
  case (2 c s)
  have le: "length r < length (drop n u) \<Longrightarrow> length r < length u" for n and u :: string
    by simp
  from 2 show ?case
    by (fastforce simp: prepend_Some split: if_splits list.splits option.splits)
qed simp

lemma takeWhile_dropWhile_split: "s = takeWhile p s @ dropWhile p s"
  by simp

lemma lex_int_split: "lex_int s = Some (u, v) \<Longrightarrow> s = u @ v \<and> u \<noteq> []"
  by (auto simp: lex_int_def split: list.splits if_splits)

lemma lex_frac_split: "lex_frac s = Some (u, v) \<Longrightarrow> s = u @ v"
  by (auto simp: lex_frac_def Let_def split: list.splits if_splits)

lemma lex_exp_split: "lex_exp s = Some (u, v) \<Longrightarrow> s = u @ v"
  by (auto simp: lex_exp_def Let_def split: list.splits if_splits)

lemma lex_sign_split: "lex_sign s = (u, v) \<Longrightarrow> s = u @ v"
  by (auto simp: lex_sign_def split: list.splits if_splits)

lemma lex_number_split: "lex_number s = Some (u, v) \<Longrightarrow> s = u @ v \<and> u \<noteq> []"
  by (auto simp: lex_number_def bind_eq_Some_conv split: prod.splits
      dest!: lex_int_split lex_frac_split lex_exp_split lex_sign_split)

lemma lex_number_shorter: "lex_number s = Some (u, v) \<Longrightarrow> length v < length s"
  by (auto dest: lex_number_split)

end
