(* ===== verification/Scim_Codec.thy ===== *)
theory Scim_Codec
  imports Scim_Json
begin

text \<open>
  DecodeDocument, json.Marshal and the round trip between them (json.go). The text is split into
  tokens and the tokens are parsed under the bounds of the code; since every failure yields the
  same error, tokenising ahead of parsing is the same as pulling tokens one by one.

  The parser carries fuel: one unit per nested call. A call for a value consumes a token before
  it calls for members or elements, and these consume a token between two rounds, so one more
  than twice the number of tokens is enough: with that much fuel the result no longer depends
  on it (\<open>parse_fuel\<close>).
\<close>

section \<open>Tokens\<close>

definition punctuation :: "char \<Rightarrow> jtoken option" where
  "punctuation c =
     (if c = CHR 0x7B then Some TLBrace else if c = CHR 0x7D then Some TRBrace
      else if c = CHR 0x5B then Some TLBrack else if c = CHR 0x5D then Some TRBrack
      else if c = CHR 0x2C then Some TComma else if c = CHR 0x3A then Some TColon else None)"

definition literal_token :: "string \<Rightarrow> (jtoken \<times> string) option" where
  "literal_token s =
     (if has_prefix s ''true'' then Some (TTrue, drop 4 s)
      else if has_prefix s ''false'' then Some (TFalse, drop 5 s)
      else if has_prefix s ''null'' then Some (TNull, drop 4 s) else None)"

text \<open>One token at the head of a text that does not start with white space.\<close>

definition lex_token :: "string \<Rightarrow> (jtoken \<times> string) option" where
  "lex_token s =
     (case s of
        [] \<Rightarrow> None
      | c # r \<Rightarrow>
          (case punctuation c of
             Some t \<Rightarrow> Some (t, r)
           | None \<Rightarrow>
               if c = CHR 0x22 then map_option (apfst TStr) (lex_string r)
               else if c = CHR ''-'' \<or> is_digit c then map_option (apfst TNum) (lex_number s)
               else literal_token s))"

lemma lex_token_shorter: "lex_token s = Some (t, r) \<Longrightarrow> length r < length s"
  by (auto simp: lex_token_def literal_token_def has_prefix_iff split: list.splits option.splits if_splits
      dest: lex_string_shorter lex_number_shorter)

function lex :: "string \<Rightarrow> jtoken list option" where
  "lex s =
     (case s of
        [] \<Rightarrow> Some []
      | c # r \<Rightarrow>
          if json_space c then lex r
          else (case lex_token s of
                  None \<Rightarrow> None
                | Some (t, u) \<Rightarrow> map_option (\<lambda>ts. t # ts) (lex u)))"
  by pat_completeness auto
termination
  by (relation "measure length") (auto dest: lex_token_shorter)

declare lex.simps [simp del]

section \<open>The decoder\<close>

definition MaximumResourceBytes :: nat where
  "MaximumResourceBytes = 1048576"
definition maximumJSONDepth :: nat where
  "maximumJSONDepth = 64"
definition maximumJSONNodes :: nat where
  "maximumJSONNodes = 10000"

text \<open>
  What the loop reads before a member's value: a comma unless it is the first round, a name
  and a colon. Before an element it reads the comma only.
\<close>

definition after_comma :: "bool \<Rightarrow> jtoken list \<Rightarrow> jtoken list option" where
  "after_comma first ts =
     (if first then Some ts
      else (case ts of [] \<Rightarrow> None | t # r \<Rightarrow> if t = TComma then Some r else None))"

definition member_name :: "bool \<Rightarrow> jtoken list \<Rightarrow> (string \<times> jtoken list) option" where
  "member_name first ts =
     Option.bind (after_comma first ts) (\<lambda>u.
       (case u of
          a # b # r \<Rightarrow> (case a of TStr key \<Rightarrow> if b = TColon then Some (key, r) else None | _ \<Rightarrow> None)
        | _ \<Rightarrow> None))"

definition scalar_token :: "jtoken \<Rightarrow> json option" where
  "scalar_token t =
     (case t of
        TStr s \<Rightarrow> Some (JStr s) | TNum s \<Rightarrow> Some (JNum s)
      | TTrue \<Rightarrow> Some (JBool True) | TFalse \<Rightarrow> Some (JBool False) | TNull \<Rightarrow> Some JNull
      | _ \<Rightarrow> None)"

function (sequential) parse_value :: "platform \<Rightarrow> nat \<Rightarrow> nat \<Rightarrow> nat \<Rightarrow> jtoken list \<Rightarrow> (json \<times> nat \<times> jtoken list) option"
  and parse_members :: "platform \<Rightarrow> nat \<Rightarrow> nat \<Rightarrow> bool \<Rightarrow> string list \<Rightarrow> document \<Rightarrow> nat \<Rightarrow> jtoken list
        \<Rightarrow> (document \<times> nat \<times> jtoken list) option"
  and parse_elements :: "platform \<Rightarrow> nat \<Rightarrow> nat \<Rightarrow> bool \<Rightarrow> nat \<Rightarrow> jtoken list
        \<Rightarrow> (json list \<times> nat \<times> jtoken list) option" where
  "parse_value P 0 depth n ts = None"
| "parse_value P (Suc fuel) depth n ts =
     (if maximumJSONDepth < depth \<or> maximumJSONNodes \<le> n then None
      else (case ts of
              [] \<Rightarrow> None
            | t # r \<Rightarrow>
                if t = TLBrace
                then map_option (apfst JObj) (parse_members P fuel depth True [] [] (Suc n) r)
                else if t = TLBrack
                then map_option (apfst JArr) (parse_elements P fuel depth True (Suc n) r)
                else map_option (\<lambda>v. (v, Suc n, r)) (scalar_token t)))"
| "parse_members P 0 depth first seen m n ts = None"
| "parse_members P (Suc fuel) depth first seen m n ts =
     (if ts \<noteq> [] \<and> hd ts = TRBrace then Some (m, n, tl ts)
      else Option.bind (member_name first ts) (\<lambda>(key, r).
        let folded = to_lower P key in
        if key = [] \<or> \<not> valid_utf8 key \<or> List.member seen folded then None
        else Option.bind (parse_value P fuel (Suc depth) n r) (\<lambda>(v, n', r').
          parse_members P fuel depth False (folded # seen)
            (AList.update (admitted_key (CoreKeyCases P) folded key) v m) n' r')))"
| "parse_elements P 0 depth first n ts = None"
| "parse_elements P (Suc fuel) depth first n ts =
     (if ts \<noteq> [] \<and> hd ts = TRBrack then Some ([], n, tl ts)
      else Option.bind (after_comma first ts) (\<lambda>r.
        Option.bind (parse_value P fuel (Suc depth) n r) (\<lambda>(v, n', r').
          map_option (apfst (\<lambda>vs. v # vs)) (parse_elements P fuel depth False n' r'))))"
  by pat_completeness auto
termination
  by (relation "measure (\<lambda>x. case x of
        Inl (P, fuel, _) \<Rightarrow> fuel
      | Inr (Inl (P, fuel, _)) \<Rightarrow> fuel
      | Inr (Inr (P, fuel, _)) \<Rightarrow> fuel)") auto

text \<open>DecodeDocument: one bounded object and nothing after it.\<close>

definition DecodeDocument :: "platform \<Rightarrow> string \<Rightarrow> document result" where
  "DecodeDocument P raw =
     (if raw = [] \<or> MaximumResourceBytes < length raw \<or> \<not> valid_utf8 raw
      then Inl (OtherError ''SCIM resource size or encoding is invalid'')
      else (case Option.bind (lex raw) (\<lambda>ts. parse_value P (Suc (2 * length ts)) 0 0 ts) of
              None \<Rightarrow> Inl (OtherError ''SCIM resource JSON is invalid'')
            | Some (value, n, rest) \<Rightarrow>
                if rest \<noteq> [] then Inl (OtherError ''SCIM resource JSON has trailing data'')
                else (case value of
                        JObj document \<Rightarrow> Inr document
                      | _ \<Rightarrow> Inl (OtherError ''SCIM resource must be a JSON object''))))"

section \<open>Marshalling\<close>

definition hex_digit :: "nat \<Rightarrow> char" where
  "hex_digit n = (if n < 10 then char_of (48 + n) else char_of (87 + n))"

definition unicode_escape :: "nat \<Rightarrow> string" where
  "unicode_escape r =
     [CHR 0x5C, CHR ''u'', hex_digit (r div 4096 mod 16), hex_digit (r div 256 mod 16),
      hex_digit (r div 16 mod 16), hex_digit (r mod 16)]"

definition escape_byte :: "char \<Rightarrow> string" where
  "escape_byte c =
     (if c = CHR 0x22 \<or> c = CHR 0x5C then [CHR 0x5C, c]
      else if c = CHR 0x08 then [CHR 0x5C, CHR ''b''] else if c = CHR 0x0C then [CHR 0x5C, CHR ''f'']
      else if c = CHR 0x0A then [CHR 0x5C, CHR ''n''] else if c = CHR 0x0D then [CHR 0x5C, CHR ''r'']
      else if c = CHR 0x09 then [CHR 0x5C, CHR ''t'']
      else if byte c < 0x20 \<or> c = CHR ''<'' \<or> c = CHR ''>'' \<or> c = CHR ''&'' then unicode_escape (byte c)
      else [c])"

definition escape_chunk :: "string \<Rightarrow> string" where
  "escape_chunk u =
     (if u = [CHR 0xE2, CHR 0x80, CHR 0xA8] then unicode_escape 0x2028
      else if u = [CHR 0xE2, CHR 0x80, CHR 0xA9] then unicode_escape 0x2029 else u)"

fun escape :: "string \<Rightarrow> string" where
  "escape [] = []"
| "escape (c # s) =
     (let w = rune_width (c # s) in
      if byte c < 0x80 then escape_byte c @ escape s
      else if w = 0 then unicode_escape rune_error @ escape s
      else escape_chunk (take w (c # s)) @ escape (drop (w - 1) s))"

fun comma_join :: "jtoken list list \<Rightarrow> jtoken list" where
  "comma_join [] = []"
| "comma_join (x # xs) = x @ concat (map (\<lambda>y. TComma # y) xs)"

definition number_text :: "string \<Rightarrow> string" where
  "number_text s = (if s = [] then ''0'' else s)"

primrec tokens_of :: "json \<Rightarrow> jtoken list" where
  "tokens_of JNull = [TNull]"
| "tokens_of (JBool b) = [if b then TTrue else TFalse]"
| "tokens_of (JNum s) = [TNum (number_text s)]"
| "tokens_of (JStr s) = [TStr s]"
| "tokens_of (JArr xs) = TLBrack # comma_join (map tokens_of xs) @ [TRBrack]"
| "tokens_of (JObj m) =
     TLBrace # comma_join (map (\<lambda>(k, ts). TStr k # TColon # ts) (map (map_prod id tokens_of) m))
     @ [TRBrace]"

fun render :: "jtoken \<Rightarrow> string" where
  "render TLBrace = [CHR 0x7B]"
| "render TRBrace = [CHR 0x7D]"
| "render TLBrack = [CHR 0x5B]"
| "render TRBrack = [CHR 0x5D]"
| "render TComma = [CHR 0x2C]"
| "render TColon = [CHR 0x3A]"
| "render (TStr s) = CHR 0x22 # escape s @ [CHR 0x22]"
| "render (TNum s) = s"
| "render TTrue = ''true''"
| "render TFalse = ''false''"
| "render TNull = ''null''"

primrec numbers_ok :: "json \<Rightarrow> bool" where
  "numbers_ok JNull = True"
| "numbers_ok (JBool b) = True"
| "numbers_ok (JNum s) = valid_number (number_text s)"
| "numbers_ok (JStr s) = True"
| "numbers_ok (JArr xs) = list_all id (map numbers_ok xs)"
| "numbers_ok (JObj m) = list_all snd (map (map_prod id numbers_ok) m)"

definition marshal :: "json \<Rightarrow> string result" where
  "marshal v =
     (if numbers_ok v then Inr (concat (map render (tokens_of (canon v))))
      else Inl (OtherError ''json: invalid number literal''))"

definition canonicalDocument :: "document \<Rightarrow> string result" where
  "canonicalDocument document =
     (case marshal (JObj document) of
        Inl e \<Rightarrow> Inl (OtherError ''canonical SCIM resource is invalid'')
      | Inr encoded \<Rightarrow>
          if encoded = [] \<or> MaximumResourceBytes < length encoded
          then Inl (OtherError ''canonical SCIM resource is invalid'') else Inr encoded)"

definition cloneDocument :: "platform \<Rightarrow> document \<Rightarrow> document result" where
  "cloneDocument P document = and_then (canonicalDocument document) (DecodeDocument P)"

end
