(* ===== verification/Scim_Raw.thy ===== *)
theory Scim_Raw
  imports Scim_Codec
begin

text \<open>
  JSON text that the code keeps as text (\<^verbatim>\<open>json.RawMessage\<close>): its validity, its compaction when it is
  marshalled again, and the text of an object's members and an array's elements, which is what
  encoding/json hands to the fields of a struct. The splitting functions are used on text that
  the strict decoder has already admitted.
\<close>

section \<open>Validity\<close>

datatype json_state = WantValue | WantValueOrEnd | WantName | WantNameOrEnd | WantColon | AfterValue

text \<open>
  The scanner of encoding/json over tokens: what may come next, and the open composites
  (\<^const>\<open>True\<close> for an object), at most ten thousand of them.
\<close>

fun json_value_start :: "jtoken \<Rightarrow> bool list \<Rightarrow> (json_state \<times> bool list) option" where
  "json_value_start TLBrace stack =
     (if 10000 \<le> length stack then None else Some (WantNameOrEnd, True # stack))"
| "json_value_start TLBrack stack =
     (if 10000 \<le> length stack then None else Some (WantValueOrEnd, False # stack))"
| "json_value_start t stack = (if scalar_token t = None then None else Some (AfterValue, stack))"

definition json_step :: "json_state \<Rightarrow> bool list \<Rightarrow> jtoken \<Rightarrow> (json_state \<times> bool list) option" where
  "json_step st stack t =
     (case st of
        WantValue \<Rightarrow> json_value_start t stack
      | WantValueOrEnd \<Rightarrow> if t = TRBrack then Some (AfterValue, tl stack) else json_value_start t stack
      | WantName \<Rightarrow> (case t of TStr _ \<Rightarrow> Some (WantColon, stack) | _ \<Rightarrow> None)
      | WantNameOrEnd \<Rightarrow>
          (case t of TStr _ \<Rightarrow> Some (WantColon, stack) | TRBrace \<Rightarrow> Some (AfterValue, tl stack) | _ \<Rightarrow> None)
      | WantColon \<Rightarrow> if t = TColon then Some (WantValue, stack) else None
      | AfterValue \<Rightarrow>
          (case stack of
             [] \<Rightarrow> None
           | True # r \<Rightarrow>
               if t = TComma then Some (WantName, stack) else if t = TRBrace then Some (AfterValue, r) else None
           | False # r \<Rightarrow>
               if t = TComma then Some (WantValue, stack) else if t = TRBrack then Some (AfterValue, r) else None))"

fun json_run :: "json_state \<Rightarrow> bool list \<Rightarrow> jtoken list \<Rightarrow> bool" where
  "json_run st stack [] \<longleftrightarrow> st = AfterValue \<and> stack = []"
| "json_run st stack (t # ts) =
     (case json_step st stack t of None \<Rightarrow> False | Some (st', stack') \<Rightarrow> json_run st' stack' ts)"

definition json_valid :: "string \<Rightarrow> bool" where
  "json_valid raw = (case lex raw of None \<Rightarrow> False | Some ts \<Rightarrow> json_run WantValue [] ts)"

section \<open>Compaction\<close>

text \<open>
  What \<^verbatim>\<open>json.Marshal\<close> writes for valid raw text: no white space outside strings, and inside them the
  characters HTML is sensitive to are escaped.
\<close>

fun compact :: "bool \<Rightarrow> string \<Rightarrow> string" where
  "compact inside [] = []"
| "compact inside (c # s) =
     (if inside then
        (if c = CHR 0x22 then c # compact False s
         else if c = CHR 0x5C then (case s of [] \<Rightarrow> [c] | x # t \<Rightarrow> c # x # compact True t)
         else if c = CHR ''<'' \<or> c = CHR ''>'' \<or> c = CHR ''&'' then unicode_escape (byte c) @ compact True s
         else if take 3 (c # s) = [CHR 0xE2, CHR 0x80, CHR 0xA8] then unicode_escape 0x2028 @ compact True (drop 2 s)
         else if take 3 (c # s) = [CHR 0xE2, CHR 0x80, CHR 0xA9] then unicode_escape 0x2029 @ compact True (drop 2 s)
         else c # compact True s)
      else if json_space c then compact False s
      else c # compact (c = CHR 0x22) s)"

section \<open>Members and elements\<close>

text \<open>A string literal after its opening quote: its text with the closing quote, and the rest.\<close>

fun string_span :: "string \<Rightarrow> string \<times> string" where
  "string_span [] = ([], [])"
| "string_span (c # s) =
     (if c = CHR 0x22 then ([c], s)
      else if c = CHR 0x5C then (case s of [] \<Rightarrow> ([c], []) | x # t \<Rightarrow> apfst (\<lambda>u. c # x # u) (string_span t))
      else apfst (\<lambda>u. c # u) (string_span s))"

lemma string_span_split: "string_span s = (u, r) \<Longrightarrow> s = u @ r"
  by (induction s arbitrary: u r rule: string_span.induct)
    (auto split: if_splits list.splits prod.splits simp: apfst_def map_prod_def)

text \<open>An object or array with \<open>d\<close> brackets open, up to the bracket that closes the last.\<close>

function (sequential) nested_span :: "nat \<Rightarrow> string \<Rightarrow> string \<times> string" where
  "nested_span 0 s = ([], s)"
| "nested_span (Suc d) [] = ([], [])"
| "nested_span (Suc d) (c # s) =
     (if c = CHR 0x22 then (case string_span s of (u, r) \<Rightarrow> apfst (\<lambda>v. c # u @ v) (nested_span (Suc d) r))
      else if c = CHR 0x7B \<or> c = CHR 0x5B then apfst (\<lambda>v. c # v) (nested_span (Suc (Suc d)) s)
      else if c = CHR 0x7D \<or> c = CHR 0x5D then apfst (\<lambda>v. c # v) (nested_span d s)
      else apfst (\<lambda>v. c # v) (nested_span (Suc d) s))"
  by pat_completeness auto
termination
  by (relation "measure (\<lambda>(d, s). length s)") (auto dest: string_span_split [OF sym])

lemma nested_span_code [code]:
  "nested_span d s =
     (if d = 0 then ([], s)
      else case s of
        [] \<Rightarrow> ([], [])
      | c # r \<Rightarrow>
          if c = CHR 0x22 then (case string_span r of (u, t) \<Rightarrow> apfst (\<lambda>v. c # u @ v) (nested_span d t))
          else apfst (\<lambda>v. c # v)
            (nested_span (if c = CHR 0x7B \<or> c = CHR 0x5B then Suc d else if c = CHR 0x7D \<or> c = CHR 0x5D then d - 1 else d) r))"
  by (cases "(d, s)" rule: nested_span.cases) (simp_all split: prod.split)

definition value_span :: "string \<Rightarrow> string \<times> string" where
  "value_span s =
     (case s of
        [] \<Rightarrow> ([], [])
      | c # r \<Rightarrow>
          if c = CHR 0x22 then apfst (\<lambda>u. c # u) (string_span r)
          else if c = CHR 0x7B \<or> c = CHR 0x5B then apfst (\<lambda>u. c # u) (nested_span 1 r)
          else
            let stop = (\<lambda>x. json_space x \<or> List.member (CHR '','' # [CHR 0x5D, CHR 0x7D]) x)
            in (takeWhile (\<lambda>x. \<not> stop x) s, dropWhile (\<lambda>x. \<not> stop x) s))"

lemma apfst_pair: "apfst f p = (u, r) \<longleftrightarrow> (\<exists>v. p = (v, r) \<and> u = f v)"
  by (cases p) auto

lemma nested_span_split: "nested_span d s = (u, r) \<Longrightarrow> s = u @ r"
proof (induction d s arbitrary: u r rule: nested_span.induct)
  case (3 d c s)
  show ?case
  proof (cases "c = CHR 0x22")
    case True
    obtain v w where vw: "string_span s = (v, w)" by (cases "string_span s")
    obtain x y where xy: "nested_span (Suc d) w = (x, y)" by (cases "nested_span (Suc d) w")
    from "3.IH"(1) [OF True vw [symmetric] xy] "3.prems" True vw xy string_span_split [OF vw]
    show ?thesis by simp
  next
    case False
    consider "c = CHR 0x7B \<or> c = CHR 0x5B"
      | "\<not> (c = CHR 0x7B \<or> c = CHR 0x5B)" "c = CHR 0x7D \<or> c = CHR 0x5D"
      | "\<not> (c = CHR 0x7B \<or> c = CHR 0x5B)" "\<not> (c = CHR 0x7D \<or> c = CHR 0x5D)" by blast
    then obtain e v where v: "nested_span e s = (v, r)" "u = c # v" and "e = Suc (Suc d) \<or> e = d \<or> e = Suc d"
      and "s = v @ r"
    proof cases
      case 1
      with "3.prems" False "3.IH"(2) [OF False 1] that show ?thesis by (simp add: apfst_pair) blast
    next
      case 2
      with "3.prems" False "3.IH"(3) [OF False 2] that show ?thesis by (simp add: apfst_pair) blast
    next
      case 3
      with "3.prems" False "3.IH"(4) [OF False 3] that show ?thesis by (simp add: apfst_pair) blast
    qed
    then show ?thesis by simp
  qed
qed simp_all

lemma value_span_split:
  assumes "value_span s = (u, r)"
  shows "s = u @ r"
proof (cases s)
  case Nil
  with assms show ?thesis by (simp add: value_span_def)
next
  case (Cons c t)
  consider "c = CHR 0x22" | "c \<noteq> CHR 0x22" "c = CHR 0x7B \<or> c = CHR 0x5B"
    | "c \<noteq> CHR 0x22" "\<not> (c = CHR 0x7B \<or> c = CHR 0x5B)" by blast
  then show ?thesis
  proof cases
    case 1
    with assms Cons obtain v where "string_span t = (v, r)" "u = c # v"
      by (auto simp: value_span_def apfst_pair)
    with Cons string_span_split show ?thesis by simp
  next
    case 2
    with assms Cons obtain v where "nested_span 1 t = (v, r)" "u = c # v"
      by (auto simp: value_span_def apfst_pair)
    with Cons nested_span_split show ?thesis by simp
  next
    case 3
    define stop where "stop = (\<lambda>x. json_space x \<or> List.member (CHR '','' # [CHR 0x5D, CHR 0x7D]) x)"
    from assms Cons 3 have "takeWhile (\<lambda>x. \<not> stop x) s = u" "dropWhile (\<lambda>x. \<not> stop x) s = r"
      unfolding value_span_def Let_def stop_def [symmetric] by (simp_all only: list.case if_False prod.inject)
    then show ?thesis by (metis takeWhile_dropWhile_id)
  qed
qed

abbreviation skip_space :: "string \<Rightarrow> string" where
  "skip_space \<equiv> dropWhile json_space"

lemma skip_space_shorter: "skip_space s = c # r \<Longrightarrow> length r < length s"
  by (metis length_Cons length_dropWhile_le less_eq_Suc_le)

lemma member_shorter:
  assumes "skip_space s = c # r" and "lex_string r = Some (key, t)"
    and "value_span (skip_space (drop (Suc 0) (skip_space t))) = (u, w)"
  shows "length w < length s"
proof -
  have "skip_space (drop 1 (skip_space t)) = u @ w" using assms(3) unfolding One_nat_def by (rule value_span_split)
  then have "length w \<le> length (drop 1 (skip_space t))"
    by (metis length_append length_dropWhile_le le_add2 order.trans)
  moreover have "length (drop 1 (skip_space t)) \<le> length t"
    by (metis length_drop length_dropWhile_le diff_le_self order.trans)
  moreover have "length t < length r" using assms(2) by (rule lex_string_shorter)
  ultimately show ?thesis using skip_space_shorter [OF assms(1)] by simp
qed

lemma member_round:
  "skip_space s = c # r \<Longrightarrow> lex_string r = Some p \<Longrightarrow> (key, t) = p \<Longrightarrow>
     (u, w) = value_span (skip_space (drop (Suc 0) (skip_space t))) \<Longrightarrow> length w < length s"
  by (rule member_shorter [where u = u]) auto

lemma element_shorter:
  assumes "skip_space s = c # r" and "value_span (c # r) = (u, w)" and "u \<noteq> []"
  shows "length w < length s"
proof -
  have "length (c # r) = length u + length w" using value_span_split [OF assms(2)] by simp
  then have "length w < length (c # r)" using assms(3) by simp
  then show ?thesis using skip_space_shorter [OF assms(1)] by simp
qed

text \<open>The members of an object after its opening bracket: decoded name and text of the value.\<close>

function (sequential) raw_members :: "string \<Rightarrow> (string \<times> string) list" where
  "raw_members s =
     (case skip_space s of
        [] \<Rightarrow> []
      | c # r \<Rightarrow>
          if c = CHR '','' then raw_members r
          else if c = CHR 0x22 then
            (case lex_string r of
               None \<Rightarrow> []
             | Some (key, t) \<Rightarrow>
                 (case value_span (skip_space (drop 1 (skip_space t))) of
                    (u, w) \<Rightarrow> (key, u) # raw_members w))
          else [])"
  by pat_completeness auto
termination
  by (relation "measure length")
    (simp_all add: skip_space_shorter member_round)

text \<open>The elements of an array after its opening bracket.\<close>

function (sequential) raw_elements :: "string \<Rightarrow> string list" where
  "raw_elements s =
     (case skip_space s of
        [] \<Rightarrow> []
      | c # r \<Rightarrow>
          if c = CHR '','' then raw_elements r
          else if c = CHR 0x5D then []
          else (case value_span (c # r) of (u, w) \<Rightarrow> if u = [] then [] else u # raw_elements w))"
  by pat_completeness auto
termination
  by (relation "measure length")
    (simp_all add: skip_space_shorter element_shorter [OF _ sym])

declare raw_members.simps [simp del] raw_elements.simps [simp del]

text \<open>The text of one string, quoted as \<^verbatim>\<open>json.Marshal\<close> writes it.\<close>

definition quoted :: "string \<Rightarrow> string" where
  "quoted s = CHR 0x22 # escape s @ [CHR 0x22]"

definition object_text :: "(string \<times> string) list \<Rightarrow> string" where
  "object_text entries =
     CHR 0x7B # join_with '','' (map (\<lambda>(k, v). quoted k @ CHR '':'' # v) entries) @ [CHR 0x7D]"

end
