(* ===== verification/Scim_Struct.thy ===== *)
theory Scim_Struct
  imports Scim_Raw
begin

text \<open>
  Decoding a JSON text into a Go struct, as \<^verbatim>\<open>encoding/json\<close> does it for the request types of
  patch.go, bulk.go and search.go after \<^verbatim>\<open>DisallowUnknownFields\<close>: a member goes to the field with
  its exact name, else to one whose name is equal under folding; a member that no field takes is an
  error; \<^verbatim>\<open>null\<close> leaves a string, a number or a struct as it is and empties a slice.

  A name that folds to a field twice decodes into the value of the first time. So a decoder
  takes the old value, and a slice is kept with the elements beyond its length, which a longer
  array finds again.
\<close>

type_synonym 'a slice = "'a list \<times> 'a list"

definition field_of :: "platform \<Rightarrow> string list \<Rightarrow> string \<Rightarrow> string option" where
  "field_of P names key =
     (if key \<in> set names then Some key else List.find (\<lambda>name. equal_fold P key name) names)"

definition decode_text :: "string \<Rightarrow> string \<Rightarrow> string option" where
  "decode_text old raw =
     (case raw of
        [] \<Rightarrow> None
      | c # r \<Rightarrow>
          if c = CHR 0x22 then map_option fst (lex_string r)
          else if c = CHR ''n'' then Some old else None)"

text \<open>\<^verbatim>\<open>strconv.ParseInt(s, 10, 64)\<close>, which is also \<^verbatim>\<open>strconv.Atoi\<close> on a 64-bit machine.\<close>

definition parse_int :: "string \<Rightarrow> int option" where
  "parse_int s =
     (let neg = (s \<noteq> [] \<and> hd s = CHR ''-'');
          ds = (if s \<noteq> [] \<and> is_sign (hd s) then tl s else s);
          n = (if neg then - int (read_nat ds) else int (read_nat ds))
      in if ds = [] \<or> \<not> list_all is_digit ds \<or> n < - (2 ^ 63) \<or> 2 ^ 63 \<le> n then None else Some n)"

definition decode_int :: "int \<Rightarrow> string \<Rightarrow> int option" where
  "decode_int old raw =
     (case raw of
        [] \<Rightarrow> None
      | c # r \<Rightarrow> if c = CHR ''n'' then Some old else parse_int raw)"

fun decode_elements :: "'a \<Rightarrow> ('a \<Rightarrow> string \<Rightarrow> 'a option) \<Rightarrow> 'a list \<Rightarrow> string list \<Rightarrow> 'a list option" where
  "decode_elements zero dec old [] = Some []"
| "decode_elements zero dec old (raw # raws) =
     Option.bind (dec (case old of [] \<Rightarrow> zero | x # _ \<Rightarrow> x) raw) (\<lambda>v.
       map_option (Cons v) (decode_elements zero dec (tl old) raws))"

definition decode_slice :: "'a \<Rightarrow> ('a \<Rightarrow> string \<Rightarrow> 'a option) \<Rightarrow> 'a slice \<Rightarrow> string \<Rightarrow> 'a slice option" where
  "decode_slice zero dec old raw =
     (case raw of
        [] \<Rightarrow> None
      | c # r \<Rightarrow>
          if c = CHR 0x5B then
            (let raws = raw_elements r; back = fst old @ snd old in
             map_option (\<lambda>vs. (vs, if raws = [] then [] else drop (length raws) back))
               (decode_elements zero dec back raws))
          else if c = CHR ''n'' then Some ([], []) else None)"

fun decode_members :: "platform \<Rightarrow> string list \<Rightarrow> (string \<Rightarrow> string \<Rightarrow> 's \<Rightarrow> 's option)
    \<Rightarrow> (string \<times> string) list \<Rightarrow> 's \<Rightarrow> 's option" where
  "decode_members P names assign [] s = Some s"
| "decode_members P names assign ((key, raw) # rest) s =
     Option.bind (field_of P names key) (\<lambda>name.
       Option.bind (assign name raw s) (decode_members P names assign rest))"

definition decode_struct :: "platform \<Rightarrow> string list \<Rightarrow> (string \<Rightarrow> string \<Rightarrow> 's \<Rightarrow> 's option)
    \<Rightarrow> 's \<Rightarrow> string \<Rightarrow> 's option" where
  "decode_struct P names assign s raw =
     (case raw of
        [] \<Rightarrow> None
      | c # r \<Rightarrow>
          if c = CHR 0x7B then decode_members P names assign (raw_members r) s
          else if c = CHR ''n'' then Some s else None)"

lemma decode_elements_length: "decode_elements zero dec old raws = Some vs \<Longrightarrow> length vs = length raws"
  by (induction zero dec old raws arbitrary: vs rule: decode_elements.induct) (auto simp: bind_eq_Some_conv)

lemma parse_int_bounds: "parse_int s = Some n \<Longrightarrow> - (2 ^ 63) \<le> n \<and> n < 2 ^ 63"
  by (auto simp: parse_int_def Let_def split: if_splits)

lemma field_of_in: "field_of P names key = Some name \<Longrightarrow> name \<in> set names \<and> equal_fold P key name"
  by (auto simp: field_of_def find_Some_iff split: if_splits)

lemma decode_members_invariant:
  assumes "decode_members P names assign ms s = Some t" and "I s"
    and "\<And>name raw u v. name \<in> set names \<Longrightarrow> I u \<Longrightarrow> assign name raw u = Some v \<Longrightarrow> I v"
  shows "I t"
  using assms(1, 2)
proof (induction ms arbitrary: s)
  case (Cons m ms)
  obtain key raw where m: "m = (key, raw)" by (cases m)
  from Cons.prems(1) obtain name u where n: "field_of P names key = Some name" and u: "assign name raw s = Some u"
    and t: "decode_members P names assign ms u = Some t" by (auto simp: m bind_eq_Some_conv)
  have "I u" using assms(3) [OF _ Cons.prems(2) u] field_of_in [OF n] by blast
  then show ?case by (rule Cons.IH [OF t])
qed simp

end
