(* ===== verification/Scim_Lexing.thy ===== *)
theory Scim_Lexing
  imports Scim_Codec
begin

text \<open>
  The lexical half of the round trip: an escaped string lexes back to itself, escaped text is
  valid UTF-8, and a number followed by a delimiter is lexed whole.
\<close>

section \<open>Induction over values\<close>

lemma json_induct [case_names JNull JBool JNum JStr JArr JObj]:
  assumes "P JNull" "\<And>b. P (JBool b)" "\<And>n. P (JNum n)" "\<And>s. P (JStr s)"
    and "\<And>xs. (\<And>x. x \<in> set xs \<Longrightarrow> P x) \<Longrightarrow> P (JArr xs)"
    and "\<And>m. (\<And>k v. (k, v) \<in> set m \<Longrightarrow> P v) \<Longrightarrow> P (JObj m)"
  shows "P v"
proof (induction v)
  case (JObj m)
  have "P v" if "(k, v) \<in> set m" for k v
    using JObj [OF that] by simp
  then show ?case by (rule assms(6))
qed (use assms in auto)

section \<open>Lexing what was rendered\<close>

lemma hex_value_digit: "n < 16 \<Longrightarrow> hex_value (hex_digit n) = Some n"
  by (auto simp: hex_value_def hex_digit_def in_range_def)

lemma hex4_escape:
  assumes "r < 65536"
  shows "hex4 (drop 2 (unicode_escape r) @ t) = Some r"
proof -
  have d: "r div 4096 < 16" using assms by (simp add: less_mult_imp_div_less)
  then have m: "r div 4096 mod 16 = r div 4096" by simp
  have "r = r div 16 * 16 + r mod 16" by simp
  moreover have "r div 16 = r div 256 * 16 + r div 16 mod 16"
    using div_mult_mod_eq [of "r div 16" 16] by (simp add: div_mult2_eq [symmetric])
  moreover have "r div 256 = r div 4096 * 16 + r div 256 mod 16"
    using div_mult_mod_eq [of "r div 256" 16] by (simp add: div_mult2_eq [symmetric])
  ultimately have "r div 4096 * 4096 + r div 256 mod 16 * 256 + r div 16 mod 16 * 16 + r mod 16 = r"
    by linarith
  then show ?thesis by (simp add: hex4_def unicode_escape_def hex_value_digit m d)
qed

lemma lex_string_unicode_escape:
  assumes "r < 65536" and "\<not> is_surrogate r"
  shows "lex_string (unicode_escape r @ t) = prepend (encode_rune r) (lex_string t)"
proof -
  have "hex4 (drop 2 (unicode_escape r) @ t) = Some r" using assms(1) by (rule hex4_escape)
  with assms(2) show ?thesis by (simp add: unicode_escape_def)
qed

lemma lex_string_plain:
  "byte c \<ge> 0x20 \<Longrightarrow> c \<noteq> CHR 0x22 \<Longrightarrow> c \<noteq> CHR 0x5C \<Longrightarrow>
    lex_string (c # t) = prepend [c] (lex_string t)"
  by simp

lemma prepend_append: "prepend (u @ v) r = prepend u (prepend v r)"
  by (cases r) (auto simp: prepend_def)

lemma prepend_Nil [simp]: "prepend [] r = r"
  by (cases r) (auto simp: prepend_def)

lemma lex_string_high:
  "\<forall>c \<in> set u. 0x80 \<le> byte c \<Longrightarrow> lex_string (u @ t) = prepend u (lex_string t)"
proof (induction u)
  case Nil
  then show ?case by simp
next
  case (Cons c u)
  then have "0x80 \<le> byte c" by simp
  then have "lex_string (c # u @ t) = prepend [c] (lex_string (u @ t))"
    by (intro lex_string_plain) auto
  with Cons show ?case by (simp add: prepend_append [of "[c]" u, simplified])
qed

lemma lex_string_short_escape:
  "simple_escape e = Some x \<Longrightarrow> e \<noteq> CHR ''u'' \<Longrightarrow>
    lex_string (CHR 0x5C # e # t) = prepend [x] (lex_string t)"
  by simp

lemma lex_string_escape_byte:
  assumes "byte c < 0x80"
  shows "lex_string (escape_byte c @ t) = prepend [c] (lex_string t)"
proof -
  have "encode_rune (byte c) = [c]" using assms by (simp add: encode_rune_def)
  moreover have "\<not> is_surrogate (byte c)" "byte c < 65536"
    using assms by (simp_all add: is_surrogate_def)
  ultimately have u: "lex_string (unicode_escape (byte c) @ t) = prepend [c] (lex_string t)"
    using lex_string_unicode_escape by simp
  define special where
    "special = [CHR 0x22, CHR 0x5C, CHR 0x08, CHR 0x0C, CHR 0x0A, CHR 0x0D, CHR 0x09]"
  show ?thesis
  proof (cases "c \<in> set special")
    case True
    then have "\<exists>e. escape_byte c = [CHR 0x5C, e] \<and> simple_escape e = Some c \<and> e \<noteq> CHR ''u''"
      by (auto simp: special_def escape_byte_def simple_escape_def)
    then show ?thesis using lex_string_short_escape by force
  next
    case False
    then have "escape_byte c =
        (if byte c < 0x20 \<or> c = CHR ''<'' \<or> c = CHR ''>'' \<or> c = CHR ''&'' then unicode_escape (byte c)
         else [c])"
      by (simp add: special_def escape_byte_def)
    moreover have "c \<noteq> CHR 0x22" "c \<noteq> CHR 0x5C" using False by (simp_all add: special_def)
    ultimately show ?thesis using u lex_string_plain [of c t] by (simp del: lex_string.simps)
  qed
qed

text \<open>The chunk a multi-byte character occupies: all its bytes are above ASCII.\<close>

lemma chunk_high:
  assumes "rune_width s = w" and "1 < w" and "c \<in> set (take w s)"
  shows "0x80 \<le> byte c"
proof (cases s)
  case (Cons a u)
  consider "u = []" | b where "u = [b]" | b c where "u = [b, c]" | b c d v where "u = b # c # d # v"
    by (metis list.exhaust)
  then show ?thesis
    using Cons assms by cases (auto simp: rune_width.simps in_range_def split: if_splits)
qed (use assms in simp)

lemma rune_width_take:
  assumes "rune_width s = w"
  shows "rune_width (take w s) = w"
proof (cases s)
  case (Cons a u)
  consider "u = []" | b where "u = [b]" | b c where "u = [b, c]" | b c d v where "u = b # c # d # v"
    by (metis list.exhaust)
  then show ?thesis
    using Cons assms by cases (auto simp: rune_width.simps split: if_splits)
qed (use assms in simp)


lemma lex_string_escape_chunk:
  assumes "rune_width s = w" and "1 < w"
  shows "lex_string (escape_chunk (take w s) @ t) = prepend (take w s) (lex_string t)"
proof -
  have "lex_string (unicode_escape 0x2028 @ t) = prepend [CHR 0xE2, CHR 0x80, CHR 0xA8] (lex_string t)"
    "lex_string (unicode_escape 0x2029 @ t) = prepend [CHR 0xE2, CHR 0x80, CHR 0xA9] (lex_string t)"
    by (simp_all add: lex_string_unicode_escape is_surrogate_def encode_rune_def char_of_def
        bit_iff_odd)
  moreover have "lex_string (take w s @ t) = prepend (take w s) (lex_string t)"
    using chunk_high [OF assms] by (intro lex_string_high) blast
  ultimately show ?thesis by (auto simp: escape_chunk_def)
qed

lemma high_width: "\<not> byte c < 0x80 \<Longrightarrow> rune_width (c # s) \<noteq> 1"
  by (auto simp: rune_width.simps split: list.splits)

lemma lex_string_escape:
  "valid_utf8 s \<Longrightarrow> lex_string (escape s @ CHR 0x22 # t) = Some (s, t)"
proof (induction s rule: escape.induct)
  case 1
  then show ?case by simp
next
  case (2 c s)
  let ?w = "rune_width (c # s)"
  show ?case
  proof (cases "byte c < 0x80")
    case True
    with 2 have "lex_string (escape s @ CHR 0x22 # t) = Some (s, t)" by simp
    with True show ?thesis
      by (simp add: Let_def lex_string_escape_byte prepend_def del: lex_string.simps)
  next
    case False
    with 2 have w: "1 < ?w" and v: "valid_utf8 (drop (?w - 1) s)"
      using high_width [of c s] by simp_all
    with 2 False have ih: "lex_string (escape (drop (?w - 1) s) @ CHR 0x22 # t) = Some (drop (?w - 1) s, t)"
      by simp
    have join: "take ?w (c # s) @ drop (?w - 1) s = c # s"
      using w append_take_drop_id [of ?w "c # s"] by (cases ?w) auto
    from w have "?w \<noteq> 0" by simp
    then have e: "escape (c # s) = escape_chunk (take ?w (c # s)) @ escape (drop (?w - 1) s)"
      by (simp only: escape.simps(2) Let_def False if_False)
    have "lex_string (escape (c # s) @ CHR 0x22 # t)
        = prepend (take ?w (c # s)) (Some (drop (?w - 1) s, t))"
      unfolding e append_assoc lex_string_escape_chunk [OF refl w] ih ..
    also have "\<dots> = Some (c # s, t)" by (simp only: prepend_def option.map apfst_conv join)
    finally show ?thesis .
  qed
qed

lemma hex_digit_ascii: "n < 16 \<Longrightarrow> byte (hex_digit n) < 0x80"
  by (simp add: hex_digit_def)

lemma unicode_escape_ascii: "ascii (unicode_escape r)"
  by (simp add: unicode_escape_def hex_digit_ascii)

lemma ascii_if: "(b \<Longrightarrow> ascii x) \<Longrightarrow> (\<not> b \<Longrightarrow> ascii y) \<Longrightarrow> ascii (if b then x else y)"
  by simp

lemma escape_byte_ascii: "byte c < 0x80 \<Longrightarrow> ascii (escape_byte c)"
  unfolding escape_byte_def
  by (intro ascii_if) (simp_all add: unicode_escape_ascii)

lemma valid_utf8_chunk:
  assumes "rune_width s = w" and "w \<noteq> 0" and "valid_utf8 t"
  shows "valid_utf8 (take w s @ t)"
proof (rule valid_utf8_append [OF _ assms(3)])
  obtain a u where s: "s = a # u" using assms by (cases s) auto
  have "rune_width (take w s) = w" using assms(1) by (rule rune_width_take)
  then show "valid_utf8 (take w s)" using assms(2) s by (cases w) auto
qed

lemma valid_utf8_escape: "valid_utf8 (escape s)"
proof (induction s rule: escape.induct)
  case (2 c s)
  let ?w = "rune_width (c # s)"
  show ?case
  proof (cases "byte c < 0x80 \<or> ?w = 0")
    case True
    with 2 show ?thesis
      by (auto simp: Let_def intro!: valid_utf8_append
          valid_utf8_ascii [OF escape_byte_ascii] valid_utf8_ascii [OF unicode_escape_ascii])
  next
    case False
    then have "valid_utf8 (escape_chunk (take ?w (c # s)) @ escape (drop (?w - 1) s))"
      using 2 valid_utf8_chunk [OF refl, of "c # s"]
      by (auto simp: escape_chunk_def intro!: valid_utf8_append valid_utf8_ascii [OF unicode_escape_ascii])
    with False show ?thesis by (simp add: Let_def del: take.simps)
  qed
qed simp

section \<open>Numbers followed by a delimiter\<close>

definition number_char :: "char \<Rightarrow> bool" where
  "number_char c \<longleftrightarrow> is_digit c \<or> is_sign c \<or> c = CHR ''.'' \<or> c = CHR ''e'' \<or> c = CHR ''E''"

definition delimited :: "string \<Rightarrow> bool" where
  "delimited t \<longleftrightarrow> t = [] \<or> \<not> number_char (hd t)"

lemma delimited_Cons [simp]: "delimited (c # t) \<longleftrightarrow> \<not> number_char c"
  and delimited_Nil [simp]: "delimited []"
  by (simp_all add: delimited_def)

lemma digits_delimited:
  assumes "delimited t"
  shows "takeWhile is_digit (s @ t) = takeWhile is_digit s"
    and "dropWhile is_digit (s @ t) = dropWhile is_digit s @ t"
  using assms by (induction s; cases t; auto simp: number_char_def)+

lemma lex_int_delimited:
  "lex_int s = Some (u, v) \<Longrightarrow> delimited t \<Longrightarrow> lex_int (s @ t) = Some (u, v @ t)"
  by (cases s) (auto simp: lex_int_def digits_delimited split: if_splits)

lemma lex_frac_delimited:
  "lex_frac s = Some (u, v) \<Longrightarrow> delimited t \<Longrightarrow> lex_frac (s @ t) = Some (u, v @ t)"
  by (cases s; cases t)
    (auto simp: lex_frac_def Let_def digits_delimited number_char_def split: if_splits)

lemma lex_exp_delimited:
  assumes "lex_exp s = Some (u, v)" and "delimited t"
  shows "lex_exp (s @ t) = Some (u, v @ t)"
proof (cases s)
  case Nil
  with assms show ?thesis by (cases t) (auto simp: lex_exp_def number_char_def)
next
  case (Cons c r)
  show ?thesis
    using assms Cons
    by (cases r; cases t)
      (auto simp: lex_exp_def Let_def digits_delimited number_char_def is_sign_def is_digit_def
        split: if_splits)
qed

lemma lex_sign_delimited:
  "lex_sign s = (u, v) \<Longrightarrow> s \<noteq> [] \<Longrightarrow> lex_sign (s @ t) = (u, v @ t)"
  by (cases s) (auto simp: lex_sign_def split: if_splits)

lemma lex_number_delimited:
  assumes "valid_number s" and "delimited t"
  shows "lex_number (s @ t) = Some (s, t)"
proof -
  from assms(1) have n: "lex_number s = Some (s, [])" by (simp add: valid_number_def)
  then have "s \<noteq> []" using lex_number_split by blast
  obtain sg s0 where sg: "lex_sign s = (sg, s0)" by fastforce
  with n obtain i s1 f s2 e where
    parts: "lex_int s0 = Some (i, s1)" "lex_frac s1 = Some (f, s2)" "lex_exp s2 = Some (e, [])"
    and s: "s = sg @ i @ f @ e"
    by (auto simp: lex_number_def bind_eq_Some_conv)
  show ?thesis
    using lex_sign_delimited [OF sg \<open>s \<noteq> []\<close>] s
      lex_int_delimited [OF parts(1) assms(2)] lex_frac_delimited [OF parts(2) assms(2)]
      lex_exp_delimited [OF parts(3) assms(2)]
    by (simp add: lex_number_def)
qed

lemma valid_number_head:
  assumes "valid_number s"
  obtains c r where "s = c # r" and "c = CHR ''-'' \<or> is_digit c"
proof (cases s)
  case Nil
  with assms show ?thesis by (simp add: valid_number_def lex_number_def lex_sign_def lex_int_def)
next
  case (Cons c r)
  with assms have "c = CHR ''-'' \<or> is_digit c"
    by (auto simp: valid_number_def lex_number_def lex_sign_def lex_int_def is_digit_def in_range_def
        split: if_splits)
  with Cons that show ?thesis by blast
qed

end
