(* ===== verification/Scim_Roundtrip.thy ===== *)
theory Scim_Roundtrip
  imports Scim_Lexing "HOL-Library.Multiset"
begin

text \<open>
  The round trip of Scim_Codec: rendering the tokens of an admissible value and decoding the
  text gives the value back with sorted names (\<open>decode_canonical\<close>), so cloning a stored document
  loses nothing.
\<close>

section \<open>Lexing a rendered token list\<close>

primrec token_ok :: "jtoken \<Rightarrow> bool" where
  "token_ok TLBrace = True"
| "token_ok TRBrace = True"
| "token_ok TLBrack = True"
| "token_ok TRBrack = True"
| "token_ok TComma = True"
| "token_ok TColon = True"
| "token_ok (TStr s) = valid_utf8 s"
| "token_ok (TNum s) = valid_number s"
| "token_ok TTrue = True"
| "token_ok TFalse = True"
| "token_ok TNull = True"

primrec is_number_token :: "jtoken \<Rightarrow> bool" where
  "is_number_token TLBrace = False"
| "is_number_token TRBrace = False"
| "is_number_token TLBrack = False"
| "is_number_token TRBrack = False"
| "is_number_token TComma = False"
| "is_number_token TColon = False"
| "is_number_token (TStr s) = False"
| "is_number_token (TNum s) = True"
| "is_number_token TTrue = False"
| "is_number_token TFalse = False"
| "is_number_token TNull = False"

definition delimiter :: "jtoken \<Rightarrow> bool" where
  "delimiter t \<longleftrightarrow> t = TComma \<or> t = TRBrace \<or> t = TRBrack"

text \<open>Every number is followed by a delimiter or ends the text.\<close>

fun separated :: "jtoken list \<Rightarrow> bool" where
  "separated [] = True"
| "separated [t] = True"
| "separated (t # u # ts) = ((is_number_token t \<longrightarrow> delimiter u) \<and> separated (u # ts))"

abbreviation text_of :: "jtoken list \<Rightarrow> string" where
  "text_of ts \<equiv> concat (map render ts)"

lemma separated_Cons: "separated (t # ts) \<Longrightarrow> separated ts"
  by (cases ts) auto

lemma digit_not_punctuation: "is_digit c \<Longrightarrow> punctuation c = None"
  by (auto simp: punctuation_def is_digit_def in_range_def)

lemma digit_plain: "is_digit c \<Longrightarrow> c \<noteq> CHR 0x22 \<and> \<not> json_space c"
  by (auto simp: is_digit_def in_range_def json_space_def)

lemma minus_plain: "punctuation (CHR ''-'') = None \<and> \<not> json_space (CHR ''-'')"
  by (simp add: punctuation_def json_space_def)

lemma lex_token_render:
  assumes "token_ok t" and "is_number_token t \<Longrightarrow> delimited s"
  shows "lex_token (render t @ s) = Some (t, s) \<and> (\<exists>c r. render t = c # r \<and> \<not> json_space c)"
proof (cases t)
  case (TNum n)
  with assms have v: "valid_number n" and d: "delimited s" by simp_all
  obtain c r where n: "n = c # r" and c: "c = CHR ''-'' \<or> is_digit c"
    using v by (rule valid_number_head)
  have "punctuation c = None \<and> c \<noteq> CHR 0x22 \<and> \<not> json_space c"
    using c digit_not_punctuation digit_plain minus_plain by auto
  with c show ?thesis
    using lex_number_delimited [OF v d] TNum n by (simp add: lex_token_def)
next
  case (TStr u)
  with assms have "lex_string (escape u @ CHR 0x22 # s) = Some (u, s)"
    by (simp add: lex_string_escape)
  then show ?thesis
    using TStr by (simp add: lex_token_def punctuation_def json_space_def)
qed (simp_all add: lex_token_def punctuation_def json_space_def literal_token_def is_digit_def in_range_def)

lemma lex_render:
  "list_all token_ok ts \<Longrightarrow> separated ts \<Longrightarrow> lex (text_of ts) = Some ts"
proof (induction ts)
  case Nil
  then show ?case by (simp add: lex.simps)
next
  case (Cons t ts)
  have "delimited (text_of ts)" if "is_number_token t"
    using that Cons.prems
    by (cases ts) (auto simp: delimiter_def number_char_def is_digit_def is_sign_def in_range_def)
  then have tok: "lex_token (render t @ text_of ts) = Some (t, text_of ts)"
    and head: "\<exists>c r. render t = c # r \<and> \<not> json_space c"
    using lex_token_render [of t] Cons.prems by auto
  have "lex (text_of ts) = Some ts"
    using Cons separated_Cons by auto
  with tok head show ?case by (subst lex.simps) (auto simp del: render.simps)
qed

lemma digit_ascii: "is_digit c \<Longrightarrow> byte c < 0x80"
  by (simp add: is_digit_def in_range_def)

lemma digits_ascii: "ascii (takeWhile is_digit s)"
  by (auto simp: ascii_def dest!: set_takeWhileD digit_ascii)

lemma lex_int_ascii: "lex_int s = Some (u, v) \<Longrightarrow> ascii u"
  by (cases s) (auto simp: lex_int_def digits_ascii digit_ascii simp del: takeWhile.simps split: if_splits)

lemma lex_frac_ascii: "lex_frac s = Some (u, v) \<Longrightarrow> ascii u"
  by (cases s) (auto simp: lex_frac_def Let_def digits_ascii split: if_splits)

lemma lex_exp_ascii: "lex_exp s = Some (u, v) \<Longrightarrow> ascii u"
  by (cases s) (auto simp: lex_exp_def Let_def digits_ascii digit_ascii is_sign_def split: list.splits if_splits)

lemma lex_sign_ascii: "lex_sign s = (u, v) \<Longrightarrow> ascii u"
  by (cases s) (auto simp: lex_sign_def split: if_splits)

lemma lex_number_ascii: "lex_number s = Some (u, v) \<Longrightarrow> ascii u"
  by (auto simp: lex_number_def bind_eq_Some_conv split: prod.splits
      dest: lex_int_ascii lex_frac_ascii lex_exp_ascii lex_sign_ascii)

lemma valid_utf8_render: "token_ok t \<Longrightarrow> valid_utf8 (render t)"
proof (cases t)
  case (TStr s)
  then show ?thesis
    by (simp add: valid_utf8_append valid_utf8_escape)
next
  case (TNum n)
  assume "token_ok t"
  with TNum have "valid_number n" by simp
  then have "ascii n" by (simp add: valid_number_def lex_number_ascii)
  with TNum show ?thesis by (simp add: valid_utf8_ascii)
qed simp_all

lemma valid_utf8_text: "list_all token_ok ts \<Longrightarrow> valid_utf8 (text_of ts)"
  by (induction ts) (auto intro: valid_utf8_append valid_utf8_render)


section \<open>Parsing the tokens of a value\<close>

text \<open>
  A decoded value: names are non-empty, valid, spelled canonically and differ by more than
  letter case; strings are valid UTF-8; numbers are JSON numbers.
\<close>

definition names_ok :: "platform \<Rightarrow> string list \<Rightarrow> bool" where
  "names_ok P ks \<longleftrightarrow>
     distinct (map (to_lower P) ks)
     \<and> list_all (\<lambda>k. k \<noteq> [] \<and> valid_utf8 k \<and> admitted_key (CoreKeyCases P) (to_lower P k) k = k) ks"

primrec decoded_ok :: "platform \<Rightarrow> json \<Rightarrow> bool" where
  "decoded_ok P JNull = True"
| "decoded_ok P (JBool b) = True"
| "decoded_ok P (JNum n) = valid_number n"
| "decoded_ok P (JStr s) = valid_utf8 s"
| "decoded_ok P (JArr xs) = list_all id (map (decoded_ok P) xs)"
| "decoded_ok P (JObj m) = (names_ok P (keys m) \<and> list_all snd (map (map_prod id (decoded_ok P)) m))"

lemma decoded_ok_Obj [simp]:
  "decoded_ok P (JObj m) \<longleftrightarrow> names_ok P (keys m) \<and> (\<forall>(k, v) \<in> set m. decoded_ok P v)"
  by (auto simp: list_all_iff)

lemma decoded_ok_Arr [simp]: "decoded_ok P (JArr xs) \<longleftrightarrow> (\<forall>x \<in> set xs. decoded_ok P x)"
  by (auto simp: list_all_iff)

declare decoded_ok.simps(5,6) [simp del]

lemma height_le:
  "(k, v) \<in> set m \<Longrightarrow> Suc (height v) \<le> height (JObj m)"
  "x \<in> set xs \<Longrightarrow> Suc (height x) \<le> height (JArr xs)"
proof -
  show "(k, v) \<in> set m \<Longrightarrow> Suc (height v) \<le> height (JObj m)"
    by (induction m) (auto simp: le_max_iff_disj)
  show "x \<in> set xs \<Longrightarrow> Suc (height x) \<le> height (JArr xs)"
    by (induction xs) (auto simp: le_max_iff_disj)
qed

lemma nodes_pos [simp]: "0 < nodes v"
  by (cases v) auto

definition member_tokens :: "bool \<Rightarrow> document \<Rightarrow> jtoken list" where
  "member_tokens first m =
     (let ms = map (\<lambda>(k, v). TStr k # TColon # tokens_of v) m
      in if first then comma_join ms else concat (map (\<lambda>y. TComma # y) ms))"

definition element_tokens :: "bool \<Rightarrow> json list \<Rightarrow> jtoken list" where
  "element_tokens first xs =
     (let ms = map tokens_of xs in if first then comma_join ms else concat (map (\<lambda>y. TComma # y) ms))"

lemma member_tokens_Cons:
  "member_tokens first ((k, v) # m) =
     (if first then [] else [TComma]) @ TStr k # TColon # tokens_of v @ member_tokens False m"
  by (simp add: member_tokens_def Let_def)

lemma element_tokens_Cons:
  "element_tokens first (x # xs) =
     (if first then [] else [TComma]) @ tokens_of x @ element_tokens False xs"
  by (simp add: element_tokens_def Let_def)

lemma tokens_Nil [simp]: "member_tokens first [] = []" "element_tokens first [] = []"
  by (simp_all add: member_tokens_def element_tokens_def)

lemma tokens_of_Obj: "tokens_of (JObj m) = TLBrace # member_tokens True m @ [TRBrace]"
  by (simp add: member_tokens_def comp_def case_prod_unfold)

lemma tokens_of_Arr: "tokens_of (JArr xs) = TLBrack # element_tokens True xs @ [TRBrack]"
  by (simp add: element_tokens_def)

lemma tokens_of_head: "\<exists>t ts. tokens_of v = t # ts \<and> t \<noteq> TRBrack \<and> t \<noteq> TRBrace \<and> t \<noteq> TComma"
  by (cases v) (auto simp: tokens_of_Obj tokens_of_Arr simp del: tokens_of.simps(5,6))

definition parses :: "platform \<Rightarrow> json \<Rightarrow> bool" where
  "parses P v \<longleftrightarrow>
     (\<forall>fuel depth n r. decoded_ok P v \<longrightarrow> depth + height v \<le> maximumJSONDepth
        \<longrightarrow> n + nodes v \<le> maximumJSONNodes \<longrightarrow> 2 * length (tokens_of v @ r) < fuel
        \<longrightarrow> parse_value P fuel depth n (tokens_of v @ r) = Some (v, n + nodes v, r))"

lemma parsesD:
  "parses P v \<Longrightarrow> decoded_ok P v \<Longrightarrow> depth + height v \<le> maximumJSONDepth \<Longrightarrow>
    n + nodes v \<le> maximumJSONNodes \<Longrightarrow> 2 * length (tokens_of v @ r) < fuel \<Longrightarrow>
    parse_value P fuel depth n (tokens_of v @ r) = Some (v, n + nodes v, r)"
  by (simp add: parses_def)

lemma parse_elements_tokens:
  assumes "\<And>x. x \<in> set xs \<Longrightarrow> parses P x \<and> decoded_ok P x \<and> Suc (depth + height x) \<le> maximumJSONDepth"
    and "n + sum_list (map nodes xs) \<le> maximumJSONNodes"
    and "Suc (2 * length (element_tokens first xs @ TRBrack # r)) < fuel"
  shows "parse_elements P fuel depth first n (element_tokens first xs @ TRBrack # r)
         = Some (xs, n + sum_list (map nodes xs), r)"
  using assms
proof (induction xs arbitrary: first n fuel)
  case Nil
  then show ?case by (cases fuel) auto
next
  case (Cons x xs)
  obtain f where f: "fuel = Suc f" using Cons.prems(3) by (cases fuel) auto
  let ?rest = "element_tokens False xs @ TRBrack # r"
  obtain t ts where t: "tokens_of x = t # ts" "t \<noteq> TRBrack"
    using tokens_of_head [of x] by blast
  have "parses P x" "decoded_ok P x" "Suc depth + height x \<le> maximumJSONDepth"
    using Cons.prems(1) by auto
  then have v: "parse_value P f (Suc depth) n (tokens_of x @ ?rest) = Some (x, n + nodes x, ?rest)"
    by (rule parsesD) (use Cons.prems f in \<open>auto simp: element_tokens_Cons split: if_splits\<close>)
  have rest: "parse_elements P f depth False (n + nodes x) ?rest
      = Some (xs, n + nodes x + sum_list (map nodes xs), r)"
    by (rule Cons.IH) (use Cons.prems f t in \<open>auto simp: element_tokens_Cons split: if_splits\<close>)
  show ?case
    using v rest t by (simp add: f element_tokens_Cons after_comma_def add.assoc)
qed

lemma parse_members_tokens:
  assumes "\<And>k v. (k, v) \<in> set m \<Longrightarrow>
      parses P v \<and> decoded_ok P v \<and> Suc (depth + height v) \<le> maximumJSONDepth"
    and "n + sum_list (map (nodes \<circ> snd) m) \<le> maximumJSONNodes"
    and "Suc (2 * length (member_tokens first m @ TRBrace # r)) < fuel"
    and "names_ok P (keys acc @ keys m)" and "set seen = set (map (to_lower P) (keys acc))"
  shows "parse_members P fuel depth first seen acc n (member_tokens first m @ TRBrace # r)
         = Some (acc @ m, n + sum_list (map (nodes \<circ> snd) m), r)"
  using assms
proof (induction m arbitrary: first n fuel acc seen)
  case Nil
  then show ?case by (cases fuel) auto
next
  case (Cons km m)
  obtain k v where km: "km = (k, v)" by fastforce
  obtain f where f: "fuel = Suc f" using Cons.prems(3) by (cases fuel) auto
  let ?rest = "member_tokens False m @ TRBrace # r"
  let ?folded = "to_lower P k"
  have "parses P v" "decoded_ok P v" "Suc depth + height v \<le> maximumJSONDepth"
    using Cons.prems(1) [of k v] km by auto
  then have v: "parse_value P f (Suc depth) n (tokens_of v @ ?rest) = Some (v, n + nodes v, ?rest)"
    by (rule parsesD) (use Cons.prems f km in \<open>auto simp: member_tokens_Cons split: if_splits\<close>)
  have rest: "parse_members P f depth False (?folded # seen) (acc @ [(k, v)]) (n + nodes v) ?rest
      = Some ((acc @ [(k, v)]) @ m, n + nodes v + sum_list (map (nodes \<circ> snd) m), r)"
    by (rule Cons.IH)
      (use Cons.prems f km in \<open>auto simp: member_tokens_Cons names_ok_def split: if_splits\<close>)
  have k: "k \<noteq> []" "valid_utf8 k" "?folded \<notin> set seen"
    "admitted_key (CoreKeyCases P) ?folded k = k" "k \<notin> set (keys acc)"
    using Cons.prems(4,5) km by (auto simp: names_ok_def)
  show ?case
    using v rest k
    by (simp add: f km member_tokens_Cons member_name_def after_comma_def update_fresh Let_def add.assoc comp_def)
qed

lemma valid_number_nonempty: "valid_number n \<Longrightarrow> n \<noteq> []"
  using valid_number_head by blast

lemma parses_all: "parses P v"
proof (induction v rule: json_induct)
  case (JArr xs)
  show ?case
    unfolding parses_def
  proof (intro allI impI)
    fix fuel depth n r
    assume ok: "decoded_ok P (JArr xs)" and d: "depth + height (JArr xs) \<le> maximumJSONDepth"
      and n: "n + nodes (JArr xs) \<le> maximumJSONNodes"
      and fuel: "2 * length (tokens_of (JArr xs) @ r) < fuel"
    obtain f where f: "fuel = Suc f" using fuel by (cases fuel) auto
    have "parse_elements P f depth True (Suc n) (element_tokens True xs @ TRBrack # r)
        = Some (xs, Suc n + sum_list (map nodes xs), r)"
    proof (rule parse_elements_tokens)
      fix x assume x: "x \<in> set xs"
      then show "parses P x \<and> decoded_ok P x \<and> Suc (depth + height x) \<le> maximumJSONDepth"
        using JArr ok d height_le(2) [OF x] by auto
    qed (use n fuel f in \<open>auto simp: tokens_of_Arr simp del: tokens_of.simps\<close>)
    then show "parse_value P fuel depth n (tokens_of (JArr xs) @ r) = Some (JArr xs, n + nodes (JArr xs), r)"
      using d n by (simp add: f tokens_of_Arr del: tokens_of.simps height.simps)
  qed
next
  case (JObj m)
  show ?case
    unfolding parses_def
  proof (intro allI impI)
    fix fuel depth n r
    assume ok: "decoded_ok P (JObj m)" and d: "depth + height (JObj m) \<le> maximumJSONDepth"
      and n: "n + nodes (JObj m) \<le> maximumJSONNodes"
      and fuel: "2 * length (tokens_of (JObj m) @ r) < fuel"
    obtain f where f: "fuel = Suc f" using fuel by (cases fuel) auto
    have nd: "nodes (JObj m) = Suc (sum_list (map (nodes \<circ> snd) m))"
      by (simp add: comp_def)
    have "parse_members P f depth True [] [] (Suc n) (member_tokens True m @ TRBrace # r)
        = Some ([] @ m, Suc n + sum_list (map (nodes \<circ> snd) m), r)"
    proof (rule parse_members_tokens)
      fix k v assume kv: "(k, v) \<in> set m"
      then show "parses P v \<and> decoded_ok P v \<and> Suc (depth + height v) \<le> maximumJSONDepth"
        using JObj ok d height_le(1) [OF kv] by auto
    qed (use ok n fuel f nd in \<open>auto simp: tokens_of_Obj simp del: tokens_of.simps nodes.simps\<close>)
    then show "parse_value P fuel depth n (tokens_of (JObj m) @ r) = Some (JObj m, n + nodes (JObj m), r)"
      using d n nd by (simp add: f tokens_of_Obj del: tokens_of.simps height.simps nodes.simps)
  qed
qed (auto simp: parses_def scalar_token_def number_text_def maximumJSONDepth_def maximumJSONNodes_def
      gr0_conv_Suc dest: valid_number_nonempty elim!: less_natE)


section \<open>The rendered text of a value\<close>

definition closes :: "jtoken list \<Rightarrow> bool" where
  "closes r \<longleftrightarrow> r = [] \<or> delimiter (hd r)"

lemma separated_other: "\<not> is_number_token t \<Longrightarrow> separated (t # r) = separated r"
  by (cases r) auto

lemma separated_number: "closes r \<Longrightarrow> separated r \<Longrightarrow> separated (TNum s # r)"
  by (cases r) (auto simp: closes_def)

lemma separated_tokens: "separated r \<Longrightarrow> closes r \<Longrightarrow> separated (tokens_of v @ r)"
proof (induction v arbitrary: r rule: json_induct)
  case (JArr xs)
  have "separated (element_tokens first xs @ TRBrack # r)" for first
    using JArr
  proof (induction xs arbitrary: first)
    case Nil
    then show ?case by (simp add: separated_other)
  next
    case (Cons x xs)
    have rest: "separated (element_tokens False xs @ TRBrack # r)" using Cons by simp
    moreover have "closes (element_tokens False xs @ TRBrack # r)"
      by (cases xs) (auto simp: closes_def delimiter_def element_tokens_Cons)
    ultimately show ?case
      using Cons.prems(1) [of x] by (auto simp: element_tokens_Cons separated_other)
  qed
  then show ?case by (simp add: tokens_of_Arr separated_other del: tokens_of.simps)
next
  case (JObj m)
  have "separated (member_tokens first m @ TRBrace # r)" for first
    using JObj
  proof (induction m arbitrary: first)
    case Nil
    then show ?case by (simp add: separated_other)
  next
    case (Cons km m)
    obtain k v where km: "km = (k, v)" by fastforce
    have rest: "separated (member_tokens False m @ TRBrace # r)"
      by (rule Cons.IH) (use Cons.prems in auto)
    moreover have "closes (member_tokens False m @ TRBrace # r)"
      by (cases m) (auto simp: closes_def delimiter_def member_tokens_Cons)
    ultimately show ?case
      using Cons.prems(1) [of k v] km by (auto simp: member_tokens_Cons separated_other)
  qed
  then show ?case by (simp add: tokens_of_Obj separated_other del: tokens_of.simps)
qed (auto simp: separated_other separated_number)

lemma tokens_ok: "decoded_ok P v \<Longrightarrow> list_all token_ok (tokens_of v)"
proof (induction v rule: json_induct)
  case (JArr xs)
  then have "list_all token_ok (element_tokens first xs)" for first
    by (induction xs arbitrary: first) (auto simp: element_tokens_Cons)
  then show ?case by (simp add: tokens_of_Arr del: tokens_of.simps)
next
  case (JObj m)
  then have "\<forall>(k, v) \<in> set m. valid_utf8 k \<and> list_all token_ok (tokens_of v)"
    by (auto simp: names_ok_def list_all_iff)
  then have "list_all token_ok (member_tokens first m)" for first
    by (induction m arbitrary: first) (auto simp: member_tokens_Cons)
  then show ?case by (simp add: tokens_of_Obj del: tokens_of.simps)
qed (auto simp: number_text_def dest: valid_number_nonempty)

text \<open>Sorting the entries of objects changes neither admissibility nor the bounds.\<close>

lemma foldr_max_set:
  fixes xs ys :: "nat list"
  assumes "set xs = set ys"
  shows "foldr max xs 0 = foldr max ys 0"
proof -
  have le: "foldr max zs 0 \<le> n \<longleftrightarrow> (\<forall>z \<in> set zs. z \<le> n)" for zs :: "nat list" and n
    by (induction zs) auto
  show ?thesis using assms by (metis le order.antisym order.refl)
qed

lemma canon_Obj: "canon (JObj m) = JObj (sort_key fst (map (\<lambda>(k, v). (k, canon v)) m))"
  by (simp add: map_prod_def)

lemma sum_list_sort_key: "sum_list (map f (sort_key g xs)) = sum_list (map (f :: _ \<Rightarrow> nat) xs)"
  by (metis mset_map mset_sort sum_mset_sum_list)

lemma nodes_canon [simp]: "nodes (canon v) = nodes v"
proof (induction v rule: json_induct)
  case (JObj m)
  then show ?case
    by (auto simp: sum_list_sort_key comp_def intro!: arg_cong [where f = sum_list] map_cong)
qed (auto simp: comp_def cong: map_cong)

lemma height_canon [simp]: "height (canon v) = height v"
proof (induction v rule: json_induct)
  case (JObj m)
  then have "(\<lambda>p. Suc (height (snd p))) ` set (map (map_prod id canon) m)
      = (\<lambda>p. Suc (height (snd p))) ` set m"
    by (force simp: image_iff)
  then show ?case
    by (auto simp: comp_def image_image simp flip: image_comp intro!: foldr_max_set)
qed (auto simp: comp_def cong: map_cong)

lemma decoded_ok_canon: "decoded_ok P v \<Longrightarrow> decoded_ok P (canon v)"
proof (induction v rule: json_induct)
  case (JObj m)
  let ?m = "map (\<lambda>(k, v). (k, canon v)) m"
  have perm: "mset (map f (map fst (sort_key fst ?m))) = mset (map f (keys m))" for f :: "string \<Rightarrow> 'b"
    by (simp add: comp_def case_prod_unfold image_mset.compositionality)
  have "distinct (map (to_lower P) (keys (sort_key fst ?m)))"
    using JObj.prems perm [of "to_lower P"] mset_eq_imp_distinct_iff by (fastforce simp: names_ok_def)
  moreover have "set (keys (sort_key fst ?m)) = set (keys m)" by force
  ultimately have "names_ok P (keys (sort_key fst ?m))"
    using JObj.prems by (auto simp: names_ok_def list_all_iff)
  moreover have "\<forall>(k, v) \<in> set (sort_key fst ?m). decoded_ok P v" using JObj by auto
  ultimately show ?case by (simp only: canon_Obj decoded_ok_Obj)
qed auto


section \<open>The round trip\<close>

lemma keys_nonempty_text: "concat (map render (tokens_of (JObj m))) \<noteq> []"
  by (simp add: tokens_of_Obj del: tokens_of.simps)

lemma decoded_numbers_ok: "decoded_ok P v \<Longrightarrow> numbers_ok v"
  by (induction v rule: json_induct)
    (fastforce simp: list_all_iff number_text_def dest: valid_number_nonempty)+

text \<open>
  Decoding the canonical encoding of an admissible document gives the document back, with its
  names sorted.
\<close>

lemma decode_canonical:
  assumes ok: "decoded_ok P (JObj m)" and "height (JObj m) \<le> maximumJSONDepth"
    and "nodes (JObj m) \<le> maximumJSONNodes" and enc: "canonicalDocument m = Inr raw"
    and c: "canon (JObj m) = JObj m'"
  shows "DecodeDocument P raw = Inr m'"
proof -
  let ?v = "canon (JObj m)"
  let ?ts = "tokens_of ?v"
  from enc have raw: "raw = text_of ?ts" and size: "raw \<noteq> []" "length raw \<le> MaximumResourceBytes"
    by (auto simp: canonicalDocument_def marshal_def split: if_splits sum.splits)
  have dok: "decoded_ok P ?v" using ok by (rule decoded_ok_canon)
  then have toks: "list_all token_ok ?ts" by (rule tokens_ok)
  have "separated (?ts @ [])" by (rule separated_tokens) (simp_all add: closes_def)
  then have "separated ?ts" by (simp only: append_Nil2)
  then have "lex raw = Some ?ts" unfolding raw by (rule lex_render [OF toks])
  moreover have "valid_utf8 raw" unfolding raw by (rule valid_utf8_text [OF toks])
  moreover have "parse_value P (Suc (2 * length ?ts)) 0 0 (?ts @ []) = Some (?v, 0 + nodes ?v, [])"
    by (rule parsesD [OF parses_all dok])
      (use assms(2,3) in \<open>simp_all del: nodes.simps height.simps canon.simps\<close>)
  ultimately show ?thesis
    using size c
    by (simp add: DecodeDocument_def del: nodes.simps canon.simps tokens_of.simps parse_value.simps)
qed

lemma canon_Obj_shape: "\<exists>m'. canon (JObj m) = JObj m'"
  by simp

end
