(* ===== verification/Scim_Tokens.thy ===== *)
theory Scim_Tokens
  imports Scim_Roundtrip
begin

text \<open>
  Lexing keeps validity: the tokens of a valid UTF-8 text carry valid strings and well-formed
  numbers, escapes included.
\<close>

section \<open>Lexing valid text\<close>

lemma valid_utf8_drop_ascii: "ascii u \<Longrightarrow> valid_utf8 (u @ v) \<Longrightarrow> valid_utf8 v"
  by (induction u) auto

lemma byte_char_of_range: "n < 256 \<Longrightarrow> in_range lo hi (char_of n) \<longleftrightarrow> lo \<le> n \<and> n \<le> hi"
  by (simp add: in_range_def)

lemma encode_rune_width:
  "rune_width (encode_rune r) = length (encode_rune r) \<and> encode_rune r \<noteq> []"
proof -
  have m: "r mod 64 < 64" "r div 64 mod 64 < 64" "r div 4096 mod 64 < 64" by simp_all
  have q64: "r div 64 = r div 4096 * 64 + r div 64 mod 64"
    using div_mult_mod_eq [of "r div 64" 64] by (simp add: div_mult2_eq [symmetric])
  have q4096: "r div 4096 = r div 262144 * 64 + r div 4096 mod 64"
    using div_mult_mod_eq [of "r div 4096" 64] by (simp add: div_mult2_eq [symmetric])
  consider "r < 0x80" | "0x80 \<le> r" "r < 0x800" | "0x10FFFF < r \<or> (0xD800 \<le> r \<and> r \<le> 0xDFFF)"
    | "0x800 \<le> r" "r < 0x10000" "\<not> (0xD800 \<le> r \<and> r \<le> 0xDFFF)" | "0x10000 \<le> r" "r \<le> 0x10FFFF"
    by linarith
  then show ?thesis
  proof cases
    case 1
    then show ?thesis by (simp add: encode_rune_def)
  next
    case 2
    then have "2 \<le> r div 64" "r div 64 < 32" by (simp_all add: less_mult_imp_div_less)
    then show ?thesis
      using 2 m by (simp add: encode_rune_def rune_width.simps byte_char_of_range)
  next
    case 3
    then show ?thesis by (auto simp: encode_rune_def rune_width.simps in_range_def)
  next
    case 4
    then have q: "r div 4096 < 16" by (simp add: less_mult_imp_div_less)
    have lo: "32 \<le> r div 64 mod 64" if "r div 4096 = 0"
      using div_le_mono [OF 4(1), of 64] q64 that by simp
    have hi: "r div 64 mod 64 < 32" if "r div 4096 = 13"
    proof -
      have "r < 0xD800" using that 4(3) by auto
      then have "r div 64 < 864" by (simp add: less_mult_imp_div_less)
      then show ?thesis using q64 that by simp
    qed
    have small: "r mod 64 \<le> 63" "r div 64 mod 64 \<le> 63" "r div 4096 = 0 \<Longrightarrow> r div 64 \<le> 63"
      using m q64 by linarith+
    show ?thesis
      using 4 m q lo hi small
      by (auto simp: encode_rune_def rune_width.simps byte_char_of_range less_Suc_eq_le)
  next
    case 5
    then have q: "r div 262144 < 5" by (simp add: less_mult_imp_div_less)
    have lo: "16 \<le> r div 4096 mod 64" if "r div 262144 = 0"
      using div_le_mono [OF 5(1), of 4096] q4096 that by simp
    have hi: "r div 4096 mod 64 < 16" if "r div 262144 = 4"
      using div_le_mono [OF 5(2), of 4096] q4096 that by simp
    have small: "r mod 64 \<le> 63" "r div 64 mod 64 \<le> 63" "r div 4096 mod 64 \<le> 63"
      "r div 262144 = 0 \<Longrightarrow> r div 4096 \<le> 63"
      using m q4096 by linarith+
    show ?thesis
      using 5 m q lo hi small
      by (auto simp: encode_rune_def rune_width.simps byte_char_of_range less_Suc_eq_le)
  qed
qed

lemma valid_utf8_encode: "valid_utf8 (encode_rune r)"
proof -
  obtain a u where a: "encode_rune r = a # u" using encode_rune_width by (cases "encode_rune r") auto
  then have "rune_width (a # u) = length (a # u)" using encode_rune_width [of r] by simp
  then show ?thesis by (simp add: a)
qed

lemma hex_value_ascii: "hex_value c = Some n \<Longrightarrow> byte c < 0x80"
  by (auto simp: hex_value_def in_range_def split: if_splits)

lemma hex4_prefix: "hex4 s = Some n \<Longrightarrow> ascii (take 4 s) \<and> 4 \<le> length s"
  by (auto simp: hex4_def split: list.splits option.splits dest: hex_value_ascii)

lemma surrogate_prefix:
  assumes "surrogate_pair r s = Some n"
  shows "ascii (take 6 s) \<and> 6 \<le> length s"
proof -
  obtain b u h where s: "s = b # u # h"
    using assms by (auto simp: surrogate_pair_def split: list.splits)
  with assms have "b = CHR 0x5C" "u = CHR ''u''" "hex4 h \<noteq> None"
    by (auto simp: surrogate_pair_def split: if_splits option.splits)
  with s show ?thesis by (auto dest: hex4_prefix)
qed

lemma valid_utf8_drop: "valid_utf8 s \<Longrightarrow> ascii (take n s) \<Longrightarrow> valid_utf8 (drop n s)"
  using valid_utf8_drop_ascii [of "take n s" "drop n s"] by simp

lemma simple_escape_ascii: "simple_escape e = Some x \<Longrightarrow> byte e < 0x80 \<and> byte x < 0x80"
  by (auto simp: simple_escape_def split: if_splits)

lemma lex_string_valid:
  "valid_utf8 s \<Longrightarrow> lex_string s = Some (t, r) \<Longrightarrow> valid_utf8 t \<and> valid_utf8 r"
proof (induction "length s" arbitrary: s t r rule: less_induct)
  case less
  have go_on: "valid_utf8 t \<and> valid_utf8 r"
    if "lex_string s = prepend x (lex_string v)" "valid_utf8 x" "valid_utf8 v" "length v < length s"
    for x v
  proof -
    have "prepend x (lex_string v) = Some (t, r)" using less.prems(2) that(1) by simp
    then obtain z where "lex_string v = Some (z, r)" "t = x @ z" by (auto simp: prepend_Some)
    then show ?thesis using less.hyps [OF that(4,3)] that(2) valid_utf8_append by blast
  qed
  obtain c u where s: "s = c # u" using less.prems(2) by (cases s) auto
  show ?case
  proof (cases "byte c < 0x80")
    case False
    let ?w = "rune_width s"
    from False less.prems(1) have w: "1 < ?w" and v: "valid_utf8 (drop (?w - 1) u)"
      using high_width [of c u] s by auto
    have join: "s = take ?w s @ drop (?w - 1) u"
      using w s append_take_drop_id [of ?w s] by (cases ?w) auto
    have "\<forall>d \<in> set (take ?w s). 0x80 \<le> byte d" using chunk_high [OF refl w] by blast
    then have "lex_string s = prepend (take ?w s) (lex_string (drop (?w - 1) u))"
      using lex_string_high join by metis
    moreover have "valid_utf8 (take ?w s)" using valid_utf8_chunk [OF refl, of s "[]"] w by simp
    ultimately show ?thesis using go_on v s by simp
  next
    case True
    then have u: "valid_utf8 u" using less.prems(1) s by simp
    consider (quote) "c = CHR 0x22" | (slash) "c = CHR 0x5C" | (other) "c \<noteq> CHR 0x22" "c \<noteq> CHR 0x5C"
      by blast
    then show ?thesis
    proof cases
      case quote
      with u s less.prems(2) show ?thesis by simp
    next
      case other
      with less.prems(2) s have "lex_string s = prepend [c] (lex_string u)" by (simp split: if_splits)
      then show ?thesis using go_on u True s by (simp add: valid_utf8_ascii)
    next
      case slash
      with less.prems(2) s obtain e v where v: "u = e # v" by (cases u) auto
      show ?thesis
      proof (cases "e = CHR ''u''")
        case False
        with less.prems(2) s slash v obtain x where x: "simple_escape e = Some x"
          by (auto split: option.splits)
        with False slash s v have "lex_string s = prepend [x] (lex_string v)"
          by (simp add: lex_string_short_escape del: lex_string.simps)
        then show ?thesis using go_on u s v simple_escape_ascii [OF x] by (simp add: valid_utf8_ascii)
      next
        case esc: True
        with less.prems(2) s slash v obtain n where n: "hex4 v = Some n"
          by (auto split: option.splits)
        have vv: "valid_utf8 v" using u v esc by simp
        have d4: "valid_utf8 (drop 4 v)" and l4: "4 \<le> length v"
          using hex4_prefix [OF n] valid_utf8_drop [OF vv] by auto
        show ?thesis
        proof (cases "if is_surrogate n then surrogate_pair n (drop 4 v) else None")
          case None
          then have "\<exists>x. lex_string s = prepend (encode_rune x) (lex_string (drop 4 v))"
            using esc s slash v n by (auto split: if_splits)
          then show ?thesis using go_on d4 valid_utf8_encode s v by auto
        next
          case (Some full)
          then have pair: "is_surrogate n" "surrogate_pair n (drop 4 v) = Some full"
            by (auto split: if_splits)
          have "valid_utf8 (drop 6 (drop 4 v))"
            using surrogate_prefix [OF pair(2)] valid_utf8_drop [OF d4] by blast
          moreover have "lex_string s = prepend (encode_rune full) (lex_string (drop 10 v))"
            using esc s slash v n pair by simp
          ultimately show ?thesis using go_on valid_utf8_encode s v by simp
        qed
      qed
    qed
  qed
qed


text \<open>A number token is itself a number.\<close>

lemma digit_not_sign: "is_digit c \<Longrightarrow> c \<noteq> CHR ''-'' \<and> \<not> is_sign c"
  by (auto simp: is_digit_def is_sign_def in_range_def)

lemma not_digit: "\<not> is_digit (CHR ''.'')" "\<not> is_digit (CHR ''e'')" "\<not> is_digit (CHR ''E'')"
  by (simp_all add: is_digit_def in_range_def)

lemma takeWhile_digits:
  assumes "t = [] \<or> \<not> is_digit (hd t)"
  shows "takeWhile is_digit (takeWhile is_digit s @ t) = takeWhile is_digit s"
    and "dropWhile is_digit (takeWhile is_digit s @ t) = t"
proof -
  have "takeWhile is_digit t = []" "dropWhile is_digit t = t" using assms by (cases t; simp)+
  moreover have "\<And>c. c \<in> set (takeWhile is_digit s) \<Longrightarrow> is_digit c" by (rule set_takeWhileD [THEN conjunct2])
  ultimately show "takeWhile is_digit (takeWhile is_digit s @ t) = takeWhile is_digit s"
    "dropWhile is_digit (takeWhile is_digit s @ t) = t"
    by (simp_all only: takeWhile_append2 dropWhile_append2 append_Nil2)
qed

lemma lex_int_local:
  assumes "lex_int s = Some (u, v)" and "t = [] \<or> \<not> is_digit (hd t)"
  shows "lex_int (u @ t) = Some (u, t)"
  using assms(1) takeWhile_digits [OF assms(2)]
  by (cases s) (auto simp: lex_int_def split: if_splits)

lemma lex_frac_local:
  assumes "lex_frac s = Some (u, v)" and "t = [] \<or> (\<not> is_digit (hd t) \<and> hd t \<noteq> CHR ''.'')"
  shows "lex_frac (u @ t) = Some (u, t)"
proof -
  have t: "t = [] \<or> \<not> is_digit (hd t)" using assms(2) by blast
  show ?thesis
    using assms takeWhile_digits [OF t]
    by (cases s; cases t) (auto simp: lex_frac_def Let_def split: if_splits)
qed

lemma lex_exp_local: "lex_exp s = Some (u, v) \<Longrightarrow> lex_exp u = Some (u, [])"
proof (cases s)
  case (Cons c r)
  assume s: "lex_exp s = Some (u, v)"
  note idem = takeWhile_digits [of "[]", simplified]
  show ?thesis
  proof (cases "c = CHR ''e'' \<or> c = CHR ''E''")
    case True
    obtain sg where sg: "sg = (case r of x # _ \<Rightarrow> if is_sign x then [x] else [] | [] \<Rightarrow> [])" by blast
    let ?ds = "takeWhile is_digit (drop (length sg) r)"
    from True s Cons sg have u: "u = c # sg @ ?ds" and ds: "?ds \<noteq> []"
      by (auto simp: lex_exp_def Let_def split: if_splits)
    obtain d ds' where d: "?ds = d # ds'" "is_digit d"
      using ds by (metis list.exhaust list.set_intros(1) set_takeWhileD)
    have "(case sg @ ?ds of x # _ \<Rightarrow> if is_sign x then [x] else [] | [] \<Rightarrow> []) = sg"
      using sg d digit_not_sign by (auto split: list.splits)
    then show ?thesis using True ds idem by (simp add: u lex_exp_def Let_def)
  next
    case False
    with s Cons show ?thesis by (auto simp: lex_exp_def)
  qed
qed (simp add: lex_exp_def)

lemma ifE: "(if b then x else y) = z \<Longrightarrow> (b \<Longrightarrow> x = z \<Longrightarrow> R) \<Longrightarrow> (\<not> b \<Longrightarrow> y = z \<Longrightarrow> R) \<Longrightarrow> R"
  by (cases b) simp_all

lemma lex_number_valid: "lex_number s = Some (n, v) \<Longrightarrow> valid_number n"
proof -
  assume n: "lex_number s = Some (n, v)"
  obtain sg s0 where sg: "lex_sign s = (sg, s0)" by fastforce
  with n obtain i s1 f s2 e where
    parts: "lex_int s0 = Some (i, s1)" "lex_frac s1 = Some (f, s2)" "lex_exp s2 = Some (e, v)"
    and u: "n = sg @ i @ f @ e"
    by (auto simp: lex_number_def bind_eq_Some_conv)
  have e: "e = [] \<or> hd e = CHR ''e'' \<or> hd e = CHR ''E''"
    using parts(3) by (cases s2) (auto simp: lex_exp_def Let_def split: if_splits)
  have f: "f = [] \<or> hd f = CHR ''.''"
    using parts(2) by (cases s1) (auto simp: lex_frac_def Let_def split: if_splits)
  have i: "i \<noteq> [] \<and> hd i \<noteq> CHR ''-''"
    using parts(1) by (cases s0) (auto simp: lex_int_def digit_not_sign split: if_splits)
  have fe: "f @ e = [] \<or> \<not> is_digit (hd (f @ e))"
    using e f not_digit by (cases f) auto
  have e': "e = [] \<or> (\<not> is_digit (hd e) \<and> hd e \<noteq> CHR ''.'')"
    using e not_digit by auto
  have "sg = [] \<or> sg = [CHR ''-'']"
    using sg by (cases s) (auto simp: lex_sign_def split: if_splits)
  then have "lex_sign n = (sg, i @ f @ e)"
    using i u by (cases i) (auto simp: lex_sign_def)
  then show ?thesis
    using lex_int_local [OF parts(1) fe] lex_frac_local [OF parts(2) e'] lex_exp_local [OF parts(3)] u
    by (simp add: valid_number_def lex_number_def)
qed

lemma punctuation_token: "punctuation c = Some p \<Longrightarrow> byte c < 0x80 \<and> token_ok p"
  unfolding punctuation_def by (elim ifE) simp_all

lemma has_prefix_split: "has_prefix s p \<Longrightarrow> s = p @ drop (length p) s"
  by (auto simp: has_prefix_iff)

lemma literal_token_split:
  assumes "literal_token s = Some (t, r)"
  shows "\<exists>w. s = w @ r \<and> ascii w \<and> token_ok t"
proof -
  have w: "\<exists>w. s = w @ r \<and> ascii w \<and> token_ok t"
    if "has_prefix s p" "Some (t', drop (length p) s) = Some (t, r)" "ascii p" "token_ok t'" for p t'
    using that has_prefix_split by (metis option.inject prod.inject)
  show ?thesis
    using assms w [of "''true''" TTrue] w [of "''false''" TFalse] w [of "''null''" TNull]
    unfolding literal_token_def by (elim ifE) (simp_all add: numeral_eq_Suc)
qed

lemma lex_token_valid:
  assumes "valid_utf8 s" and "lex_token s = Some (t, r)"
  shows "token_ok t \<and> valid_utf8 r"
proof -
  obtain c u where s: "s = c # u" using assms(2) by (cases s) (auto simp: lex_token_def)
  have c: "valid_utf8 u" if "byte c < 0x80" using assms(1) s that by simp
  show ?thesis
  proof (cases "punctuation c")
    case (Some p)
    then show ?thesis using assms(2) s c punctuation_token [OF Some] by (auto simp: lex_token_def)
  next
    case None
    consider (str) "c = CHR 0x22" | (num) "c \<noteq> CHR 0x22" "c = CHR ''-'' \<or> is_digit c"
      | (lit) "c \<noteq> CHR 0x22" "c \<noteq> CHR ''-''" "\<not> is_digit c" by blast
    then show ?thesis
    proof cases
      case str
      then have "lex_token s = map_option (apfst TStr) (lex_string u)"
        using None s by (simp add: lex_token_def)
      with assms(2) obtain q where "lex_string u = Some (q, r)" "t = TStr q" by auto
      moreover have "valid_utf8 u" using c str by simp
      ultimately show ?thesis by (metis lex_string_valid token_ok.simps(7))
    next
      case num
      then have "lex_token s = map_option (apfst TNum) (lex_number s)"
        unfolding lex_token_def s list.case None option.case by (simp only: if_True if_False)
      with assms(2) obtain n where n: "t = TNum n" "lex_number s = Some (n, r)" by auto
      have "s = n @ r" "ascii n" using lex_number_split [OF n(2)] lex_number_ascii [OF n(2)] by auto
      then show ?thesis using n lex_number_valid valid_utf8_drop_ascii assms(1) by auto
    next
      case lit
      then have "literal_token s = Some (t, r)" using assms(2) s None by (simp add: lex_token_def)
      then obtain w where "s = w @ r" "ascii w" "token_ok t" using literal_token_split by blast
      then show ?thesis using valid_utf8_drop_ascii assms(1) by auto
    qed
  qed
qed

lemma lex_valid: "valid_utf8 s \<Longrightarrow> lex s = Some ts \<Longrightarrow> list_all token_ok ts"
proof (induction s arbitrary: ts rule: lex.induct)
  case (1 s)
  show ?case
  proof (cases s)
    case Nil
    with 1 show ?thesis by (simp add: lex.simps)
  next
    case (Cons c r)
    show ?thesis
    proof (cases "json_space c")
      case True
      then have "byte c < 0x80" by (auto simp: json_space_def)
      have "lex s = lex r" using True Cons by (simp add: lex.simps [of "c # r"])
      then show ?thesis using True 1(1,3,4) Cons \<open>byte c < 0x80\<close> by simp
    next
      case False
      then obtain t u us where "lex_token s = Some (t, u)" "lex u = Some us" "ts = t # us"
        using 1 Cons by (auto simp: lex.simps [of "c # r"] split: option.splits)
      moreover from this have "token_ok t \<and> valid_utf8 u" using lex_token_valid [OF 1(3)] by blast
      ultimately show ?thesis using 1(2) [of c r "(t, u)" t u us] Cons False by simp
    qed
  qed
qed

end
