(* ===== verification/Scim_Decoding.thy ===== *)
theory Scim_Decoding
  imports Scim_Tokens
begin

text \<open>
  What the strict decoder guarantees: an accepted document is admissible (names differ by more
  than letter case, protocol names are spelled canonically, strings and numbers are
  well-formed) and inside the depth and node bounds, and the fuel of the parser is enough.
\<close>

section \<open>Canonical names\<close>

lemma CoreKeyCases_ok:
  "list_all (\<lambda>(folded, key). to_lower P key = folded \<and> key \<noteq> [] \<and> ascii key) (CoreKeyCases P)"
  by code_simp

lemma CoreKeyCases_lookup:
  "map_of (CoreKeyCases P) folded = Some key \<Longrightarrow> to_lower P key = folded \<and> key \<noteq> [] \<and> valid_utf8 key"
  using CoreKeyCases_ok [of P] by (auto simp: list_all_iff valid_utf8_ascii dest!: map_of_SomeD)

text \<open>The admitted spelling folds to the same name and is its own admitted spelling.\<close>

lemma admitted_key_ok:
  fixes P :: platform
  assumes "key \<noteq> []" and "valid_utf8 key"
  defines "a \<equiv> admitted_key (CoreKeyCases P) (to_lower P key) key"
  shows "to_lower P a = to_lower P key \<and> a \<noteq> [] \<and> valid_utf8 a
         \<and> admitted_key (CoreKeyCases P) (to_lower P a) a = a"
  using assms CoreKeyCases_lookup
  by (auto simp: admitted_key_def split: option.splits)

section \<open>What the decoder accepts\<close>

definition entries_nodes :: "document \<Rightarrow> nat" where
  "entries_nodes m = sum_list (map (nodes \<circ> snd) m)"

lemma nodes_Obj: "nodes (JObj m) = Suc (entries_nodes m)"
  by (simp add: entries_nodes_def comp_def)

lemma height_Obj_le: "height (JObj m) \<le> h \<longleftrightarrow> (\<forall>(k, v) \<in> set m. Suc (height v) \<le> h)"
  by (induction m) auto

lemma height_Arr_le: "height (JArr xs) \<le> h \<longleftrightarrow> (\<forall>x \<in> set xs. Suc (height x) \<le> h)"
  by (induction xs) auto

lemma member_name_tokens:
  assumes "member_name first ts = Some (key, r)"
  shows "length r < length ts" and "list_all token_ok ts \<Longrightarrow> list_all token_ok r \<and> valid_utf8 key"
  using assms
  by (auto simp: member_name_def after_comma_def bind_eq_Some_conv
      split: if_splits list.splits jtoken.splits)

lemma after_comma_tokens:
  assumes "after_comma first ts = Some r"
  shows "length r \<le> length ts" and "list_all token_ok ts \<Longrightarrow> list_all token_ok r"
    and "\<not> first \<Longrightarrow> length r < length ts"
  using assms by (auto simp: after_comma_def split: if_splits list.splits)

text \<open>Parsing consumes tokens, whatever the fuel.\<close>

lemma parse_shorter:
  "parse_value P fuel depth n ts = Some (v, n', r) \<Longrightarrow> length r < length ts"
  "parse_members P fuel depth first seen m n ts = Some (m', n', r) \<Longrightarrow> length r < length ts"
  "parse_elements P fuel depth first n ts = Some (vs, n', r) \<Longrightarrow> length r < length ts"
proof (induction P fuel depth n ts and P fuel depth first seen m n ts and P fuel depth first n ts
    arbitrary: v n' r and m' n' r and vs n' r
    rule: parse_value_parse_members_parse_elements.induct)
  case (2 P fuel depth n ts)
  then show ?case
    by (cases ts) (fastforce simp: apfst_def map_prod_def split: if_splits)+
next
  case (4 P fuel depth first seen m n ts)
  then show ?case
    by (cases ts)
      (fastforce simp: Let_def bind_eq_Some_conv dest: member_name_tokens(1) split: if_splits)+
next
  case (6 P fuel depth first n ts)
  then show ?case
    by (cases ts)
      (fastforce simp: apfst_def map_prod_def bind_eq_Some_conv dest: after_comma_tokens(1) split: if_splits)+
qed auto


lemma names_ok_snoc:
  "names_ok P (ks @ [k]) \<longleftrightarrow> names_ok P ks \<and> to_lower P k \<notin> set (map (to_lower P) ks)
     \<and> k \<noteq> [] \<and> valid_utf8 k \<and> admitted_key (CoreKeyCases P) (to_lower P k) k = k"
  by (auto simp: names_ok_def)

text \<open>
  Whatever the decoder returns is admissible and inside the bounds: a value at depth \<open>depth\<close> that
  starts with \<open>n\<close> nodes spent ends with exactly its own nodes more, and never beyond the limits.
\<close>

lemma parse_sound:
  "parse_value P fuel depth n ts = Some (v, n', r) \<Longrightarrow> list_all token_ok ts \<Longrightarrow>
     decoded_ok P v \<and> n' = n + nodes v \<and> n' \<le> maximumJSONNodes
     \<and> depth + height v \<le> maximumJSONDepth \<and> list_all token_ok r"
  "parse_members P fuel depth first seen m n ts = Some (m', n', r) \<Longrightarrow> list_all token_ok ts \<Longrightarrow>
     decoded_ok P (JObj m) \<Longrightarrow> set seen = set (map (to_lower P) (keys m)) \<Longrightarrow> n \<le> maximumJSONNodes \<Longrightarrow>
     \<forall>(k, v) \<in> set m. Suc (depth + height v) \<le> maximumJSONDepth \<Longrightarrow>
     decoded_ok P (JObj m') \<and> n' + entries_nodes m = n + entries_nodes m' \<and> n' \<le> maximumJSONNodes
     \<and> (\<forall>(k, v) \<in> set m'. Suc (depth + height v) \<le> maximumJSONDepth) \<and> list_all token_ok r"
  "parse_elements P fuel depth first n ts = Some (vs, n', r) \<Longrightarrow> list_all token_ok ts \<Longrightarrow>
     n \<le> maximumJSONNodes \<Longrightarrow>
     decoded_ok P (JArr vs) \<and> n' = n + sum_list (map nodes vs) \<and> n' \<le> maximumJSONNodes
     \<and> (\<forall>v \<in> set vs. Suc (depth + height v) \<le> maximumJSONDepth) \<and> list_all token_ok r"
proof (induction P fuel depth n ts and P fuel depth first seen m n ts and P fuel depth first n ts
    arbitrary: v n' r and m' n' r and vs n' r
    rule: parse_value_parse_members_parse_elements.induct)
  case (2 P fuel depth n ts)
  then obtain t u where ts: "ts = t # u" and bound: "depth \<le> maximumJSONDepth" "Suc n \<le> maximumJSONNodes"
    by (cases ts) (auto split: if_splits)
  consider (obj) "t = TLBrace" | (arr) "t = TLBrack" | (scalar) "t \<noteq> TLBrace" "t \<noteq> TLBrack" by blast
  then show ?case
  proof cases
    case obj
    with 2(3) ts bound obtain m where m: "v = JObj m" "parse_members P fuel depth True [] [] (Suc n) u = Some (m, n', r)"
      by (auto simp: apfst_def)
    have "decoded_ok P (JObj m) \<and> n' + entries_nodes [] = Suc n + entries_nodes m \<and> n' \<le> maximumJSONNodes
       \<and> (\<forall>(k, v) \<in> set m. Suc (depth + height v) \<le> maximumJSONDepth) \<and> list_all token_ok r"
      by (rule 2(1) [OF _ ts obj m(2)]) (use bound 2(4) ts in \<open>auto simp: names_ok_def\<close>)
    then show ?thesis
      using bound height_Obj_le [of m "maximumJSONDepth - depth"]
      by (auto simp: m(1) nodes_Obj entries_nodes_def simp del: nodes.simps height.simps)
  next
    case arr
    with 2(3) ts bound obtain vs where vs: "v = JArr vs" "parse_elements P fuel depth True (Suc n) u = Some (vs, n', r)"
      by (auto simp: apfst_def)
    have "decoded_ok P (JArr vs) \<and> n' = Suc n + sum_list (map nodes vs) \<and> n' \<le> maximumJSONNodes
       \<and> (\<forall>v \<in> set vs. Suc (depth + height v) \<le> maximumJSONDepth) \<and> list_all token_ok r"
      by (rule 2(2) [OF _ ts _ arr vs(2)]) (use bound 2(4) ts arr in auto)
    then show ?thesis
      using bound height_Arr_le [of vs "maximumJSONDepth - depth"]
      by (auto simp: vs(1) simp del: height.simps)
  next
    case scalar
    with 2(3,4) ts bound show ?thesis
      by (auto simp: scalar_token_def split: jtoken.splits)
  qed
next
  case (4 P fuel depth first seen m n ts)
  show ?case
  proof (cases "ts \<noteq> [] \<and> hd ts = TRBrace")
    case True
    with 4 show ?thesis by (cases ts) auto
  next
    case False
    with 4(3) obtain key u v n1 u1 where
      key: "member_name first ts = Some (key, u)" and
      ok: "key \<noteq> []" "valid_utf8 key" "to_lower P key \<notin> set seen" and
      v: "parse_value P fuel (Suc depth) n u = Some (v, n1, u1)" and
      rest: "parse_members P fuel depth False (to_lower P key # seen)
        (AList.update (admitted_key (CoreKeyCases P) (to_lower P key) key) v m) n1 u1 = Some (m', n', r)"
      by (auto simp: Let_def bind_eq_Some_conv split: if_splits)
    let ?a = "admitted_key (CoreKeyCases P) (to_lower P key) key"
    have a: "to_lower P ?a = to_lower P key" "?a \<noteq> []" "valid_utf8 ?a"
      "admitted_key (CoreKeyCases P) (to_lower P ?a) ?a = ?a"
      using admitted_key_ok [OF ok(1,2), of P] by blast+
    have fresh: "to_lower P key \<notin> set (map (to_lower P) (keys m))" using ok(3) 4(6) by simp
    then have "?a \<notin> set (keys m)" using a(1) by (metis image_eqI set_map)
    then have upd: "AList.update ?a v m = m @ [(?a, v)]" by (rule update_fresh)
    have toks: "list_all token_ok u" using member_name_tokens(2) [OF key 4(4)] by blast
    have val: "decoded_ok P v \<and> n1 = n + nodes v \<and> n1 \<le> maximumJSONNodes
        \<and> Suc depth + height v \<le> maximumJSONDepth \<and> list_all token_ok u1"
      by (rule 4(1) [OF _ key refl refl _ v toks]) (use False ok in auto)
    have "decoded_ok P (JObj (m @ [(?a, v)]))"
      using 4(5) val a fresh by (auto simp: names_ok_snoc)
    then have "decoded_ok P (JObj m') \<and> n' + entries_nodes (m @ [(?a, v)]) = n1 + entries_nodes m'
        \<and> n' \<le> maximumJSONNodes
        \<and> (\<forall>(k, v) \<in> set m'. Suc (depth + height v) \<le> maximumJSONDepth) \<and> list_all token_ok r"
      unfolding upd [symmetric]
      by (intro 4(2) [OF _ key refl refl _ v refl refl rest])
        (use False ok val 4(6,8) a(1) upd in auto)
    then show ?thesis using val by (auto simp: entries_nodes_def)
  qed
next
  case (6 P fuel depth first n ts)
  show ?case
  proof (cases "ts \<noteq> [] \<and> hd ts = TRBrack")
    case True
    with 6 show ?thesis by (cases ts) auto
  next
    case False
    with 6(3) obtain u v n1 u1 vs' where u: "after_comma first ts = Some u" and
      v: "parse_value P fuel (Suc depth) n u = Some (v, n1, u1)" and
      rest: "parse_elements P fuel depth False n1 u1 = Some (vs', n', r)" and vs: "vs = v # vs'"
      by (auto simp: bind_eq_Some_conv apfst_def split: if_splits)
    have toks: "list_all token_ok u" using after_comma_tokens(2) [OF u 6(4)] by blast
    have val: "decoded_ok P v \<and> n1 = n + nodes v \<and> n1 \<le> maximumJSONNodes
        \<and> Suc depth + height v \<le> maximumJSONDepth \<and> list_all token_ok u1"
      by (rule 6(1) [OF _ u v toks]) (use False in auto)
    have "decoded_ok P (JArr vs') \<and> n' = n1 + sum_list (map nodes vs') \<and> n' \<le> maximumJSONNodes
        \<and> (\<forall>v \<in> set vs'. Suc (depth + height v) \<le> maximumJSONDepth) \<and> list_all token_ok r"
      by (rule 6(2) [OF _ u v refl refl rest]) (use False val in auto)
    with val show ?thesis by (auto simp: vs)
  qed
qed auto

lemma DecodeDocument_sound:
  assumes "DecodeDocument P raw = Inr m"
  shows "decoded_ok P (JObj m) \<and> nodes (JObj m) \<le> maximumJSONNodes
         \<and> height (JObj m) \<le> maximumJSONDepth"
proof -
  from assms obtain ts n where "valid_utf8 raw" and lex: "lex raw = Some ts"
    and v: "parse_value P (Suc (2 * length ts)) 0 0 ts = Some (JObj m, n, [])"
    by (auto simp: DecodeDocument_def bind_eq_Some_conv split: if_splits option.splits json.splits
        simp del: parse_value.simps)
  then have "list_all token_ok ts" using lex_valid by blast
  from parse_sound(1) [OF v this] show ?thesis by (simp del: nodes.simps height.simps decoded_ok_Obj)
qed


section \<open>The fuel is enough\<close>

lemma parse_fuel:
  "2 * length ts < fuel \<Longrightarrow> 2 * length ts < g \<Longrightarrow>
     parse_value P fuel depth n ts = parse_value P g depth n ts"
  "Suc (2 * length ts) < fuel \<Longrightarrow> Suc (2 * length ts) < g \<Longrightarrow>
     parse_members P fuel depth first seen m n ts = parse_members P g depth first seen m n ts"
  "Suc (2 * length ts) < fuel \<Longrightarrow> Suc (2 * length ts) < g \<Longrightarrow>
     parse_elements P fuel depth first n ts = parse_elements P g depth first n ts"
proof (induction P fuel depth n ts and P fuel depth first seen m n ts and P fuel depth first n ts
    arbitrary: g and g and g rule: parse_value_parse_members_parse_elements.induct)
  case (2 P fuel depth n ts)
  from 2(4) obtain g' where g: "g = Suc g'" by (cases g) auto
  show ?case
  proof (cases ts)
    case (Cons t u)
    have "parse_members P fuel depth True [] [] (Suc n) u = parse_members P g' depth True [] [] (Suc n) u"
      if "\<not> (maximumJSONDepth < depth \<or> maximumJSONNodes \<le> n)" "t = TLBrace"
      by (rule 2(1) [OF that(1) Cons that(2)]) (use 2(3,4) Cons g in auto)
    moreover have "parse_elements P fuel depth True (Suc n) u = parse_elements P g' depth True (Suc n) u"
      if "\<not> (maximumJSONDepth < depth \<or> maximumJSONNodes \<le> n)" "t \<noteq> TLBrace" "t = TLBrack"
      by (rule 2(2) [OF that(1) Cons that(2,3)]) (use 2(3,4) Cons g in auto)
    ultimately show ?thesis using Cons g by simp
  qed (simp add: g)
next
  case (4 P fuel depth first seen m n ts)
  from 4(4) obtain g' where g: "g = Suc g'" by (cases g) auto
  show ?case
  proof (cases "ts \<noteq> [] \<and> hd ts = TRBrace")
    case False
    show ?thesis
    proof (cases "member_name first ts")
      case None
      with False g show ?thesis by auto
    next
      case (Some ku)
      obtain key u where ku: "member_name first ts = Some (key, u)" using Some by (cases ku) auto
      note len = member_name_tokens(1) [OF ku]
      let ?bad = "key = [] \<or> \<not> valid_utf8 key \<or> List.member seen (to_lower P key)"
      have v: "parse_value P fuel (Suc depth) n u = parse_value P g' (Suc depth) n u" if "\<not> ?bad"
        by (rule 4(1) [OF False ku refl refl that]) (use 4(3,4) len g in auto)
      have "parse_members P fuel depth False (to_lower P key # seen)
          (AList.update (admitted_key (CoreKeyCases P) (to_lower P key) key) w m) n1 u1
        = parse_members P g' depth False (to_lower P key # seen)
          (AList.update (admitted_key (CoreKeyCases P) (to_lower P key) key) w m) n1 u1"
        if bad: "\<not> ?bad" and w: "parse_value P fuel (Suc depth) n u = Some (w, n1, u1)" for w n1 u1
        by (rule 4(2) [OF False ku refl refl bad w refl refl])
          (use 4(3,4) len parse_shorter(1) [OF w] g in auto)
      note step = this
      show ?thesis
      proof (cases "?bad")
        case True
        with False ku g show ?thesis by auto
      next
        case good: False
        show ?thesis
        proof (cases "parse_value P fuel (Suc depth) n u")
          case None
          then show ?thesis using v [OF good] False ku g good by auto
        next
          case (Some w)
          obtain w1 n1 u1 where w: "w = (w1, n1, u1)" by (cases w) auto
          with Some step [OF good] have
            "parse_members P fuel depth False (to_lower P key # seen)
              (AList.update (admitted_key (CoreKeyCases P) (to_lower P key) key) w1 m) n1 u1
            = parse_members P g' depth False (to_lower P key # seen)
              (AList.update (admitted_key (CoreKeyCases P) (to_lower P key) key) w1 m) n1 u1" by blast
          then show ?thesis using Some w v [OF good] False ku good unfolding g by (auto simp: Let_def)
        qed
      qed
    qed
  qed (simp add: g)
next
  case (6 P fuel depth first n ts)
  from 6(4) obtain g' where g: "g = Suc g'" by (cases g) auto
  show ?case
  proof (cases "ts \<noteq> [] \<and> hd ts = TRBrack")
    case False
    show ?thesis
    proof (cases "after_comma first ts")
      case None
      with False g show ?thesis by auto
    next
      case (Some u)
      note len = after_comma_tokens(1) [OF Some]
      have v: "parse_value P fuel (Suc depth) n u = parse_value P g' (Suc depth) n u"
        by (rule 6(1) [OF False Some]) (use 6(3,4) len g in auto)
      have "parse_elements P fuel depth False n1 u1 = parse_elements P g' depth False n1 u1"
        if w: "parse_value P fuel (Suc depth) n u = Some (w, n1, u1)" for w n1 u1
        by (rule 6(2) [OF False Some w refl refl])
          (use 6(3,4) len parse_shorter(1) [OF w] g in auto)
      then show ?thesis
        using v False Some g by (auto intro!: Option.bind_cong)
    qed
  qed (simp add: g)
qed auto

end
