(* ===== verification/Scim_Clone.thy ===== *)
theory Scim_Clone
  imports Scim_Decoding
begin

text \<open>
  Consequences of the two halves of json.go: canonical forms are fixed points, a stored document
  that is cloned comes back deeply equal, and encoding the clone gives the same bytes. The other
  components use these for every document they read back from a record.
\<close>

text \<open>What \<^const>\<open>DecodeDocument\<close> promises of a document it returns.\<close>

definition admissible :: "platform \<Rightarrow> document \<Rightarrow> bool" where
  "admissible P m \<longleftrightarrow> decoded_ok P (JObj m) \<and> nodes (JObj m) \<le> maximumJSONNodes
     \<and> height (JObj m) \<le> maximumJSONDepth"

lemma canon_idem [simp]: "canon (canon v) = canon v"
proof (induction v rule: json_induct)
  case (JObj m)
  let ?m = "sort_key fst (map (\<lambda>(k, v). (k, canon v)) m)"
  have "map (\<lambda>(k, v). (k, canon v)) ?m = ?m"
    by (rule map_idI) (auto dest: JObj)
  then have "canon (JObj ?m) = JObj (sort_key fst ?m)" by (simp only: canon_Obj)
  also have "sort_key fst ?m = ?m" by (rule sort_key_id_if_sorted) simp
  finally show ?case by (simp only: canon_Obj)
qed simp_all

lemma numbers_ok_canon [simp]: "numbers_ok (canon v) = numbers_ok v"
proof (induction v rule: json_induct)
  case (JObj m)
  then show ?case by (auto simp: list_all_iff canon_Obj simp del: canon.simps)
qed (auto simp: list_all_iff)

lemma marshal_deep_equal: "deep_equal x y \<Longrightarrow> marshal x = marshal y"
  unfolding deep_equal_def marshal_def by (metis numbers_ok_canon)

lemma canonicalDocument_deep_equal:
  "deep_equal (JObj m) (JObj m') \<Longrightarrow> canonicalDocument m = canonicalDocument m'"
  by (simp add: canonicalDocument_def marshal_deep_equal [of "JObj m" "JObj m'"])

lemma deep_equal_refl [simp, intro]: "deep_equal x x"
  and deep_equal_sym: "deep_equal x y \<Longrightarrow> deep_equal y x"
  and deep_equal_trans: "deep_equal x y \<Longrightarrow> deep_equal y z \<Longrightarrow> deep_equal x z"
  and deep_equal_canon: "deep_equal (canon x) x"
  by (simp_all add: deep_equal_def)

lemma DecodeDocument_admissible: "DecodeDocument P raw = Inr m \<Longrightarrow> admissible P m"
  using DecodeDocument_sound by (simp add: admissible_def)

text \<open>Cloning an admissible document, when its encoding fits.\<close>

lemma cloneDocument_admissible:
  assumes "admissible P m" and "cloneDocument P m = Inr m'"
  shows "JObj m' = canon (JObj m)" and "admissible P m'"
proof -
  obtain c where c: "canon (JObj m) = JObj c" using canon_Obj_shape by blast
  from assms(2) obtain raw where "canonicalDocument m = Inr raw" and d: "DecodeDocument P raw = Inr m'"
    by (auto simp: cloneDocument_def result_simps)
  with assms(1) c have "m' = c" using decode_canonical [of P m raw c] by (simp add: admissible_def)
  with c show "JObj m' = canon (JObj m)" by simp
  from d show "admissible P m'" by (rule DecodeDocument_admissible)
qed

lemma cloneDocument_deep_equal:
  "admissible P m \<Longrightarrow> cloneDocument P m = Inr m' \<Longrightarrow> deep_equal (JObj m') (JObj m)"
  using cloneDocument_admissible(1) deep_equal_canon by metis

lemma decode_encode:
  assumes "DecodeDocument P raw = Inr m" and "canonicalDocument m = Inr out"
  obtains m' where "DecodeDocument P out = Inr m'" and "deep_equal (JObj m') (JObj m)"
    and "canonicalDocument m' = Inr out"
proof -
  have "admissible P m" using assms(1) by (rule DecodeDocument_admissible)
  moreover obtain c where c: "canon (JObj m) = JObj c" using canon_Obj_shape by blast
  ultimately have d: "DecodeDocument P out = Inr c"
    unfolding admissible_def using decode_canonical [OF _ _ _ assms(2) c] by blast
  have "deep_equal (JObj c) (JObj m)" using deep_equal_canon c by metis
  with d assms(2) that show thesis using canonicalDocument_deep_equal by metis
qed

section \<open>A concrete platform\<close>

text \<open>
  An ASCII platform for the examples: no case mapping outside ASCII, PRECIS preparation that
  accepts visible ASCII as it is, times written as decimal numbers, URLs split at the first
  colon, and a stand-in digest of 32 bytes. Nothing but the witnesses uses it.
\<close>

definition plain_url :: "string \<Rightarrow> url option" where
  "plain_url s =
     (let sch = takeWhile (\<lambda>c. c \<noteq> CHR '':'') s;
          rest = dropWhile (\<lambda>c. c \<noteq> CHR '':'') s;
          abs = rest \<noteq> [];
          path = (if abs then [] else s)
      in Some \<lparr>url_scheme = (if abs then sch else []), url_opaque = (if abs then tl rest else []),
            url_has_user = False, url_host = [], url_path = path, url_escaped_path = path,
            url_raw_path = [], url_raw_query = [],
            url_force_query = False, url_fragment = []\<rparr>)"

definition plain_platform :: platform where
  "plain_platform =
     \<lparr>uni_lower = id, uni_upper = id, uni_fold = id, case_fold = map lower_byte,
      precis_username = (\<lambda>s. if s \<noteq> [] then Some s else None),
      precis_opaque = (\<lambda>s. if s \<noteq> [] then Some s else None),
      time_parse = (\<lambda>s. if s \<noteq> [] \<and> list_all is_digit s then Some (int (read_nat s)) else None),
      time_format = itoa, url_parse = plain_url,
      sha256 = (\<lambda>s. take 32 (rev s @ replicate 32 (CHR 0x00)))\<rparr>"

end
