(* ===== verification/Scim_Schema.thy ===== *)
theory Scim_Schema
  imports Scim_Clone
begin

text \<open>
  Schema metadata (resource.go): attributes, extensions and resource definitions, the standard
  User, Group and enterprise attributes, resolution of attribute names against a definition
  (filter_expression.go), and the accessors and shape checks on documents that the definitions'
  validation functions are made of.

  A validation function may change the document it checks (the enterprise one deletes
  \<^verbatim>\<open>displayName\<close> of the manager), so it returns the document. Slices are lists; a nil slice is
  the empty list, which is what \<^verbatim>\<open>cloneSchemaAttributes\<close> makes of an empty one. Copying metadata
  defensively changes no value, so \<^verbatim>\<open>cloneSchemaAttributes\<close> and \<^verbatim>\<open>cloneDefinition\<close> are the
  identity here.
\<close>

section \<open>Metadata\<close>

datatype SchemaAttribute = SchemaAttribute
  (attr_name: string) (attr_type: string) (multi_valued: bool) (attr_description: string)
  (attr_required: bool) (canonical_values: "string list") (case_exact: bool)
  (attr_mutability: string) (attr_returned: string) (attr_uniqueness: string)
  (reference_types: "string list") (sub_attributes: "SchemaAttribute list")

datatype WriteMode = CreateMode | ReplaceMode

record Extension =
  ext_schema :: string
  ext_name :: string
  ext_description :: string
  ext_attributes :: "SchemaAttribute list"
  ext_required :: bool
  ext_validate :: "(document \<Rightarrow> document result) option"

record ResourceDefinition =
  def_name :: string
  endpoint :: string
  def_schema :: string
  def_description :: string
  def_attributes :: "SchemaAttribute list"
  unique_attribute :: string
  filter_attributes :: "string list"
  extensions :: "Extension list"
  def_validate :: "(document \<Rightarrow> WriteMode \<Rightarrow> document result) option"

lemma sub_attributes_size [termination_simp]:
  "size_list size (sub_attributes a) < size a"
  by (cases a) simp

lemma sub_attribute_size [termination_simp]:
  "b \<in> set (sub_attributes a) \<Longrightarrow> size b < size a"
  by (cases a) (auto simp: less_Suc_eq_le intro: size_list_estimation')

text \<open>\<^verbatim>\<open>SchemaAttribute{Name, Type, Mutability, Returned, Uniqueness}\<close>, the other fields zero.\<close>

definition plain_attribute :: "string \<Rightarrow> string \<Rightarrow> string \<Rightarrow> SchemaAttribute" where
  "plain_attribute name ty mut =
     SchemaAttribute name ty False [] False [] False mut ''default'' ''none'' [] []"

definition stringAttribute :: "string \<Rightarrow> SchemaAttribute" where
  "stringAttribute name = plain_attribute name ''string'' ''readWrite''"

definition readOnlyDisplay :: SchemaAttribute where
  "readOnlyDisplay = plain_attribute ''display'' ''string'' ''readOnly''"

definition primary_attribute :: SchemaAttribute where
  "primary_attribute = plain_attribute ''primary'' ''boolean'' ''readWrite''"

definition typeAttribute :: "string list \<Rightarrow> SchemaAttribute" where
  "typeAttribute values =
     SchemaAttribute ''type'' ''string'' False [] False values False ''readWrite'' ''default'' ''none'' [] []"

definition reference_attribute :: "string \<Rightarrow> string \<Rightarrow> string list \<Rightarrow> SchemaAttribute" where
  "reference_attribute name mut kinds =
     SchemaAttribute name ''reference'' False [] False [] False mut ''default'' ''none'' kinds []"

definition complex_attribute :: "string \<Rightarrow> bool \<Rightarrow> string \<Rightarrow> SchemaAttribute list \<Rightarrow> SchemaAttribute" where
  "complex_attribute name multi mut subs =
     SchemaAttribute name ''complex'' multi [] False [] False mut ''default'' ''none'' [] subs"

definition multiAttribute :: "string \<Rightarrow> SchemaAttribute \<Rightarrow> SchemaAttribute \<Rightarrow> SchemaAttribute" where
  "multiAttribute name val kind =
     complex_attribute name True ''readWrite'' [val, readOnlyDisplay, kind, primary_attribute]"

definition server_unique :: "string \<Rightarrow> SchemaAttribute" where
  "server_unique name =
     SchemaAttribute name ''string'' False [] True [] False ''readWrite'' ''default'' ''server'' [] []"

definition standardUserAttributes :: "SchemaAttribute list" where
  "standardUserAttributes =
     [server_unique ''userName'',
      complex_attribute ''name'' False ''readWrite''
        (map stringAttribute [''formatted'', ''familyName'', ''givenName'', ''middleName'', ''honorificPrefix'', ''honorificSuffix'']),
      stringAttribute ''displayName'', stringAttribute ''nickName'',
      reference_attribute ''profileUrl'' ''readWrite'' [''external''],
      stringAttribute ''title'', stringAttribute ''userType'', stringAttribute ''preferredLanguage'',
      stringAttribute ''locale'', stringAttribute ''timezone'',
      plain_attribute ''active'' ''boolean'' ''readWrite'',
      SchemaAttribute ''password'' ''string'' False [] False [] False ''writeOnly'' ''never'' ''none'' [] [],
      multiAttribute ''emails'' (stringAttribute ''value'') (typeAttribute [''work'', ''home'', ''other'']),
      multiAttribute ''phoneNumbers'' (stringAttribute ''value'')
        (typeAttribute [''work'', ''home'', ''mobile'', ''fax'', ''pager'', ''other'']),
      multiAttribute ''ims'' (stringAttribute ''value'')
        (typeAttribute [''aim'', ''gtalk'', ''icq'', ''xmpp'', ''msn'', ''skype'', ''qq'', ''yahoo'']),
      multiAttribute ''photos'' (reference_attribute ''value'' ''readWrite'' [''external''])
        (typeAttribute [''photo'', ''thumbnail'']),
      complex_attribute ''addresses'' True ''readWrite''
        (map stringAttribute [''formatted'', ''streetAddress'', ''locality'', ''region'', ''postalCode'', ''country'']
         @ [typeAttribute [''work'', ''home'', ''other''], primary_attribute]),
      multiAttribute ''entitlements'' (stringAttribute ''value'') (typeAttribute []),
      multiAttribute ''roles'' (stringAttribute ''value'') (typeAttribute []),
      multiAttribute ''x509Certificates'' (plain_attribute ''value'' ''binary'' ''readWrite'') (typeAttribute []),
      complex_attribute ''groups'' True ''readOnly''
        [plain_attribute ''value'' ''string'' ''readOnly'',
         reference_attribute ''$ref'' ''readOnly'' [''User'', ''Group''],
         plain_attribute ''display'' ''string'' ''readOnly'',
         SchemaAttribute ''type'' ''string'' False [] False [''direct'', ''indirect''] False
           ''readOnly'' ''default'' ''none'' [] []]]"

definition standardGroupAttributes :: "SchemaAttribute list" where
  "standardGroupAttributes =
     [server_unique ''displayName'',
      complex_attribute ''members'' True ''readWrite''
        [SchemaAttribute ''value'' ''string'' False [] True [] False ''immutable'' ''default'' ''none'' [] [],
         reference_attribute ''$ref'' ''immutable'' [''User'', ''Group''],
         SchemaAttribute ''type'' ''string'' False [] False [''User'', ''Group''] False
           ''immutable'' ''default'' ''none'' [] [],
         plain_attribute ''display'' ''string'' ''readOnly'']]"

section \<open>Documents\<close>

text \<open>Go's type assertions on a value of type \<^verbatim>\<open>any\<close>.\<close>

definition as_string :: "json \<Rightarrow> string option" where
  "as_string v = (case v of JStr s \<Rightarrow> Some s | _ \<Rightarrow> None)"
definition as_bool :: "json \<Rightarrow> bool option" where
  "as_bool v = (case v of JBool b \<Rightarrow> Some b | _ \<Rightarrow> None)"
definition as_array :: "json \<Rightarrow> json list option" where
  "as_array v = (case v of JArr xs \<Rightarrow> Some xs | _ \<Rightarrow> None)"
definition as_object :: "json \<Rightarrow> document option" where
  "as_object v = (case v of JObj m \<Rightarrow> Some m | _ \<Rightarrow> None)"

lemma as_simps [simp]:
  "as_string v = Some s \<longleftrightarrow> v = JStr s" "as_bool v = Some b \<longleftrightarrow> v = JBool b"
  "as_array v = Some xs \<longleftrightarrow> v = JArr xs" "as_object v = Some m \<longleftrightarrow> v = JObj m"
  by (cases v; auto simp: as_string_def as_bool_def as_array_def as_object_def)+

lemma as_values [simp]:
  "as_string (JStr s) = Some s" "as_bool (JBool b) = Some b"
  "as_array (JArr xs) = Some xs" "as_object (JObj m) = Some m"
  by simp_all

definition object_at :: "document \<Rightarrow> string \<Rightarrow> document option" where
  "object_at m k = Option.bind (map_of m k) as_object"

definition requiredString :: "document \<Rightarrow> string \<Rightarrow> nat \<Rightarrow> string result" where
  "requiredString document name maximum =
     (case Option.bind (map_of document name) as_string of
        None \<Rightarrow> Inl (OtherError ''required and invalid'')
      | Some txt \<Rightarrow>
          if \<not> validString txt maximum \<or> txt = [] then Inl (OtherError ''required and invalid'')
          else Inr txt)"

definition optionalString :: "document \<Rightarrow> string \<Rightarrow> nat \<Rightarrow> string result" where
  "optionalString document name maximum =
     (case map_of document name of
        None \<Rightarrow> Inr []
      | Some v \<Rightarrow>
          (case as_string v of
             None \<Rightarrow> Inl (OtherError ''invalid string'')
           | Some txt \<Rightarrow>
               if \<not> validString txt maximum then Inl (OtherError ''invalid string'') else Inr txt))"

fun string_path :: "json \<Rightarrow> string list \<Rightarrow> json option result" where
  "string_path v [] = Inr (Some v)"
| "string_path v (part # parts) =
     (case as_object v of
        None \<Rightarrow> Inl (OtherError ''lookup path is not singular'')
      | Some object \<Rightarrow>
          (case map_of object part of None \<Rightarrow> Inr None | Some w \<Rightarrow> string_path w parts))"

text \<open>stringPath: the string at a dotted path, or that nothing is there.\<close>

definition stringPath :: "document \<Rightarrow> string \<Rightarrow> string option result" where
  "stringPath document path =
     and_then (string_path (JObj document) (split_on (CHR ''.'') path)) (\<lambda>found.
       (case found of
          None \<Rightarrow> Inr None
        | Some v \<Rightarrow>
            (case as_string v of
               None \<Rightarrow> Inl (OtherError ''lookup path is not a non-empty string'')
             | Some txt \<Rightarrow>
                 if txt = [] then Inl (OtherError ''lookup path is not a non-empty string'')
                 else Inr (Some txt))))"

definition string_field_ok :: "string list \<Rightarrow> string \<times> json \<Rightarrow> bool" where
  "string_field_ok allowed = (\<lambda>(name, raw).
     (case as_string raw of
        None \<Rightarrow> False
      | Some txt \<Rightarrow> List.member allowed name \<and> validString txt maximumStringBytes))"

definition validateStringObject :: "json \<Rightarrow> string list \<Rightarrow> unit result" where
  "validateStringObject v allowed =
     (case as_object v of
        None \<Rightarrow> Inl (OtherError ''complex value shape is invalid'')
      | Some object \<Rightarrow>
          if length allowed < length object then Inl (OtherError ''complex value shape is invalid'')
          else check (list_all (string_field_ok allowed) object) (OtherError ''sub-attribute is invalid''))"

definition multi_value_ok :: "string list \<Rightarrow> json \<Rightarrow> bool" where
  "multi_value_ok allowed raw =
     (case as_object raw of
        None \<Rightarrow> False
      | Some object \<Rightarrow>
          length object \<le> length allowed + 1
          \<and> list_all (\<lambda>(name, item).
               if name = ''primary'' then as_bool item \<noteq> None
               else string_field_ok allowed (name, item)) object)"

definition validateMultiValue :: "json \<Rightarrow> string list \<Rightarrow> unit result" where
  "validateMultiValue v allowed =
     (case as_array v of
        None \<Rightarrow> Inl (OtherError ''multi-valued boundary is invalid'')
      | Some values \<Rightarrow>
          if maximumValues < length values then Inl (OtherError ''multi-valued boundary is invalid'')
          else check (list_all (multi_value_ok allowed) values) (OtherError ''multi-valued element is invalid''))"

section \<open>The enterprise extension and the standard definitions\<close>

definition enterprise_strings :: "string list" where
  "enterprise_strings = [''employeeNumber'', ''costCenter'', ''organization'', ''division'', ''department'']"

definition validateEnterpriseUser :: "document \<Rightarrow> document result" where
  "validateEnterpriseUser document =
     and_then (traverse (\<lambda>name. optionalString document name maximumStringBytes) enterprise_strings) (\<lambda>_.
     if \<not> list_all (\<lambda>name. oneOf name (enterprise_strings @ [''manager''])) (keys document)
     then Inl (OtherError ''enterprise attribute is unsupported'')
     else
       (case map_of document ''manager'' of
          None \<Rightarrow> Inr document
        | Some raw \<Rightarrow>
            (case as_object raw of
               None \<Rightarrow> Inl (OtherError ''enterprise manager is invalid'')
             | Some manager \<Rightarrow>
                 let manager = AList.delete ''displayName'' manager in
                 and_then (validateStringObject (JObj manager) [''value'', ''$ref'']) (\<lambda>_.
                   Inr (AList.update ''manager'' (JObj manager) document)))))"

definition EnterpriseUserExtension :: Extension where
  "EnterpriseUserExtension =
     \<lparr>ext_schema = EnterpriseUserSchema, ext_name = ''EnterpriseUser'',
      ext_description = ''Enterprise User'',
      ext_attributes =
        map stringAttribute enterprise_strings
        @ [complex_attribute ''manager'' False ''readWrite''
             [stringAttribute ''value'', reference_attribute ''$ref'' ''readWrite'' [''User''],
              plain_attribute ''displayName'' ''string'' ''readOnly'']],
      ext_required = False, ext_validate = Some validateEnterpriseUser\<rparr>"

definition user_definition :: ResourceDefinition where
  "user_definition =
     \<lparr>def_name = ''User'', endpoint = ''Users'', def_schema = UserSchema,
      def_description = ''User Account'', def_attributes = standardUserAttributes,
      unique_attribute = ''userName'', filter_attributes = [''userName'', ''externalId''],
      extensions = [EnterpriseUserExtension], def_validate = None\<rparr>"

definition group_definition :: ResourceDefinition where
  "group_definition =
     \<lparr>def_name = ''Group'', endpoint = ''Groups'', def_schema = GroupSchema,
      def_description = ''Group'', def_attributes = standardGroupAttributes,
      unique_attribute = ''displayName'', filter_attributes = [''displayName'', ''externalId''],
      extensions = [], def_validate = None\<rparr>"

definition DefaultDefinitions :: "ResourceDefinition list" where
  "DefaultDefinitions = [user_definition, group_definition]"

section \<open>Resolving attribute names\<close>

fun resolve_in :: "platform \<Rightarrow> SchemaAttribute list \<Rightarrow> string list \<Rightarrow> string list
    \<Rightarrow> (string list \<times> SchemaAttribute) option" where
  "resolve_in P [] parts pre = None"
| "resolve_in P (attribute # rest) parts pre =
     (if \<not> equal_fold P (attr_name attribute) (hd parts) then resolve_in P rest parts pre
      else
        let path = pre @ [attr_name attribute] in
        if length parts = 1 then Some (path, attribute)
        else (case List.find (\<lambda>sub. equal_fold P (attr_name sub) (parts ! 1)) (sub_attributes attribute) of
                Some sub \<Rightarrow> Some (path @ [attr_name sub], sub)
              | None \<Rightarrow> resolve_in P rest parts pre))"

definition resolveFromAttributes :: "platform \<Rightarrow> SchemaAttribute list \<Rightarrow> string \<Rightarrow> string list
    \<Rightarrow> (string list \<times> SchemaAttribute) option" where
  "resolveFromAttributes P attributes raw pre =
     (let parts = split_on (CHR ''.'') raw in
      if length parts < 1 \<or> 2 < length parts then None else resolve_in P attributes parts pre)"

definition exact_string :: "string \<Rightarrow> bool \<Rightarrow> string \<Rightarrow> string \<Rightarrow> string \<Rightarrow> SchemaAttribute" where
  "exact_string name multi mut ret uniq =
     SchemaAttribute name ''string'' multi [] False [] True mut ret uniq [] []"

definition common_attributes :: "SchemaAttribute list" where
  "common_attributes =
     [exact_string ''schemas'' True ''readOnly'' ''always'' ''none'',
      exact_string ''id'' False ''readOnly'' ''always'' ''global'',
      exact_string ''externalId'' False ''readWrite'' ''default'' ''none'',
      complex_attribute ''meta'' False ''readOnly''
        [exact_string ''resourceType'' False ''readOnly'' ''default'' ''none'',
         plain_attribute ''created'' ''dateTime'' ''readOnly'',
         plain_attribute ''lastModified'' ''dateTime'' ''readOnly'',
         exact_string ''version'' False ''readOnly'' ''default'' ''none'',
         SchemaAttribute ''location'' ''reference'' False [] False [] True ''readOnly'' ''default'' ''none'' [] []]]"

definition resolveCommonAttribute :: "platform \<Rightarrow> string \<Rightarrow> (string list \<times> SchemaAttribute) option" where
  "resolveCommonAttribute P raw = resolveFromAttributes P common_attributes raw []"

text \<open>Whether a name starts with a schema URN and a colon, and something follows.\<close>

definition urn_prefixed :: "platform \<Rightarrow> string \<Rightarrow> string \<Rightarrow> bool" where
  "urn_prefixed P schema raw \<longleftrightarrow>
     Suc (length schema) < length raw
     \<and> equal_fold P (take (Suc (length schema)) raw) (schema @ '':'')"

text \<open>\<open>relative\<close> is \<^const>\<open>None\<close> for a nil slice: names are then resolved against the definition.\<close>

definition resolveAttributeContract :: "platform \<Rightarrow> ResourceDefinition \<Rightarrow> SchemaAttribute list option
    \<Rightarrow> string \<Rightarrow> (string list \<times> SchemaAttribute) option" where
  "resolveAttributeContract P definition relative raw =
     (case relative of
        Some attributes \<Rightarrow> resolveFromAttributes P attributes raw []
      | None \<Rightarrow>
          let remaining = (if urn_prefixed P (def_schema definition) raw
                           then drop (Suc (length (def_schema definition))) raw else raw)
          in (case List.find (\<lambda>extension. urn_prefixed P (ext_schema extension) remaining)
                     (extensions definition) of
                Some extension \<Rightarrow>
                  resolveFromAttributes P (ext_attributes extension)
                    (drop (Suc (length (ext_schema extension))) remaining)
                    (if ext_name extension = ''$core'' then [] else [ext_schema extension])
              | None \<Rightarrow>
                  (case resolveCommonAttribute P remaining of
                     Some found \<Rightarrow> Some found
                   | None \<Rightarrow> resolveFromAttributes P (def_attributes definition) remaining [])))"

definition nonnil :: "'a list \<Rightarrow> 'a list option" where
  "nonnil xs = (if xs = [] then None else Some xs)"

section \<open>The registry\<close>

definition validSchemaURI :: "platform \<Rightarrow> string \<Rightarrow> bool" where
  "validSchemaURI P val \<longleftrightarrow>
     (if \<not> validString val 1024 \<or> val = [] then False
      else (case url_parse P val of
              None \<Rightarrow> False
            | Some parsed \<Rightarrow> url_scheme parsed \<noteq> [] \<and> url_fragment parsed = []))"

fun containsWriteOnly :: "SchemaAttribute list \<Rightarrow> bool \<Rightarrow> bool" where
  "containsWriteOnly [] permitPassword = False"
| "containsWriteOnly (attribute # rest) permitPassword =
     (if attr_mutability attribute = ''writeOnly'' \<and> \<not> (permitPassword \<and> attr_name attribute = ''password'')
      then True
      else if containsWriteOnly (sub_attributes attribute) False then True
      else containsWriteOnly rest permitPassword)"

definition attribute_contract_ok :: "SchemaAttribute \<Rightarrow> bool" where
  "attribute_contract_ok attribute \<longleftrightarrow>
     oneOf (attr_type attribute) [''binary'', ''boolean'', ''complex'', ''dateTime'', ''decimal'', ''integer'', ''reference'', ''string'']
     \<and> oneOf (attr_mutability attribute) [''immutable'', ''readOnly'', ''readWrite'', ''writeOnly'']
     \<and> oneOf (attr_returned attribute) [''always'', ''default'', ''never'', ''request'']
     \<and> oneOf (attr_uniqueness attribute) [''global'', ''none'', ''server'']
     \<and> validString (attr_description attribute) maximumStringBytes
     \<and> validStringList (canonical_values attribute) 256
     \<and> validStringList (reference_types attribute) 64"

text \<open>The loop of validateSchemaAttributes; \<open>seen\<close> holds the folded names so far.\<close>

function (sequential) schema_attributes :: "platform \<Rightarrow> SchemaAttribute list \<Rightarrow> nat \<Rightarrow> string list \<Rightarrow> unit result" where
  "schema_attributes P [] depth seen = Inr ()"
| "schema_attributes P (attribute # rest) depth seen =
     (let folded = to_lower P (attr_name attribute) in
      if \<not> validSchemaAttributeName (attr_name attribute)
      then Inl (OtherError ''schema attribute name is invalid'')
      else if List.member seen folded then Inl (OtherError ''schema attribute is duplicated'')
      else if \<not> attribute_contract_ok attribute then Inl (OtherError ''schema attribute contract is invalid'')
      else if attr_type attribute \<noteq> ''complex'' \<and> sub_attributes attribute \<noteq> []
      then Inl (OtherError ''non-complex attribute has sub-attributes'')
      else if attr_mutability attribute = ''writeOnly'' \<and> attr_returned attribute \<noteq> ''never''
      then Inl (OtherError ''write-only attribute must never be returned'')
      else if attr_type attribute \<noteq> ''reference'' \<and> reference_types attribute \<noteq> []
      then Inl (OtherError ''only reference attributes have reference types'')
      else if 4 < Suc depth \<or> 256 < length (sub_attributes attribute)
      then Inl (OtherError ''schema attribute boundary is invalid'')
      else and_then (schema_attributes P (sub_attributes attribute) (Suc depth) [])
             (\<lambda>_. schema_attributes P rest depth (folded # seen)))"
  by pat_completeness auto
termination
  by (relation "measure (\<lambda>(P, attributes, depth, seen). size_list size attributes)")
    (auto simp: sub_attributes_size trans_less_add1 less_SucI)

definition validateSchemaAttributes :: "platform \<Rightarrow> SchemaAttribute list \<Rightarrow> nat \<Rightarrow> unit result" where
  "validateSchemaAttributes P attributes depth =
     (if 4 < depth \<or> 256 < length attributes then Inl (OtherError ''schema attribute boundary is invalid'')
      else schema_attributes P attributes depth [])"

end
