(* ===== verification/Scim_Mutability.thy ===== *)
theory Scim_Mutability
  imports Scim_Schema
begin

text \<open>
  Attribute mutability (mutability.go): read-only attributes are stripped from what a client
  sends and keep the stored value on replacement, immutable ones may not change. The code
  changes maps in place; here each function returns the changed map, and a nested map that was
  changed is put back under its name.
\<close>

section \<open>Stripping\<close>

text \<open>What \<^verbatim>\<open>object[name]\<close> holds, changed by the type switch: objects and the objects of arrays.\<close>

definition map_objects :: "(document \<Rightarrow> document) \<Rightarrow> json \<Rightarrow> json" where
  "map_objects f v =
     (case v of
        JObj m \<Rightarrow> JObj (f m)
      | JArr xs \<Rightarrow> JArr (map (\<lambda>x. case x of JObj m \<Rightarrow> JObj (f m) | _ \<Rightarrow> x) xs)
      | _ \<Rightarrow> v)"

function (sequential) stripReadOnlyAttributes :: "document \<Rightarrow> SchemaAttribute list \<Rightarrow> document option \<Rightarrow> document" where
  "stripReadOnlyAttributes object [] current = object"
| "stripReadOnlyAttributes object (attribute # rest) current =
     (if attr_mutability attribute = ''readOnly'' then
        (case Option.bind current (\<lambda>c. map_of c (attr_name attribute)) of
           Some v \<Rightarrow> stripReadOnlyAttributes (AList.update (attr_name attribute) v object) rest current
         | None \<Rightarrow> stripReadOnlyAttributes (AList.delete (attr_name attribute) object) rest current)
      else if attr_type attribute = ''complex'' then
        (case map_of object (attr_name attribute) of
           None \<Rightarrow> stripReadOnlyAttributes object rest current
         | Some nested \<Rightarrow>
             stripReadOnlyAttributes
               (AList.update (attr_name attribute)
                  (map_objects (\<lambda>m. stripReadOnlyAttributes m (sub_attributes attribute) None) nested) object)
               rest current)
      else stripReadOnlyAttributes object rest current)"
  by pat_completeness auto
termination
  by (relation "measure (\<lambda>(object, attributes, current). size_list size attributes)")
    (auto simp: sub_attributes_size trans_less_add1 less_SucI)

definition strip_extension :: "Extension \<Rightarrow> document \<Rightarrow> document" where
  "strip_extension extension document =
     (case object_at document (ext_schema extension) of
        None \<Rightarrow> document
      | Some object \<Rightarrow>
          AList.update (ext_schema extension)
            (JObj (stripReadOnlyAttributes object (ext_attributes extension) None)) document)"

definition stripReadOnly :: "ResourceDefinition \<Rightarrow> document \<Rightarrow> document" where
  "stripReadOnly definition document =
     fold strip_extension (extensions definition)
       (stripReadOnlyAttributes document (def_attributes definition) None)"

section \<open>Replacement\<close>

definition object_or_empty :: "json option \<Rightarrow> document" where
  "object_or_empty v = (case Option.bind v as_object of None \<Rightarrow> [] | Some m \<Rightarrow> m)"

definition array_or_empty :: "json option \<Rightarrow> json list" where
  "array_or_empty v = (case Option.bind v as_array of None \<Rightarrow> [] | Some xs \<Rightarrow> xs)"

text \<open>The elements of the stored array by the string under \<^verbatim>\<open>value\<close>; a later one wins.\<close>

definition by_value :: "json list \<Rightarrow> (string \<times> document) list" where
  "by_value before =
     foldl (\<lambda>acc raw.
       (case as_object raw of
          None \<Rightarrow> acc
        | Some object \<Rightarrow>
            (case Option.bind (map_of object ''value'') as_string of
               None \<Rightarrow> acc
             | Some v \<Rightarrow> AList.update v object acc))) [] before"

definition previous_item :: "json list \<Rightarrow> nat \<Rightarrow> document \<Rightarrow> document option" where
  "previous_item before index object =
     (case Option.bind (Option.bind (map_of object ''value'') as_string) (map_of (by_value before)) of
        Some previous \<Rightarrow> Some previous
      | None \<Rightarrow> if index < length before then as_object (before ! index) else None)"

text \<open>
  enforceMultiValueMutability: each object of the new array is checked against the stored one it replaces.
  The check of two objects, which the code calls back, is an argument here.
\<close>

definition enforceMultiValueMutability :: "(document \<Rightarrow> document \<Rightarrow> document result) \<Rightarrow> json list \<Rightarrow> json list
    \<Rightarrow> json list result" where
  "enforceMultiValueMutability enforce before after =
     traverse (\<lambda>(index, raw).
         (case as_object raw of
            None \<Rightarrow> Inr raw
          | Some object \<Rightarrow>
              (case previous_item before index object of
                 None \<Rightarrow> Inr raw
               | Some previous \<Rightarrow> and_then (enforce previous object) (\<lambda>item. Inr (JObj item)))))
       (List.enumerate 0 after)"

definition immutable_error :: "string \<Rightarrow> scim_error" where
  "immutable_error name = clientError 400 ''mutability'' (''attribute '' @ name @ '' is immutable'')"

function (sequential) enforceAttributeMutability :: "document \<Rightarrow> document \<Rightarrow> SchemaAttribute list \<Rightarrow> document result" where
  "enforceAttributeMutability current incoming [] = Inr incoming"
| "enforceAttributeMutability current incoming (attribute # rest) =
     (let name = attr_name attribute;
          before = map_of current name; after = map_of incoming name in
      if attr_mutability attribute = ''readOnly'' then
        enforceAttributeMutability current
          (case before of Some v \<Rightarrow> AList.update name v incoming | None \<Rightarrow> AList.delete name incoming) rest
      else if attr_mutability attribute = ''immutable'' \<and> before \<noteq> None \<and> after \<noteq> None
              \<and> \<not> deep_equal (the before) (the after)
      then Inl (immutable_error name)
      else
        let incoming = (if attr_mutability attribute = ''immutable'' \<and> before \<noteq> None \<and> after = None
                        then AList.update name (the before) incoming else incoming) in
        and_then
          (if attr_type attribute = ''complex'' \<and> \<not> multi_valued attribute then
             (case Option.bind after as_object of
                None \<Rightarrow> Inr incoming
              | Some afterObject \<Rightarrow>
                  and_then (enforceAttributeMutability (object_or_empty before) afterObject (sub_attributes attribute))
                    (\<lambda>object. Inr (AList.update name (JObj object) incoming)))
           else if attr_type attribute = ''complex'' \<and> multi_valued attribute then
             (case Option.bind after as_array of
                None \<Rightarrow> Inr incoming
              | Some afterValues \<Rightarrow>
                  and_then
                    (enforceMultiValueMutability
                       (\<lambda>previous object. enforceAttributeMutability previous object (sub_attributes attribute))
                       (array_or_empty before) afterValues)
                    (\<lambda>items. Inr (AList.update name (JArr items) incoming)))
           else Inr incoming)
          (\<lambda>incoming. enforceAttributeMutability current incoming rest))"
  by pat_completeness auto
termination
  by (relation "measure (\<lambda>(current, incoming, attributes). size_list size attributes)")
    (auto simp: sub_attributes_size trans_less_add1 less_SucI)

definition enforce_extension :: "document \<Rightarrow> Extension \<Rightarrow> document \<Rightarrow> document result" where
  "enforce_extension current extension incoming =
     (case object_at incoming (ext_schema extension) of
        None \<Rightarrow> Inr incoming
      | Some after \<Rightarrow>
          and_then (enforceAttributeMutability (object_or_empty (map_of current (ext_schema extension)))
                      after (ext_attributes extension))
            (\<lambda>object. Inr (AList.update (ext_schema extension) (JObj object) incoming)))"

definition enforceReplacementMutability :: "ResourceDefinition \<Rightarrow> document \<Rightarrow> document \<Rightarrow> document result" where
  "enforceReplacementMutability definition current incoming =
     and_then (enforceAttributeMutability current incoming (def_attributes definition))
       (for_each (enforce_extension current) (extensions definition))"

section \<open>What replacement keeps\<close>

declare stripReadOnlyAttributes.simps(2) [simp del] enforceAttributeMutability.simps(2) [simp del]

text \<open>One round touches only the attribute it is about, and protects it.\<close>

definition protected :: "document \<Rightarrow> document \<Rightarrow> SchemaAttribute \<Rightarrow> bool" where
  "protected current out a \<longleftrightarrow>
     (attr_mutability a = ''readOnly'' \<longrightarrow> map_of out (attr_name a) = map_of current (attr_name a))
     \<and> (attr_mutability a = ''immutable'' \<and> attr_type a \<noteq> ''complex'' \<longrightarrow>
          (\<forall>v. map_of current (attr_name a) = Some v \<longrightarrow>
             (\<exists>w. map_of out (attr_name a) = Some w \<and> deep_equal v w)))"

lemma enforce_step:
  assumes "enforceAttributeMutability current incoming (b # rest) = Inr out"
  obtains inc where "enforceAttributeMutability current inc rest = Inr out"
    and "\<forall>k. k \<noteq> attr_name b \<longrightarrow> map_of inc k = map_of incoming k" and "protected current inc b"
proof (cases "attr_mutability b = ''readOnly''")
  case True
  let ?inc = "case map_of current (attr_name b) of
    Some v \<Rightarrow> AList.update (attr_name b) v incoming | None \<Rightarrow> AList.delete (attr_name b) incoming"
  show thesis
  proof (rule that [of ?inc])
    show "enforceAttributeMutability current ?inc rest = Inr out"
      using assms True unfolding enforceAttributeMutability.simps Let_def by simp
    show "\<forall>k. k \<noteq> attr_name b \<longrightarrow> map_of ?inc k = map_of incoming k"
      by (auto simp: map_of_update map_of_delete split: option.splits)
    show "protected current ?inc b"
      using True by (auto simp: protected_def map_of_update map_of_delete split: option.splits)
  qed
next
  case False
  let ?n = "attr_name b"
  let ?inc = "if attr_mutability b = ''immutable'' \<and> map_of current ?n \<noteq> None \<and> map_of incoming ?n = None
    then AList.update ?n (the (map_of current ?n)) incoming else incoming"
  have other: "\<forall>k. k \<noteq> ?n \<longrightarrow> map_of ?inc k = map_of incoming k" by (simp add: map_of_update)
  from assms False have eq: "attr_mutability b = ''immutable'' \<Longrightarrow> map_of current ?n = Some v \<Longrightarrow>
      map_of incoming ?n = Some w \<Longrightarrow> deep_equal v w" for v w
    unfolding enforceAttributeMutability.simps Let_def by (auto split: if_splits)
  have prot: "protected current ?inc b"
    using False eq by (cases "map_of incoming ?n") (auto simp: protected_def map_of_update)
  define j where "j = ?inc"
  from assms False obtain inc where rec: "enforceAttributeMutability current inc rest = Inr out"
    and inc: "inc = j \<or> (attr_type b = ''complex'' \<and> (\<exists>v. inc = AList.update ?n v j))"
    unfolding enforceAttributeMutability.simps Let_def j_def [symmetric]
    by (simp add: result_simps split: if_splits option.splits) blast+
  from inc other have "\<forall>k. k \<noteq> ?n \<longrightarrow> map_of inc k = map_of incoming k"
    unfolding j_def [symmetric] by (auto simp: map_of_update)
  moreover from inc prot False have "protected current inc b"
    unfolding j_def [symmetric] by (auto simp: protected_def)
  ultimately show thesis using that rec by blast
qed

lemma enforce_frame:
  "enforceAttributeMutability current incoming attributes = Inr out \<Longrightarrow>
     k \<notin> attr_name ` set attributes \<Longrightarrow> map_of out k = map_of incoming k"
proof (induction attributes arbitrary: incoming)
  case (Cons b rest)
  then show ?case by (elim enforce_step) auto
qed simp

lemma enforce_protects:
  "enforceAttributeMutability current incoming attributes = Inr out \<Longrightarrow>
     distinct (map attr_name attributes) \<Longrightarrow> a \<in> set attributes \<Longrightarrow> protected current out a"
proof (induction attributes arbitrary: incoming)
  case (Cons b rest)
  from Cons.prems(1) obtain inc where inc: "enforceAttributeMutability current inc rest = Inr out"
    and b: "protected current inc b" by (rule enforce_step)
  show ?case
  proof (cases "a = b")
    case True
    with Cons.prems(2) have "attr_name a \<notin> attr_name ` set rest" by simp
    from enforce_frame [OF inc this] b True show ?thesis by (simp add: protected_def)
  next
    case False
    with Cons.prems Cons.IH [OF inc] show ?thesis by simp
  qed
qed simp

text \<open>Extensions live under their own names, so what the core attributes keep stays kept.\<close>

lemma enforce_extension_frame:
  "enforce_extension current extension incoming = Inr out \<Longrightarrow> k \<noteq> ext_schema extension \<Longrightarrow> map_of out k = map_of incoming k"
  by (auto simp: enforce_extension_def result_simps map_of_update split: option.splits)

lemma enforce_extensions_frame:
  "for_each (enforce_extension current) es incoming = Inr out \<Longrightarrow> k \<notin> ext_schema ` set es \<Longrightarrow>
     map_of out k = map_of incoming k"
  by (induction es arbitrary: incoming) (auto simp: result_simps enforce_extension_frame)

lemma replacement_protects:
  assumes "enforceReplacementMutability d current incoming = Inr out"
    and "distinct (map attr_name (def_attributes d))" and "a \<in> set (def_attributes d)"
    and "attr_name a \<notin> ext_schema ` set (extensions d)"
  shows "protected current out a"
proof -
  obtain core where core: "enforceAttributeMutability current incoming (def_attributes d) = Inr core"
    and ext: "for_each (enforce_extension current) (extensions d) core = Inr out"
    using assms(1) by (auto simp: enforceReplacementMutability_def result_simps)
  from enforce_protects [OF core assms(2,3)] enforce_extensions_frame [OF ext assms(4)]
  show ?thesis by (simp add: protected_def)
qed

text \<open>Stripping removes every read-only attribute and keeps the others that are not complex.\<close>

lemma strip_frame:
  "k \<notin> attr_name ` set attributes \<Longrightarrow>
     map_of (stripReadOnlyAttributes object attributes None) k = map_of object k"
  by (induction attributes arbitrary: object)
    (auto simp: stripReadOnlyAttributes.simps map_of_update map_of_delete split: option.splits)

lemma strip_removes:
  "distinct (map attr_name attributes) \<Longrightarrow> a \<in> set attributes \<Longrightarrow> attr_mutability a = ''readOnly'' \<Longrightarrow>
     map_of (stripReadOnlyAttributes object attributes None) (attr_name a) = None"
proof (induction attributes arbitrary: object)
  case (Cons b rest)
  show ?case
  proof (cases "a = b")
    case True
    with Cons.prems show ?thesis
      by (simp add: stripReadOnlyAttributes.simps strip_frame map_of_delete)
  next
    case False
    with Cons show ?thesis by (auto simp: stripReadOnlyAttributes.simps split: option.splits)
  qed
qed simp

lemma update_keys: "set (keys (AList.update k v m)) = insert k (set (keys m))"
  by (simp add: dom_map_of_conv_image_fst [symmetric] map_of_update)

end
