(* ===== verification/Scim_Numbers.thy ===== *)
theory Scim_Numbers
  imports Scim_Codec Complex_Main
begin

text \<open>
  Exact numbers (filter_expression.go, exactFilterNumber): a JSON number as a mantissa and a
  power of ten, which is what \<^verbatim>\<open>big.Rat.SetString\<close> reads, with its limits on the exponent;
  \<^verbatim>\<open>Rat.Cmp\<close> and \<^verbatim>\<open>Rat.IsInt\<close> on that form; and the overflow test of
  \<^verbatim>\<open>strconv.ParseFloat\<close>, the only way it rejects a JSON number. The functions are defined on JSON numbers,
  which is what decoded documents and lexed filters hold.
\<close>

type_synonym decimal = "int \<times> int"

text \<open>The exponent part of a number: the sign and the digits after \<^verbatim>\<open>e\<close>.\<close>

definition exponent_of :: "string \<Rightarrow> int" where
  "exponent_of s =
     (case s of
        c # x # ds \<Rightarrow>
          if x = CHR ''-'' then - int (read_nat ds)
          else if x = CHR ''+'' then int (read_nat ds) else int (read_nat (x # ds))
      | _ \<Rightarrow> 0)"

text \<open>Mantissa, number of fraction digits and exponent of a JSON number.\<close>

definition number_parts :: "string \<Rightarrow> (int \<times> nat \<times> int) option" where
  "number_parts s =
     (let (sg, s0) = lex_sign s in
      Option.bind (lex_int s0) (\<lambda>(i, s1).
      Option.bind (lex_frac s1) (\<lambda>(f, s2).
      Option.bind (lex_exp s2) (\<lambda>(x, s3).
        if s3 \<noteq> [] then None
        else
          let n = int (read_nat (i @ drop 1 f))
          in Some (if sg = [] then n else - n, length f - 1, exponent_of x)))))"

definition exactFilterNumber :: "string \<Rightarrow> decimal option" where
  "exactFilterNumber s =
     Option.bind (number_parts s) (\<lambda>(m, digits, x).
       if x < - (2 ^ 63) \<or> 2 ^ 63 \<le> x then None
       else if m = 0 then Some (0, 0)
       else if 1000000 < \<bar>x - int digits\<bar> then None
       else Some (m, x - int digits))"

definition scale :: "int \<Rightarrow> decimal \<Rightarrow> int" where
  "scale low d = fst d * 10 ^ nat (snd d - low)"

definition compare_decimals :: "decimal \<Rightarrow> decimal \<Rightarrow> int" where
  "compare_decimals d d' =
     (let low = min (snd d) (snd d'); x = scale low d; y = scale low d'
      in if x < y then - 1 else if y < x then 1 else 0)"

definition is_integral :: "decimal \<Rightarrow> bool" where
  "is_integral d \<longleftrightarrow> 0 \<le> snd d \<or> fst d mod 10 ^ nat (- snd d) = 0"

definition float_overflows :: "int \<times> nat \<times> int \<Rightarrow> bool" where
  "float_overflows = (\<lambda>(m, digits, x).
     m \<noteq> 0
     \<and> (let k = x - int digits; bound = 2 ^ 1024 - 2 ^ 970 in
        if 0 \<le> k then bound \<le> \<bar>m\<bar> * 10 ^ nat k else bound * 10 ^ nat (- k) \<le> \<bar>m\<bar>))"

text \<open>Whether a word of a filter is a number token.\<close>

definition number_word :: "string \<Rightarrow> bool" where
  "number_word w = (case number_parts w of None \<Rightarrow> False | Some p \<Rightarrow> \<not> float_overflows p)"

section \<open>Decimals denote rationals\<close>

definition decimal_value :: "decimal \<Rightarrow> rat" where
  "decimal_value d = of_int (fst d) * 10 powi snd d"

lemma scale_value:
  assumes "low \<le> snd d"
  shows "of_int (scale low d) = decimal_value d * 10 powi (- low)"
proof -
  have "(10::rat) ^ nat (snd d - low) = 10 powi (snd d - low)"
    using assms by (simp add: power_int_def)
  also have "\<dots> = 10 powi snd d * 10 powi (- low)"
    by (simp add: power_int_add [symmetric])
  finally show ?thesis by (simp add: scale_def decimal_value_def)
qed

lemma compare_decimals_value:
  "compare_decimals d d' =
     (if decimal_value d < decimal_value d' then - 1
      else if decimal_value d' < decimal_value d then 1 else 0)"
proof -
  let ?low = "min (snd d) (snd d')"
  let ?k = "(10::rat) powi (- ?low)"
  have k: "0 < ?k" by simp
  have less: "scale ?low x < scale ?low y \<longleftrightarrow> decimal_value x < decimal_value y"
    if "?low \<le> snd x" "?low \<le> snd y" for x y
  proof -
    have "scale ?low x < scale ?low y \<longleftrightarrow> (of_int (scale ?low x) :: rat) < of_int (scale ?low y)" by simp
    also have "\<dots> \<longleftrightarrow> decimal_value x * ?k < decimal_value y * ?k" by (simp only: scale_value that)
    also have "\<dots> \<longleftrightarrow> decimal_value x < decimal_value y" using k by (rule mult_less_cancel_right_pos)
    finally show ?thesis .
  qed
  show ?thesis unfolding compare_decimals_def Let_def by (simp add: less)
qed

lemma is_integral_value: "is_integral d \<longleftrightarrow> decimal_value d \<in> \<int>"
proof (cases "0 \<le> snd d")
  case True
  then have "decimal_value d = of_int (fst d * 10 ^ nat (snd d))"
    by (simp add: decimal_value_def power_int_def)
  then show ?thesis using True by (simp only: is_integral_def Ints_of_int) simp
next
  case False
  define p :: int where "p = 10 ^ nat (- snd d)"
  have p: "0 < p" by (simp add: p_def)
  have v: "decimal_value d * of_int p = of_int (fst d)"
    using False by (simp add: decimal_value_def power_int_def p_def field_simps)
  show ?thesis
  proof
    assume "is_integral d"
    with False obtain q where "fst d = p * q" by (auto simp: is_integral_def p_def)
    with v p have "decimal_value d = of_int q" by (simp add: mult.commute)
    then show "decimal_value d \<in> \<int>" by simp
  next
    assume "decimal_value d \<in> \<int>"
    then obtain q where "decimal_value d = of_int q" by (elim Ints_cases)
    with v have "(of_int (q * p) :: rat) = of_int (fst d)" by simp
    then have "fst d = q * p" by (simp only: of_int_eq_iff)
    then show "is_integral d" by (simp add: is_integral_def p_def)
  qed
qed

end
