(* ===== verification/Scim_Resource.thy ===== *)
theory Scim_Resource
  imports Scim_Mutability Scim_Numbers
begin

text \<open>
  Preparing a resource for storage (prepareResource and its helpers in resource.go): what is
  stripped, normalised and validated between the document a client sends and the canonical
  document, its storage indexes and its external identifier.

  Helpers that change a map while they range over it (\<^verbatim>\<open>removeUnassigned\<close>,
  \<^verbatim>\<open>normalizePrimaryValues\<close>) treat each entry on its own, so they are maps over the entries.
\<close>

section \<open>Unassigned and primary values\<close>

text \<open>removeUnassigned on the value of one entry: \<^const>\<open>None\<close> when the entry is deleted.\<close>

definition unassigned_item :: "json \<Rightarrow> bool" where
  "unassigned_item item \<longleftrightarrow> item = JNull \<or> item = JStr []"

fun assigned_value :: "json \<Rightarrow> json option"
  and removeUnassigned :: "document \<Rightarrow> bool \<Rightarrow> document" where
  "assigned_value JNull = None"
| "assigned_value (JStr s) = (if s = [] then None else Some (JStr s))"
| "assigned_value (JArr xs) =
     (if xs = [] then None
      else
        let kept = map (\<lambda>item. case item of JObj m \<Rightarrow> JObj (removeUnassigned m False) | _ \<Rightarrow> item)
                     (filter (\<lambda>item. \<not> unassigned_item item) xs)
        in if kept = [] then None else Some (JArr kept))"
| "assigned_value (JObj m) = Some (JObj (removeUnassigned m False))"
| "assigned_value v = Some v"
| "removeUnassigned [] topLevel = []"
| "removeUnassigned ((key, v) # rest) topLevel =
     (if topLevel \<and> key = ''schemas'' then (key, v) # removeUnassigned rest topLevel
      else (case assigned_value v of
              None \<Rightarrow> removeUnassigned rest topLevel
            | Some w \<Rightarrow> (key, w) # removeUnassigned rest topLevel))"

definition is_primary :: "json \<Rightarrow> bool" where
  "is_primary raw \<longleftrightarrow>
     Option.bind (Option.bind (as_object raw) (\<lambda>m. map_of m ''primary'')) as_bool = Some True"

text \<open>The index of the last element that claims to be primary, and the demotion of the others.\<close>

definition last_primary :: "json list \<Rightarrow> nat option" where
  "last_primary xs =
     foldl (\<lambda>acc (index, raw). if is_primary raw then Some index else acc) None (List.enumerate 0 xs)"

definition demote :: "json \<Rightarrow> json" where
  "demote raw =
     (case as_object raw of
        None \<Rightarrow> raw
      | Some m \<Rightarrow> if has_key m ''primary'' then JObj (AList.update ''primary'' (JBool False) m) else raw)"

definition single_primary :: "json list \<Rightarrow> json list" where
  "single_primary xs =
     (case last_primary xs of
        None \<Rightarrow> xs
      | Some lastPrimary \<Rightarrow>
          map (\<lambda>(index, raw). if index = lastPrimary then raw else demote raw) (List.enumerate 0 xs))"

fun normalize_value :: "json \<Rightarrow> json"
  and normalizePrimaryValues :: "document \<Rightarrow> document" where
  "normalize_value (JArr xs) =
     JArr (single_primary
       (map (\<lambda>item. case item of JObj m \<Rightarrow> JObj (normalizePrimaryValues m) | _ \<Rightarrow> item) xs))"
| "normalize_value (JObj m) = JObj (normalizePrimaryValues m)"
| "normalize_value v = v"
| "normalizePrimaryValues [] = []"
| "normalizePrimaryValues ((key, v) # rest) = (key, normalize_value v) # normalizePrimaryValues rest"

section \<open>The schema set\<close>

definition admitted_extensions :: "platform \<Rightarrow> Extension list \<Rightarrow> (string \<times> Extension) list" where
  "admitted_extensions P es =
     foldl (\<lambda>m extension. AList.update (to_lower P (ext_schema extension)) extension m) [] es"

text \<open>The extension's object, moved under the canonical spelling of its schema.\<close>

definition take_extension :: "platform \<Rightarrow> Extension \<Rightarrow> document \<Rightarrow> json option \<times> document" where
  "take_extension P extension document =
     (case map_of document (ext_schema extension) of
        Some object \<Rightarrow> (Some object, document)
      | None \<Rightarrow>
          (case List.find (\<lambda>(key, _). equal_fold P key (ext_schema extension)) document of
             None \<Rightarrow> (None, document)
           | Some (key, candidate) \<Rightarrow>
               (Some candidate, AList.update (ext_schema extension) candidate (AList.delete key document))))"

definition validate_extension :: "platform \<Rightarrow> Extension \<Rightarrow> document \<Rightarrow> document result" where
  "validate_extension P extension document =
     (let (object, document) = take_extension P extension document in
      case Option.bind object as_object of
        None \<Rightarrow> Inl (OtherError ''extension must be an object'')
      | Some extensionObject \<Rightarrow>
          (case ext_validate extension of
             None \<Rightarrow> Inr document
           | Some validate \<Rightarrow>
               and_then (validate extensionObject) (\<lambda>checked.
                 Inr (AList.update (ext_schema extension) (JObj checked) document))))"

text \<open>
  The loop over the schemas of the document: the canonical spellings so far, the document, the
  folded names seen and whether the base schema was among them.
\<close>

fun schema_values :: "platform \<Rightarrow> ResourceDefinition \<Rightarrow> json list \<Rightarrow> document \<Rightarrow> string list \<Rightarrow> bool
    \<Rightarrow> (json list \<times> document \<times> string list \<times> bool) result" where
  "schema_values P definition [] document seen base = Inr ([], document, seen, base)"
| "schema_values P definition (raw # rest) document seen base =
     (case as_string raw of
        None \<Rightarrow> Inl (OtherError ''schemas contains a non-string value'')
      | Some schema \<Rightarrow>
          let folded = to_lower P schema in
          if schema = [] then Inl (OtherError ''schemas contains a non-string value'')
          else if List.member seen folded then Inl (OtherError ''schemas contains a case-equivalent duplicate'')
          else if equal_fold P schema (def_schema definition) then
            and_then (schema_values P definition rest document (folded # seen) True)
              (\<lambda>(values, out). Inr (JStr (def_schema definition) # values, out))
          else
            (case map_of (admitted_extensions P (extensions definition)) folded of
               None \<Rightarrow> Inl (OtherError ''schemas contains an unsupported extension'')
             | Some extension \<Rightarrow>
                 and_then (validate_extension P extension document) (\<lambda>document.
                   and_then (schema_values P definition rest document (folded # seen) base)
                     (\<lambda>(values, out). Inr (JStr (ext_schema extension) # values, out)))))"

definition validateSchemaSet :: "platform \<Rightarrow> ResourceDefinition \<Rightarrow> document \<Rightarrow> document result" where
  "validateSchemaSet P definition document =
     (case Option.bind (map_of document ''schemas'') as_array of
        None \<Rightarrow> Inl (OtherError ''schemas do not match the resource definition'')
      | Some values \<Rightarrow>
          if length values = 0 \<or> length (extensions definition) + 1 < length values
          then Inl (OtherError ''schemas do not match the resource definition'')
          else and_then (schema_values P definition values document [] False)
            (\<lambda>(values, document, seen, base).
              if \<not> base then Inl (OtherError ''base resource schema is missing'')
              else if list_ex (\<lambda>extension. ext_required extension
                       \<and> \<not> List.member seen (to_lower P (ext_schema extension))) (extensions definition)
              then Inl (OtherError ''required extension is missing'')
              else Inr (AList.update ''schemas'' (JArr values) document)))"

section \<open>User and Group\<close>

definition top_level_ok :: "platform \<Rightarrow> ResourceDefinition \<Rightarrow> (string \<times> string) list \<Rightarrow> string \<times> json \<Rightarrow> bool" where
  "top_level_ok P definition allowed = (\<lambda>(key, v).
     (case map_of allowed key of
        None \<Rightarrow> List.member (map (\<lambda>extension. to_lower P (ext_schema extension)) (extensions definition)) (to_lower P key)
      | Some typeName \<Rightarrow>
          if typeName = ''string'' then as_string v \<noteq> None
          else if typeName = ''boolean'' then as_bool v \<noteq> None
          else if typeName = ''array'' then as_array v \<noteq> None
          else if typeName = ''object'' then as_object v \<noteq> None
          else True))"

definition validateTopLevel :: "platform \<Rightarrow> ResourceDefinition \<Rightarrow> document \<Rightarrow> (string \<times> string) list \<Rightarrow> unit result" where
  "validateTopLevel P definition document allowed =
     check (list_all (top_level_ok P definition allowed) document) (OtherError ''attribute is unsupported or mistyped'')"

definition user_allowed :: "(string \<times> string) list" where
  "user_allowed =
     [(''schemas'', ''array''), (''externalId'', ''string''), (''userName'', ''string''), (''name'', ''object''),
      (''displayName'', ''string''), (''nickName'', ''string''), (''profileUrl'', ''string''), (''title'', ''string''),
      (''userType'', ''string''), (''preferredLanguage'', ''string''), (''locale'', ''string''), (''timezone'', ''string''),
      (''active'', ''boolean''), (''emails'', ''array''), (''phoneNumbers'', ''array''), (''ims'', ''array''),
      (''photos'', ''array''), (''addresses'', ''array''), (''entitlements'', ''array''), (''roles'', ''array''),
      (''x509Certificates'', ''array'')]"

text \<open>A check of an attribute that may be absent.\<close>

definition if_present :: "document \<Rightarrow> string \<Rightarrow> (json \<Rightarrow> unit result) \<Rightarrow> unit result" where
  "if_present document name f = (case map_of document name of None \<Rightarrow> Inr () | Some v \<Rightarrow> f v)"

definition user_values_ok :: "document \<Rightarrow> unit result" where
  "user_values_ok document =
     and_then (traverse (\<lambda>name. optionalString document name maximumStringBytes)
       [''externalId'', ''displayName'', ''nickName'', ''profileUrl'', ''title'', ''userType'', ''preferredLanguage'', ''locale'', ''timezone'']) (\<lambda>_.
     and_then (if_present document ''active'' (\<lambda>v. check (as_bool v \<noteq> None) (OtherError ''active must be boolean''))) (\<lambda>_.
     and_then (if_present document ''name'' (\<lambda>v. validateStringObject v
       [''formatted'', ''familyName'', ''givenName'', ''middleName'', ''honorificPrefix'', ''honorificSuffix''])) (\<lambda>_.
     and_then (traverse (\<lambda>name. if_present document name (\<lambda>v. validateMultiValue v [''value'', ''display'', ''type'', ''$ref'']))
       [''emails'', ''phoneNumbers'', ''ims'', ''photos'', ''entitlements'', ''roles'', ''x509Certificates'']) (\<lambda>_.
     if_present document ''addresses'' (\<lambda>v. validateMultiValue v
       [''formatted'', ''streetAddress'', ''locality'', ''region'', ''postalCode'', ''country'', ''type''])))))"

definition validateUser :: "platform \<Rightarrow> ResourceDefinition \<Rightarrow> document \<Rightarrow> document result" where
  "validateUser P definition document =
     and_then (validateTopLevel P definition document user_allowed) (\<lambda>_.
     and_then (requiredString document ''userName'' 1024) (\<lambda>userName.
     if trim_space userName \<noteq> userName then Inl (OtherError ''userName is required and invalid'')
     else
       (case precis_username P userName of
          None \<Rightarrow> Inl (OtherError ''userName fails international string preparation'')
        | Some userName \<Rightarrow>
            if userName = [] then Inl (OtherError ''userName fails international string preparation'')
            else
              let document = AList.update ''userName'' (JStr userName) document in
              and_then (user_values_ok document) (\<lambda>_. Inr document))))"

definition without_display :: "json \<Rightarrow> json" where
  "without_display raw =
     (case as_object raw of None \<Rightarrow> raw | Some member \<Rightarrow> JObj (AList.delete ''display'' member))"

definition validateGroup :: "platform \<Rightarrow> ResourceDefinition \<Rightarrow> document \<Rightarrow> document result" where
  "validateGroup P definition document =
     and_then (validateTopLevel P definition document
       [(''schemas'', ''array''), (''externalId'', ''string''), (''displayName'', ''string''), (''members'', ''array'')]) (\<lambda>_.
     and_then (requiredString document ''displayName'' maximumStringBytes) (\<lambda>displayName.
     if trim_space displayName \<noteq> displayName then Inl (OtherError ''displayName is required and invalid'')
     else and_then (optionalString document ''externalId'' maximumStringBytes) (\<lambda>_.
       (case Option.bind (map_of document ''members'') as_array of
          None \<Rightarrow> Inr document
        | Some raws \<Rightarrow>
            let members = map without_display raws in
            and_then (validateMultiValue (JArr members) [''value'', ''$ref'', ''display'', ''type'']) (\<lambda>_.
            and_then (traverse (\<lambda>raw. requiredString (the (as_object raw)) ''value'' 1024) members) (\<lambda>_.
              Inr (AList.update ''members'' (JArr members) document)))))))"

section \<open>Attribute values\<close>

definition base64_std_alphabet :: string where
  "base64_std_alphabet = ''ABCDEFGHIJKLMNOPQRSTUVWXYZabcdefghijklmnopqrstuvwxyz0123456789+/''"

text \<open>Whether base64.StdEncoding decodes a text: padded groups of four, line ends ignored.\<close>

definition base64_decodes :: "string \<Rightarrow> bool" where
  "base64_decodes s \<longleftrightarrow>
     (let t = filter (\<lambda>c. c \<noteq> CHR 0x0A \<and> c \<noteq> CHR 0x0D) s;
          body = (if has_suffix t ''=='' then take (length t - 2) t else trim_suffix t ''='')
      in length t mod 4 = 0 \<and> list_all (List.member base64_std_alphabet) body)"

definition reference_ok :: "platform \<Rightarrow> string list \<Rightarrow> string \<Rightarrow> bool" where
  "reference_ok P kinds txt \<longleftrightarrow>
     (case url_parse P txt of
        None \<Rightarrow> False
      | Some parsed \<Rightarrow>
          \<not> (url_scheme parsed = [] \<and> \<not> has_prefix txt ''/'') \<and> \<not> url_has_user parsed
          \<and> (\<forall>kind \<in> set kinds. kind = ''external'' \<longrightarrow>
               url_scheme parsed = ''https'' \<or> url_scheme parsed = ''http''))"

text \<open>The types other than complex; \<^const>\<open>None\<close> stands for the others.\<close>

definition scalar_value_ok :: "platform \<Rightarrow> SchemaAttribute \<Rightarrow> json \<Rightarrow> bool option" where
  "scalar_value_ok P attribute v =
     (let ty = attr_type attribute; txt = as_string v in
      if ty = ''string'' then Some (case txt of None \<Rightarrow> False | Some s \<Rightarrow> validString s maximumStringBytes)
      else if ty = ''reference'' then
        Some (case txt of None \<Rightarrow> False
              | Some s \<Rightarrow> validString s maximumStringBytes \<and> reference_ok P (reference_types attribute) s)
      else if ty = ''boolean'' then Some (as_bool v \<noteq> None)
      else if ty = ''integer'' then
        Some (case v of JNum s \<Rightarrow> (case exactFilterNumber s of None \<Rightarrow> False | Some d \<Rightarrow> is_integral d) | _ \<Rightarrow> False)
      else if ty = ''decimal'' then Some (case v of JNum s \<Rightarrow> exactFilterNumber s \<noteq> None | _ \<Rightarrow> False)
      else if ty = ''dateTime'' then Some (case txt of None \<Rightarrow> False | Some s \<Rightarrow> time_parse P s \<noteq> None)
      else if ty = ''binary'' then Some (case txt of None \<Rightarrow> False | Some s \<Rightarrow> base64_decodes s)
      else None)"

definition value_error :: scim_error where
  "value_error = OtherError ''attribute value is invalid''"

function (sequential) validateAttributeValues :: "platform \<Rightarrow> document \<Rightarrow> SchemaAttribute list \<Rightarrow> unit result"
  and validateAttributeValue :: "platform \<Rightarrow> json \<Rightarrow> SchemaAttribute \<Rightarrow> unit result" where
  "validateAttributeValues P object [] = Inr ()"
| "validateAttributeValues P object (attribute # rest) =
     and_then
       (case map_of object (attr_name attribute) of
          None \<Rightarrow> check (\<not> attr_required attribute) (OtherError ''required attribute is missing'')
        | Some v \<Rightarrow>
            if multi_valued attribute then
              (case as_array v of
                 None \<Rightarrow> Inl (OtherError ''attribute must be multi-valued'')
               | Some xs \<Rightarrow> and_then (traverse (\<lambda>x. validateAttributeValue P x attribute) xs) (\<lambda>_. Inr ()))
            else if as_array v \<noteq> None then Inl (OtherError ''attribute must be singular'')
            else validateAttributeValue P v attribute)
       (\<lambda>_. validateAttributeValues P object rest)"
| "validateAttributeValue P v attribute =
     (case scalar_value_ok P attribute v of
        Some ok \<Rightarrow> check ok value_error
      | None \<Rightarrow>
          if attr_type attribute = ''complex'' then
            (case as_object v of
               None \<Rightarrow> Inl value_error
             | Some object \<Rightarrow>
                 if list_all (\<lambda>name. List.member (map attr_name (sub_attributes attribute)) name) (keys object)
                 then validateAttributeValues P object (sub_attributes attribute)
                 else Inl (OtherError ''attribute is not in the schema''))
          else Inl (OtherError ''type is unsupported''))"
  by pat_completeness auto
termination
  by (relation "measure (\<lambda>x. case x of
        Inl (P, object, attributes) \<Rightarrow> 2 * size_list size attributes
      | Inr (P, v, attribute) \<Rightarrow> Suc (2 * size attribute))")
    (auto simp: less_SucI sub_attributes_size)

definition validateAttributeValuesExact :: "platform \<Rightarrow> document \<Rightarrow> SchemaAttribute list \<Rightarrow> unit result" where
  "validateAttributeValuesExact P object attributes =
     (if list_all (\<lambda>name. List.member (map attr_name attributes) name) (keys object)
      then validateAttributeValues P object attributes
      else Inl (OtherError ''attribute is not in the schema''))"

end
