(* ===== verification/Scim_Etag.thy ===== *)
theory Scim_Etag
  imports Scim_Names
begin

text \<open>
  Entity tags (etag.go): the version of a canonical representation, the parser of If-Match and
  If-None-Match headers, and the two comparisons. The parser's position in the header is the
  text that is left.
\<close>

record entityTag =
  opaque :: string
  weak :: bool

record entityTags =
  star :: bool
  tags :: "entityTag list"

definition hex_byte :: "char \<Rightarrow> string" where
  "hex_byte c =
     (let d = (\<lambda>n. if n < 10 then char_of (48 + n) else char_of (87 + n))
      in [d (byte c div 16), d (byte c mod 16)])"

definition Version :: "platform \<Rightarrow> string \<Rightarrow> string result" where
  "Version P canonical =
     (if canonical = [] \<or> 1048576 < length canonical
      then Inl (OtherError ''canonical resource state has an invalid size'')
      else Inr (CHR 0x22 # concat (map hex_byte (sha256 P canonical)) @ [CHR 0x22]))"

definition opaque_char :: "char \<Rightarrow> bool" where
  "opaque_char c \<longleftrightarrow> \<not> (byte c \<noteq> 0x21 \<and> (byte c < 0x23 \<or> 0x7E < byte c) \<and> byte c < 0x80)"

fun scan_opaque :: "string \<Rightarrow> (string \<times> string) result" where
  "scan_opaque [] = Inl (OtherError ''entity-tag is unterminated'')"
| "scan_opaque (c # s) =
     (if c = CHR 0x22 then Inr ([], s)
      else if \<not> opaque_char c then Inl (OtherError ''entity-tag contains an invalid character'')
      else and_then (scan_opaque s) (\<lambda>(u, r). Inr (c # u, r)))"

definition is_separator :: "char \<Rightarrow> bool" where
  "is_separator c \<longleftrightarrow> is_blank c \<or> c = CHR '',''"

lemma scan_opaque_shorter: "scan_opaque s = Inr (u, r) \<Longrightarrow> length r < length s"
  by (induction s arbitrary: u r) (auto simp: result_simps split: if_splits)

function scan_tags :: "string \<Rightarrow> entityTag list result" where
  "scan_tags s =
     (let v = dropWhile is_separator s in
      if v = [] then Inr []
      else
        let wk = has_prefix v ''W/''; v = (if wk then drop 2 v else v) in
        if v = [] \<or> hd v \<noteq> CHR 0x22 then Inl (OtherError ''entity-tag is malformed'')
        else and_then (scan_opaque (tl v)) (\<lambda>(u, r).
          let r = dropWhile is_blank r in
          if r \<noteq> [] \<and> hd r \<noteq> CHR '','' then Inl (OtherError ''entity-tags must be comma separated'')
          else and_then (scan_tags r) (\<lambda>ts. Inr (\<lparr>opaque = u, weak = wk\<rparr> # ts))))"
  by pat_completeness auto
termination
proof (relation "measure length", goal_cases)
  case (2 s v wk v' ur u r r')
  then have "length r' \<le> length r" by (simp add: length_dropWhile_le)
  moreover have "length r < length (tl v')" using 2 by (auto dest: scan_opaque_shorter)
  moreover have "length (tl v') \<le> length v" using 2 by auto
  moreover have "length v \<le> length s" using 2 by (simp add: length_dropWhile_le)
  ultimately show ?case by simp
qed simp

declare scan_tags.simps [simp del]

definition parseEntityTags :: "string \<Rightarrow> entityTags result" where
  "parseEntityTags raw =
     (let val = trim_blanks raw in
      if val = ''*'' then Inr \<lparr>star = True, tags = []\<rparr>
      else if val = [] then Inl (OtherError ''entity-tag list is empty'')
      else and_then (scan_tags val) (\<lambda>ts.
        if ts = [] then Inl (OtherError ''entity-tag list is empty'')
        else Inr \<lparr>star = False, tags = ts\<rparr>))"

definition parseSingleStrongTag :: "string \<Rightarrow> string result" where
  "parseSingleStrongTag current =
     (case parseEntityTags current of
        Inl e \<Rightarrow> Inl (OtherError ''current resource version is not one strong entity-tag'')
      | Inr parsed \<Rightarrow>
          if star parsed \<or> length (tags parsed) \<noteq> 1 \<or> weak (hd (tags parsed))
          then Inl (OtherError ''current resource version is not one strong entity-tag'')
          else Inr (opaque (hd (tags parsed))))"

definition IfMatch :: "string \<Rightarrow> string \<Rightarrow> bool \<Rightarrow> bool result" where
  "IfMatch header current exists =
     (if header = [] then Inr True
      else and_then (parseEntityTags header) (\<lambda>candidates.
        if \<not> exists then Inr False
        else and_then (parseSingleStrongTag current) (\<lambda>currentTag.
          if star candidates then Inr True
          else Inr (list_ex (\<lambda>c. \<not> weak c \<and> opaque c = currentTag) (tags candidates)))))"

definition IfNoneMatch :: "string \<Rightarrow> string \<Rightarrow> bool \<Rightarrow> bool result" where
  "IfNoneMatch header current exists =
     (if header = [] \<or> \<not> exists then Inr True
      else and_then (parseEntityTags header) (\<lambda>candidates.
        and_then (parseSingleStrongTag current) (\<lambda>currentTag.
          if star candidates then Inr False
          else Inr (\<not> list_ex (\<lambda>c. opaque c = currentTag) (tags candidates)))))"

section \<open>Printed headers parse back\<close>

definition tag_text :: "entityTag \<Rightarrow> string" where
  "tag_text t = (if weak t then ''W/'' else []) @ CHR 0x22 # opaque t @ [CHR 0x22]"

definition tag_ok :: "entityTag \<Rightarrow> bool" where
  "tag_ok t \<longleftrightarrow> list_all (\<lambda>c. opaque_char c \<and> c \<noteq> CHR 0x22) (opaque t)"

definition header_text :: "entityTag list \<Rightarrow> string" where
  "header_text ts = join_with '', '' (map tag_text ts)"

lemma scan_opaque_text:
  "list_all (\<lambda>c. opaque_char c \<and> c \<noteq> CHR 0x22) u \<Longrightarrow> scan_opaque (u @ CHR 0x22 # r) = Inr (u, r)"
  by (induction u) auto

lemma scan_opaque_chars:
  "scan_opaque s = Inr (u, r) \<Longrightarrow> list_all (\<lambda>c. opaque_char c \<and> c \<noteq> CHR 0x22) u"
  by (induction s arbitrary: u r) (auto simp: result_simps split: if_splits)

lemma tag_text_head: "\<exists>c r. tag_text t = c # r \<and> \<not> is_separator c \<and> c \<noteq> CHR ''*''"
  by (auto simp: tag_text_def is_separator_def is_blank_def)

lemma tag_text_last: "\<exists>r. tag_text t = r @ [CHR 0x22]"
  by (auto simp: tag_text_def)

lemma scan_tags_step:
  assumes "tag_ok t" and "\<forall>c \<in> set sep. is_separator c"
    and "r = [] \<or> hd r = CHR '',''"
  shows "scan_tags (sep @ tag_text t @ r) = and_then (scan_tags r) (\<lambda>ts. Inr (t # ts))"
proof -
  obtain c q where c: "tag_text t = c # q" "\<not> is_separator c" using tag_text_head by blast
  have drop: "dropWhile is_separator (sep @ tag_text t @ r) = tag_text t @ r"
    using assms(2) c by (simp add: dropWhile_append2)
  have blank: "dropWhile is_blank r = r" using assms(3) by (cases r) (auto simp: is_blank_def)
  have opq: "scan_opaque (opaque t @ CHR 0x22 # r) = Inr (opaque t, r)"
    using assms(1) by (intro scan_opaque_text) (simp add: tag_ok_def)
  obtain u w where t: "t = \<lparr>opaque = u, weak = w\<rparr>" by (cases t) blast
  have sepd: "r = [] \<or> (\<exists>q. r = CHR '','' # q)" using assms(3) by (cases r) auto
  show ?thesis
    unfolding scan_tags.simps [of "sep @ tag_text t @ r"] drop using blank opq sepd
    by (cases w) (auto simp: tag_text_def Let_def t)
qed

lemma scan_tags_header:
  "list_all tag_ok ts \<Longrightarrow> \<forall>c \<in> set sep. is_separator c \<Longrightarrow> scan_tags (sep @ header_text ts) = Inr ts"
proof (induction ts arbitrary: sep)
  case Nil
  then have "dropWhile is_separator sep = []" by simp
  then show ?case by (simp add: header_text_def scan_tags.simps [of sep])
next
  case (Cons t ts)
  let ?r = "if ts = [] then [] else '', '' @ header_text ts"
  have hdr: "header_text (t # ts) = tag_text t @ ?r"
    by (cases ts) (simp_all add: header_text_def)
  have "scan_tags ?r = Inr ts"
  proof (cases "ts = []")
    case True
    then show ?thesis by (simp add: scan_tags.simps)
  next
    case False
    then show ?thesis using Cons.IH [of "'', ''"] Cons.prems
      by (simp add: is_separator_def is_blank_def)
  qed
  then show ?case
    using Cons.prems scan_tags_step [of t sep ?r] by (simp add: hdr)
qed

lemma trim_blanks_edges:
  assumes "\<not> is_blank c" and "\<not> is_blank d"
  shows "trim_blanks (c # s @ [d]) = c # s @ [d]"
  using assms by (simp add: trim_blanks_def)

lemma parse_header_text:
  assumes "list_all tag_ok ts" and "ts \<noteq> []"
  shows "parseEntityTags (header_text ts) = Inr \<lparr>star = False, tags = ts\<rparr>"
proof -
  have head: "\<exists>c s. header_text ts = c # s \<and> \<not> is_separator c \<and> c \<noteq> CHR ''*''"
  proof -
    from assms(2) obtain t us where ts: "ts = t # us" by (cases ts) auto
    obtain c r where "tag_text t = c # r" "\<not> is_separator c" "c \<noteq> CHR ''*''"
      using tag_text_head by blast
    then show ?thesis by (cases us) (simp_all add: ts header_text_def)
  qed
  have "\<exists>s. header_text us = s @ [CHR 0x22]" if "us \<noteq> []" for us
    using that
  proof (induction us rule: list_nonempty_induct)
    case (single t)
    then show ?case using tag_text_last by (simp add: header_text_def)
  next
    case (cons t us)
    then obtain s where "header_text us = s @ [CHR 0x22]" by blast
    moreover have "header_text (t # us) = (tag_text t @ '', '') @ header_text us"
      using cons by (cases us) (simp_all add: header_text_def)
    ultimately show ?case by simp
  qed
  with head assms(2) obtain c s d where t: "header_text ts = c # s" "\<not> is_separator c" "c \<noteq> CHR ''*''"
    "header_text ts = d @ [CHR 0x22]" by metis
  have "trim_blanks (header_text ts) = header_text ts"
  proof (cases d)
    case Nil
    with t show ?thesis by (simp add: trim_blanks_def is_separator_def)
  next
    case (Cons e d')
    with t show ?thesis using trim_blanks_edges [of c "CHR 0x22" d'] by (simp add: is_separator_def is_blank_def)
  qed
  moreover have "scan_tags (header_text ts) = Inr ts" using scan_tags_header [OF assms(1), of "[]"] by simp
  ultimately show ?thesis using t assms(2) by (auto simp: parseEntityTags_def Let_def)
qed

lemma header_text_single: "header_text [t] = tag_text t"
  by (simp add: header_text_def)

lemma strong_tag_text:
  "tag_ok t \<Longrightarrow> \<not> weak t \<Longrightarrow> parseSingleStrongTag (tag_text t) = Inr (opaque t)"
  using parse_header_text [of "[t]"] by (simp add: header_text_single parseSingleStrongTag_def)

lemma hex_byte_opaque: "list_all (\<lambda>c. opaque_char c \<and> c \<noteq> CHR 0x22) (hex_byte b)"
proof -
  have "byte b div 16 < 16" "byte b mod 16 < 16" by (simp_all add: byte_div_16)
  moreover have "opaque_char (if n < 10 then char_of (48 + n) else char_of (87 + n))
      \<and> (if n < 10 then char_of (48 + n) else char_of (87 + n)) \<noteq> CHR 0x22"
    if "n < 16" for n :: nat
  proof -
    have "opaque_char (char_of m) \<and> char_of m \<noteq> CHR 0x22" if "0x23 \<le> m" "m < 0x7F" for m :: nat
    proof -
      have m: "byte (char_of m) = m" using that by simp
      then have "byte (char_of m) \<noteq> byte (CHR 0x22)" using that by simp
      moreover have "opaque_char (char_of m)" unfolding opaque_char_def m using that by linarith
      ultimately show ?thesis by metis
    qed
    then show ?thesis using that by simp
  qed
  ultimately show ?thesis by (simp add: hex_byte_def Let_def)
qed

lemma Version_strong:
  assumes "Version P canonical = Inr v"
  shows "parseSingleStrongTag v = Inr (concat (map hex_byte (sha256 P canonical)))"
proof -
  let ?u = "concat (map hex_byte (sha256 P canonical))"
  have "list_all (\<lambda>c. opaque_char c \<and> c \<noteq> CHR 0x22) ?u"
    using hex_byte_opaque by (auto simp: list_all_iff)
  moreover have "v = tag_text \<lparr>opaque = ?u, weak = False\<rparr>"
    using assms by (auto simp: Version_def tag_text_def split: if_splits)
  ultimately show ?thesis using strong_tag_text [of "\<lparr>opaque = ?u, weak = False\<rparr>"]
    by (simp add: tag_ok_def)
qed

end
