(* ===== verification/Scim_Records.thy ===== *)
theory Scim_Records
  imports Scim_Schema Scim_Etag Scim_Raw
begin

text \<open>
  What is stored (store.go, record.go): index keys, records, tombstones and queries, the
  validation of a record against its own data, its version, and the two constructors that build
  the record of a new and of a changed resource.

  A time is its number of nanoseconds; zero is the zero time. \<^verbatim>\<open>Record.Created\<close> and \<^verbatim>\<open>LastModified\<close> are
  always in UTC without a monotonic reading, so comparing two of them compares instants.
\<close>

section \<open>Types\<close>

record IndexKey =
  ix_name :: string
  ix_value :: string
  ix_case_exact :: bool
  ix_unique :: bool

record Record =
  rec_scope :: string
  rec_type :: string
  rec_id :: string
  rec_external :: string
  rec_manager :: string
  rec_version :: string
  rec_credential :: string
  rec_created :: int
  rec_modified :: int
  rec_data :: string
  rec_indexes :: "IndexKey list"

record Tombstone =
  tomb_scope :: string
  tomb_type :: string
  tomb_id :: string
  tomb_external :: string
  tomb_manager :: string
  tomb_version :: string
  tomb_deleted :: int

record Query =
  q_scope :: string
  q_type :: string
  q_attribute :: string
  q_value :: string
  q_limit :: int

section \<open>Versions\<close>

definition version_state :: "Record \<Rightarrow> string" where
  "version_state r =
     object_text
       ([(''resourceType'', quoted (rec_type r)), (''id'', quoted (rec_id r)),
         (''data'', compact False (rec_data r))]
        @ (if rec_credential r = [] then [] else [(''credentialVersion'', quoted (rec_credential r))]))"

definition calculateRecordVersion :: "platform \<Rightarrow> Record \<Rightarrow> string result" where
  "calculateRecordVersion P r =
     (if \<not> json_valid (rec_data r) then Inl (OtherError ''encode resource version state'')
      else Version P (version_state r))"

section \<open>Validation\<close>

text \<open>The loop over the indexes; \<open>seen\<close> holds the folded names so far.\<close>

fun record_indexes :: "platform \<Rightarrow> document \<Rightarrow> IndexKey list \<Rightarrow> string list \<Rightarrow> unit result" where
  "record_indexes P document [] seen = Inr ()"
| "record_indexes P document (index # rest) seen =
     (if \<not> validAttributeName (ix_name index) \<or> ix_value index = []
         \<or> \<not> validString (ix_value index) maximumStringBytes
      then Inl (OtherError ''record index is invalid'')
      else
        let folded = to_lower P (ix_name index) in
        if List.member seen folded then Inl (OtherError ''record index is duplicated'')
        else
          (case stringPath document (ix_name index) of
             Inl _ \<Rightarrow> Inl (OtherError ''record index does not match canonical data'')
           | Inr found \<Rightarrow>
               if found \<noteq> Some (ix_value index)
               then Inl (OtherError ''record index does not match canonical data'')
               else record_indexes P document rest (folded # seen)))"

definition validateRecord :: "platform \<Rightarrow> Record \<Rightarrow> unit result" where
  "validateRecord P r =
     (if rec_scope r = [] \<or> \<not> validString (rec_scope r) 1024 \<or> \<not> validName (rec_type r)
         \<or> \<not> validResourceID (rec_id r) \<or> \<not> validString (rec_manager r) 1024
         \<or> \<not> validString (rec_external r) maximumStringBytes
      then Inl (OtherError ''record identity is invalid'')
      else if rec_version r = [] \<or> rec_created r = 0 \<or> rec_modified r < rec_created r
              \<or> rec_data r = [] \<or> MaximumResourceBytes < length (rec_data r)
      then Inl (OtherError ''record metadata is invalid'')
      else if rec_credential r \<noteq> [] \<and> \<not> validString (rec_credential r) 1024
      then Inl (OtherError ''record credential version is invalid'')
      else and_then (or_error (parseSingleStrongTag (rec_version r)) (OtherError ''record version is invalid'')) (\<lambda>_.
        and_then (or_error (DecodeDocument P (rec_data r)) (OtherError ''record data is invalid'')) (\<lambda>document.
          if optionalString document ''externalId'' maximumStringBytes \<noteq> Inr (rec_external r)
          then Inl (OtherError ''record external identity does not match data'')
          else if calculateRecordVersion P r \<noteq> Inr (rec_version r)
          then Inl (OtherError ''record version does not match canonical data'')
          else record_indexes P document (rec_indexes r) [])))"

section \<open>Construction\<close>

text \<open>
  The variadic credential version is \<^const>\<open>None\<close> when the caller leaves it out.
\<close>

definition newRecord :: "platform \<Rightarrow> string \<Rightarrow> string \<Rightarrow> string \<Rightarrow> string \<Rightarrow> string \<Rightarrow> document
    \<Rightarrow> IndexKey list \<Rightarrow> int \<Rightarrow> string option \<Rightarrow> Record result" where
  "newRecord P scope manager resourceType i externalID document indexes now credential =
     and_then (canonicalDocument document) (\<lambda>data.
       let r = \<lparr>rec_scope = scope, rec_type = resourceType, rec_id = i, rec_external = externalID,
                rec_manager = manager, rec_version = [],
                rec_credential = (case credential of None \<Rightarrow> [] | Some c \<Rightarrow> c),
                rec_created = now, rec_modified = now, rec_data = data, rec_indexes = indexes\<rparr> in
       and_then (calculateRecordVersion P r) (\<lambda>version.
         let r = r\<lparr>rec_version := version\<rparr> in
         and_then (validateRecord P r) (\<lambda>_. Inr r)))"

definition replacementRecord :: "platform \<Rightarrow> Record \<Rightarrow> string \<Rightarrow> document \<Rightarrow> IndexKey list \<Rightarrow> int
    \<Rightarrow> string option \<Rightarrow> (Record \<times> bool) result" where
  "replacementRecord P current externalID document indexes now credential =
     and_then (canonicalDocument document) (\<lambda>data.
       let cred = (case credential of None \<Rightarrow> rec_credential current | Some c \<Rightarrow> c) in
       if data = rec_data current \<and> externalID = rec_external current \<and> cred = rec_credential current
       then Inr (current, False)
       else
         let updated = current\<lparr>rec_data := data, rec_external := externalID, rec_indexes := indexes,
                               rec_credential := cred,
                               rec_modified := (if now \<le> rec_modified current then rec_modified current + 1 else now)\<rparr> in
         and_then (calculateRecordVersion P updated) (\<lambda>version.
           let updated = updated\<lparr>rec_version := version\<rparr> in
           and_then (validateRecord P updated) (\<lambda>_. Inr (updated, True))))"

section \<open>Facts\<close>

text \<open>What the stores and the server rely on when a record has been validated.\<close>

definition record_ok :: "platform \<Rightarrow> Record \<Rightarrow> bool" where
  "record_ok P r \<longleftrightarrow> validateRecord P r = Inr ()"

lemma record_ok_fields:
  assumes "record_ok P r"
  shows "rec_scope r \<noteq> []" and "validName (rec_type r)" and "validResourceID (rec_id r)"
    and "rec_created r \<le> rec_modified r" and "rec_created r \<noteq> 0"
    and "calculateRecordVersion P r = Inr (rec_version r)"
    and "\<exists>m. DecodeDocument P (rec_data r) = Inr m
           \<and> optionalString m ''externalId'' maximumStringBytes = Inr (rec_external r)
           \<and> record_indexes P m (rec_indexes r) [] = Inr ()"
    and "\<exists>t. parseSingleStrongTag (rec_version r) = Inr t"
  using assms unfolding record_ok_def validateRecord_def
  by (simp_all add: result_simps split: if_splits)

lemma record_indexes_Inr:
  "record_indexes P m ixs seen = Inr () \<Longrightarrow>
     distinct (map (\<lambda>ix. to_lower P (ix_name ix)) ixs)
     \<and> (\<forall>ix \<in> set ixs. to_lower P (ix_name ix) \<notin> set seen \<and> ix_value ix \<noteq> []
          \<and> stringPath m (ix_name ix) = Inr (Some (ix_value ix)))"
proof (induction ixs arbitrary: seen)
  case (Cons ix ixs)
  let ?f = "to_lower P (ix_name ix)"
  from Cons.prems have ix: "ix_value ix \<noteq> []" "?f \<notin> set seen"
      "stringPath m (ix_name ix) = Inr (Some (ix_value ix))"
    and rest: "record_indexes P m ixs (?f # seen) = Inr ()"
    by (auto simp: Let_def split: if_splits sum.splits)
  from Cons.IH [OF rest] ix show ?case by auto
qed simp

lemma newRecord_ok:
  assumes "newRecord P scope manager ty i ext document indexes now credential = Inr r"
  shows "record_ok P r" and "rec_scope r = scope" and "rec_type r = ty" and "rec_id r = i"
    and "rec_external r = ext" and "rec_manager r = manager" and "rec_indexes r = indexes"
    and "rec_created r = now" and "rec_modified r = now" and "canonicalDocument document = Inr (rec_data r)"
  using assms by (auto simp: newRecord_def result_simps Let_def record_ok_def)

text \<open>
  A replacement either changes nothing, or gives a valid record of the same identity, creation
  time and manager that was modified strictly later.
\<close>

lemma replacementRecord_ok:
  assumes "replacementRecord P current ext document indexes now credential = Inr (r, changed)"
  shows "rec_scope r = rec_scope current" and "rec_type r = rec_type current" and "rec_id r = rec_id current"
    and "rec_created r = rec_created current" and "rec_manager r = rec_manager current"
    and "\<not> changed \<Longrightarrow> r = current"
    and "changed \<Longrightarrow> record_ok P r \<and> rec_modified current < rec_modified r \<and> now \<le> rec_modified r"
    and "rec_external r = ext" and "canonicalDocument document = Inr (rec_data r)"
  using assms
  by (auto simp: replacementRecord_def result_simps Let_def record_ok_def split: if_splits)

text \<open>Presenting the state a record already has changes nothing.\<close>

lemma replacementRecord_same:
  assumes "canonicalDocument document = Inr (rec_data current)"
  shows "replacementRecord P current (rec_external current) document indexes now None = Inr (current, False)"
  using assms by (simp add: replacementRecord_def)

end
