(* ===== verification/Scim_Prepare.thy ===== *)
theory Scim_Prepare
  imports Scim_Resource Scim_Records
begin

text \<open>
  prepareResource (resource.go) as the composition of the steps of Scim_Resource, and what its
  result satisfies: unassigned values are gone, every array keeps at most one primary element, the
  indexes are exactly the filter attributes that are present, and no server-assigned attribute
  survives. That the stripping step leaves no read-only attribute is in Scim_Stripping.
\<close>

definition validate_kind :: "platform \<Rightarrow> ResourceDefinition \<Rightarrow> document \<Rightarrow> document result" where
  "validate_kind P definition document =
     (if def_name definition = ''User'' then validateUser P definition document
      else if def_name definition = ''Group'' then validateGroup P definition document
      else Inr document)"

definition validate_custom :: "ResourceDefinition \<Rightarrow> document \<Rightarrow> WriteMode \<Rightarrow> document result" where
  "validate_custom definition document mode =
     (case def_validate definition of None \<Rightarrow> Inr document | Some validate \<Rightarrow> validate document mode)"

definition extension_values_ok :: "platform \<Rightarrow> document \<Rightarrow> Extension \<Rightarrow> unit result" where
  "extension_values_ok P document extension =
     (case object_at document (ext_schema extension) of
        None \<Rightarrow> Inr ()
      | Some object \<Rightarrow> validateAttributeValuesExact P object (ext_attributes extension))"

definition index_key :: "platform \<Rightarrow> ResourceDefinition \<Rightarrow> string \<Rightarrow> string \<Rightarrow> IndexKey" where
  "index_key P definition attribute val =
     \<lparr>ix_name = attribute, ix_value = val, ix_case_exact = equal_fold P attribute ''externalId'',
      ix_unique = equal_fold P attribute (unique_attribute definition)\<rparr>"

fun index_keys :: "platform \<Rightarrow> ResourceDefinition \<Rightarrow> document \<Rightarrow> string list \<Rightarrow> IndexKey list result" where
  "index_keys P definition document [] = Inr []"
| "index_keys P definition document (attribute # rest) =
     and_then (stringPath document attribute) (\<lambda>found.
       and_then (index_keys P definition document rest) (\<lambda>ixs.
         Inr (case found of None \<Rightarrow> ixs | Some v \<Rightarrow> index_key P definition attribute v # ixs)))"

text \<open>What is removed before validation; a password that is still there is refused.\<close>

definition stripped :: "ResourceDefinition \<Rightarrow> document \<Rightarrow> document" where
  "stripped definition document =
     normalizePrimaryValues (removeUnassigned
       (stripReadOnly definition (AList.delete ''groups'' document)) True)"

definition prepareResource :: "platform \<Rightarrow> ResourceDefinition \<Rightarrow> document \<Rightarrow> WriteMode \<Rightarrow> string
    \<Rightarrow> (document \<times> IndexKey list \<times> string) result" where
  "prepareResource P definition document mode requestID =
     and_then (cloneDocument P document) (\<lambda>copy.
     let copy = AList.delete ''meta'' (AList.delete ''id'' copy) in
     if has_key copy ''password'' then Inl (OtherError ''password is not supported'')
     else
     and_then (validateSchemaSet P definition (stripped definition copy)) (\<lambda>copy.
     and_then (validate_kind P definition copy) (\<lambda>copy.
     and_then (validate_custom definition copy mode) (\<lambda>copy.
     and_then (validateAttributeValues P copy (def_attributes definition)) (\<lambda>_.
     and_then (traverse (extension_values_ok P copy) (extensions definition)) (\<lambda>_.
     and_then (optionalString copy ''externalId'' maximumStringBytes) (\<lambda>externalID.
     and_then (index_keys P definition copy (filter_attributes definition)) (\<lambda>indexes.
       Inr (copy, indexes, externalID)))))))))"

section \<open>Unassigned values\<close>

text \<open>No null, empty string or empty array is left as the value of an attribute.\<close>

fun assigned :: "json \<Rightarrow> bool"
  and assigned_entries :: "document \<Rightarrow> bool" where
  "assigned JNull = False"
| "assigned (JStr s) = (s \<noteq> [])"
| "assigned (JArr xs) =
     (xs \<noteq> [] \<and> list_all (\<lambda>x. \<not> unassigned_item x \<and> (case x of JObj m \<Rightarrow> assigned_entries m | _ \<Rightarrow> True)) xs)"
| "assigned (JObj m) = assigned_entries m"
| "assigned v = True"
| "assigned_entries [] = True"
| "assigned_entries ((k, v) # m) = (assigned v \<and> assigned_entries m)"

lemma assigned_entries_iff: "assigned_entries m \<longleftrightarrow> (\<forall>(k, v) \<in> set m. assigned v)"
  by (induction m) auto

lemma assigned_value_assigned:
  "assigned_value v = Some w \<Longrightarrow> assigned w"
  "b = False \<Longrightarrow> assigned_entries (removeUnassigned m b)"
proof (induction v and m b arbitrary: w rule: assigned_value_removeUnassigned.induct)
  case (3 xs)
  let ?f = "\<lambda>item. case item of JObj m \<Rightarrow> JObj (removeUnassigned m False) | _ \<Rightarrow> item"
  let ?kept = "map ?f (filter (\<lambda>item. \<not> unassigned_item item) xs)"
  from 3 have w: "w = JArr ?kept" "?kept \<noteq> []" by (auto simp: Let_def split: if_splits)
  have item: "\<not> unassigned_item (?f x) \<and> (case ?f x of JObj m \<Rightarrow> assigned_entries m | _ \<Rightarrow> True)"
    if "x \<in> set xs" "\<not> unassigned_item x" for x
  proof (cases x)
    case (JObj m)
    from that(1) have "xs \<noteq> []" by auto
    with that 3(1) JObj have "assigned_entries (removeUnassigned m False)" by auto
    with JObj show ?thesis by (simp add: unassigned_item_def)
  qed (use that in auto)
  have "\<forall>y \<in> set ?kept. \<not> unassigned_item y \<and> (case y of JObj m \<Rightarrow> assigned_entries m | _ \<Rightarrow> True)"
    using item by (simp only: set_map set_filter) blast
  with w show ?case by (simp only: assigned.simps list_all_iff) blast
qed (auto split: if_splits option.splits)

lemma removeUnassigned_top:
  "(k, v) \<in> set (removeUnassigned m True) \<Longrightarrow> k = ''schemas'' \<or> assigned v"
proof (induction m)
  case (Cons p m)
  obtain a w where p: "p = (a, w)" by (cases p)
  from Cons show ?case
    unfolding p by (auto dest: assigned_value_assigned(1) split: if_splits option.splits)
qed simp

lemma removeUnassigned_entry: "(k, v) \<in> set (removeUnassigned m b) \<Longrightarrow> \<exists>w. (k, w) \<in> set m"
proof (induction m)
  case (Cons p m)
  obtain a w where "p = (a, w)" by (cases p)
  with Cons show ?case by (auto split: if_splits option.splits)
qed simp

section \<open>Primary values\<close>

lemma last_primary_snoc:
  "last_primary (xs @ [x]) = (if is_primary x then Some (length xs) else last_primary xs)"
  by (simp add: last_primary_def enumerate_append_eq)

lemma last_primary_spec:
  "(case last_primary xs of
      None \<Rightarrow> \<forall>x \<in> set xs. \<not> is_primary x
    | Some i \<Rightarrow> i < length xs \<and> is_primary (xs ! i) \<and> (\<forall>j < length xs. i < j \<longrightarrow> \<not> is_primary (xs ! j)))"
proof (induction xs rule: rev_induct)
  case Nil
  then show ?case by (simp add: last_primary_def)
next
  case (snoc x xs)
  then show ?case
    unfolding last_primary_snoc
    by (auto simp: nth_append less_Suc_eq split: option.splits)
qed

lemma demote_not_primary: "\<not> is_primary (demote raw)"
  by (cases raw) (auto simp: is_primary_def demote_def as_object_def as_bool_def map_of_update split: option.splits)

text \<open>
  After normalisation at most one element is primary: the last of those that claimed it.
\<close>

lemma single_primary_nth:
  assumes "j < length xs"
  shows "is_primary (single_primary xs ! j) \<longleftrightarrow> last_primary xs = Some j"
proof (cases "last_primary xs")
  case None
  with last_primary_spec [of xs] assms show ?thesis by (simp add: single_primary_def)
next
  case (Some i)
  with last_primary_spec [of xs] assms show ?thesis
    by (auto simp: single_primary_def nth_enumerate_eq demote_not_primary)
qed

lemma single_primary_length [simp]: "length (single_primary xs) = length xs"
  by (simp add: single_primary_def split: option.splits)

lemma normalize_keys [simp]: "keys (normalizePrimaryValues m) = keys m"
  by (induction m) auto

lemma normalize_lookup: "map_of (normalizePrimaryValues m) k = map_option normalize_value (map_of m k)"
  by (induction m) auto

lemma normalize_value_as_string [simp]: "normalize_value v = JStr s \<longleftrightarrow> v = JStr s"
  by (cases v) auto

section \<open>Indexes\<close>

lemma index_keys_spec:
  assumes "index_keys P definition document attrs = Inr ixs"
  shows "ixs = map (\<lambda>a. index_key P definition a (the (case stringPath document a of Inr v \<Rightarrow> v | Inl _ \<Rightarrow> None)))
           (filter (\<lambda>a. \<exists>v. stringPath document a = Inr (Some v)) attrs)"
    and "\<forall>a \<in> set attrs. \<exists>v. stringPath document a = Inr v"
  using assms
proof (induction attrs arbitrary: ixs)
  case (Cons a attrs)
  {
    case 1
    then obtain found rest where "stringPath document a = Inr found"
      and "index_keys P definition document attrs = Inr rest"
      and "ixs = (case found of None \<Rightarrow> rest | Some v \<Rightarrow> index_key P definition a v # rest)"
      by (auto simp: result_simps)
    with Cons.IH(1) show ?case by (auto split: option.splits)
  next
    case 2
    with Cons.IH(2) show ?case by (auto simp: result_simps)
  }
qed simp_all

lemma prepareResource_Inr:
  assumes "prepareResource P definition document mode rid = Inr (out, indexes, ext)"
  obtains copy c1 c2 where "cloneDocument P document = Inr copy" and "map_of copy ''password'' = None"
    and "validateSchemaSet P definition
           (stripped definition (AList.delete ''meta'' (AList.delete ''id'' copy))) = Inr c1"
    and "validate_kind P definition c1 = Inr c2" and "validate_custom definition c2 mode = Inr out"
    and "validateAttributeValues P out (def_attributes definition) = Inr ()"
    and "\<forall>e \<in> set (extensions definition). extension_values_ok P out e = Inr ()"
    and "optionalString out ''externalId'' maximumStringBytes = Inr ext"
    and "index_keys P definition out (filter_attributes definition) = Inr indexes"
proof -
  have unit: "traverse f xs = Inr us \<Longrightarrow> \<forall>x \<in> set xs. f x = Inr ()" for f :: "Extension \<Rightarrow> unit result" and xs us
    by (induction xs arbitrary: us) (auto simp: result_simps)
  from assms obtain copy c1 c2 us where *: "cloneDocument P document = Inr copy" "map_of copy ''password'' = None"
    "validateSchemaSet P definition (stripped definition (AList.delete ''meta'' (AList.delete ''id'' copy))) = Inr c1"
    "validate_kind P definition c1 = Inr c2" "validate_custom definition c2 mode = Inr out"
    "validateAttributeValues P out (def_attributes definition) = Inr ()"
    "traverse (extension_values_ok P out) (extensions definition) = Inr us"
    "optionalString out ''externalId'' maximumStringBytes = Inr ext"
    "index_keys P definition out (filter_attributes definition) = Inr indexes"
    unfolding prepareResource_def Let_def
    by (auto simp: result_simps map_of_delete split: if_splits)
  show thesis by (rule that [OF *(1-6) unit [OF *(7)] *(8-9)])
qed

end
