(* ===== verification/Scim_Filter.thy ===== *)
theory Scim_Filter
  imports Scim_Schema Scim_Numbers Scim_Raw
begin

text \<open>
  Filters (filter_expression.go, filter.go): the lexer, the recursive-descent parser with its depth bound, the
  validation against a schema and the evaluation on a document.

  The parser reads a list of tokens; at its end it sees \<open>FEOF\<close> for ever, as the code does at
  its last token. The recursion is bounded by the depth check of parseUnary and parseAttribute; the
  two loops over \<^verbatim>\<open>or\<close> and \<^verbatim>\<open>and\<close> carry the number of tokens left as fuel, which is enough because
  every round consumes one (\<open>chain_fuel\<close> in Scim_Filter_Facts).
\<close>

section \<open>Expressions and tokens\<close>

text \<open>
  A comparison keeps its operator as the code spells it. The resolved path and contract, which
  validation fills in, are empty in an expression that has only been parsed.
\<close>

datatype FilterExpression =
    FilterAnd FilterExpression FilterExpression
  | FilterOr FilterExpression FilterExpression
  | FilterNot FilterExpression
  | FilterValuePath string "string list" FilterExpression
  | FilterPresent string "string list"
  | FilterCompare string string json "SchemaAttribute option" "string list"

datatype filterToken =
    FWord string | FString string | FNumber string | FTrue | FFalse | FNull
  | FLeftParen | FRightParen | FLeftBracket | FRightBracket | FEOF

definition maximumFilterBytes :: nat where
  "maximumFilterBytes = 4096"
definition maximumFilterTokens :: nat where
  "maximumFilterTokens = 512"
definition maximumFilterDepth :: nat where
  "maximumFilterDepth = 32"

section \<open>Lexer\<close>

definition word_end :: "char \<Rightarrow> bool" where
  "word_end c \<longleftrightarrow> List.member '' ()[]'' c \<or> c = CHR 0x09"

definition word_token :: "platform \<Rightarrow> string \<Rightarrow> filterToken" where
  "word_token P word =
     (let lower = to_lower P word in
      if lower = ''true'' then FTrue else if lower = ''false'' then FFalse
      else if lower = ''null'' then FNull
      else if number_word word then FNumber word else FWord word)"

definition bracket_token :: "char \<Rightarrow> filterToken option" where
  "bracket_token c =
     (if c = CHR ''('' then Some FLeftParen else if c = CHR '')'' then Some FRightParen
      else if c = CHR 0x5B then Some FLeftBracket else if c = CHR 0x5D then Some FRightBracket else None)"

text \<open>The error of a string that does not unmarshal: unterminated when the text ran out.\<close>

definition string_error :: "string \<Rightarrow> scim_error" where
  "string_error s =
     (let (u, r) = string_span s in
      if r = [] \<and> u \<noteq> [] \<and> last u \<noteq> CHR 0x22
      then OtherError ''SCIM filter string is unterminated'' else OtherError ''SCIM filter string is invalid'')"

lemma word_end_nonempty: "\<not> word_end c \<Longrightarrow> length (dropWhile (\<lambda>x. \<not> word_end x) (c # s)) < length (c # s)"
  by (simp add: le_imp_less_Suc length_dropWhile_le)

lemma bracket_word_end: "bracket_token c = None \<Longrightarrow> \<not> is_blank c \<Longrightarrow> \<not> word_end c"
  by (auto simp: bracket_token_def is_blank_def word_end_def split: if_splits)

lemma dropWhile_head: "dropWhile p s = c # r \<Longrightarrow> \<not> p c"
  by (metis hd_dropWhile list.sel(1) list.simps(3))

lemma head_shorter: "dropWhile is_blank raw = c # r \<Longrightarrow> length r < length raw"
  by (metis length_Cons length_dropWhile_le less_eq_Suc_le)

lemma string_rest_shorter:
  "dropWhile is_blank raw = c # r \<Longrightarrow> lex_string r = Some (v, rest) \<Longrightarrow> length rest < length raw"
  using head_shorter lex_string_shorter by fastforce

lemma word_rest_shorter:
  assumes "dropWhile is_blank raw = c # r" and "bracket_token c = None"
  shows "length (dropWhile (\<lambda>x. \<not> word_end x) (c # r)) < length raw"
proof -
  have "\<not> word_end c" using assms dropWhile_head [OF assms(1)] bracket_word_end by blast
  then have "length (dropWhile (\<lambda>x. \<not> word_end x) (c # r)) < length (c # r)" by (rule word_end_nonempty)
  also have "\<dots> \<le> length raw" using assms(1) by (metis length_dropWhile_le)
  finally show ?thesis .
qed

function (sequential) lex_filter :: "platform \<Rightarrow> nat \<Rightarrow> string \<Rightarrow> filterToken list result" where
  "lex_filter P n raw =
     (case dropWhile is_blank raw of
        [] \<Rightarrow> Inr []
      | c # r \<Rightarrow>
          if maximumFilterTokens \<le> n then Inl (OtherError ''SCIM filter token boundary exceeded'')
          else
            (case bracket_token c of
               Some t \<Rightarrow> and_then (lex_filter P (Suc n) r) (\<lambda>ts. Inr (t # ts))
             | None \<Rightarrow>
                 if c = CHR 0x22 then
                   (case lex_string r of
                      None \<Rightarrow> Inl (string_error r)
                    | Some (v, rest) \<Rightarrow>
                        if \<not> validString v maximumStringBytes
                        then Inl (OtherError ''SCIM filter string is invalid'')
                        else and_then (lex_filter P (Suc n) rest) (\<lambda>ts. Inr (FString v # ts)))
                 else
                   and_then (lex_filter P (Suc n) (dropWhile (\<lambda>x. \<not> word_end x) (c # r)))
                     (\<lambda>ts. Inr (word_token P (takeWhile (\<lambda>x. \<not> word_end x) (c # r)) # ts))))"
  by pat_completeness auto
termination
  by (relation "measure (\<lambda>(P, n, raw). length raw)")
    (auto simp: head_shorter string_rest_shorter word_rest_shorter simp del: dropWhile.simps)

declare lex_filter.simps [simp del]

definition lexFilter :: "platform \<Rightarrow> string \<Rightarrow> filterToken list result" where
  "lexFilter P raw =
     (if raw = [] \<or> maximumFilterBytes < length raw \<or> \<not> valid_utf8 raw \<or> has_control raw
      then Inl (OtherError ''SCIM filter boundary is invalid'')
      else lex_filter P 0 raw)"

section \<open>Parser\<close>

definition peek :: "filterToken list \<Rightarrow> filterToken" where
  "peek ts = (case ts of [] \<Rightarrow> FEOF | t # _ \<Rightarrow> t)"

definition take_token :: "filterToken list \<Rightarrow> filterToken \<times> filterToken list" where
  "take_token ts = (case ts of [] \<Rightarrow> (FEOF, []) | t # r \<Rightarrow> (t, r))"

definition is_word :: "platform \<Rightarrow> string \<Rightarrow> filterToken list \<Rightarrow> bool" where
  "is_word P w ts = (case peek ts of FWord txt \<Rightarrow> equal_fold P txt w | _ \<Rightarrow> False)"

type_synonym 'a parsed = "('a \<times> filterToken list) result"

text \<open>A token that must come next.\<close>

definition expect :: "filterToken \<Rightarrow> string \<Rightarrow> FilterExpression \<times> filterToken list \<Rightarrow> FilterExpression parsed" where
  "expect t message = (\<lambda>(e, ts).
     if fst (take_token ts) = t then Inr (e, snd (take_token ts)) else Inl (OtherError message))"

fun chain :: "nat \<Rightarrow> (filterToken list \<Rightarrow> bool) \<Rightarrow> (FilterExpression \<Rightarrow> FilterExpression \<Rightarrow> FilterExpression)
    \<Rightarrow> (filterToken list \<Rightarrow> FilterExpression parsed) \<Rightarrow> FilterExpression \<Rightarrow> filterToken list
    \<Rightarrow> FilterExpression parsed" where
  "chain 0 goes join_op operand left ts = Inr (left, ts)"
| "chain (Suc n) goes join_op operand left ts =
     (if goes ts then
        and_then (operand (snd (take_token ts)))
          (\<lambda>(right, r). chain n goes join_op operand (join_op left right) r)
      else Inr (left, ts))"

lemma chain_cong [fundef_cong]:
  "n = n' \<Longrightarrow> goes = goes' \<Longrightarrow> join_op = join_op' \<Longrightarrow> (\<And>ts. operand ts = operand' ts) \<Longrightarrow> left = left' \<Longrightarrow> ts = ts' \<Longrightarrow>
     chain n goes join_op operand left ts = chain n' goes' join_op' operand' left' ts'"
  by (metis ext)

definition comparison_operators :: "string list" where
  "comparison_operators = [''eq'', ''ne'', ''co'', ''sw'', ''ew'', ''gt'', ''ge'', ''lt'', ''le'']"

definition token_value :: "filterToken \<Rightarrow> json option" where
  "token_value t =
     (case t of
        FString s \<Rightarrow> Some (JStr s) | FNumber s \<Rightarrow> Some (JNum s)
      | FTrue \<Rightarrow> Some (JBool True) | FFalse \<Rightarrow> Some (JBool False) | FNull \<Rightarrow> Some JNull | _ \<Rightarrow> None)"

text \<open>The part of parseAttribute after the attribute, when no bracket follows.\<close>

definition parse_comparison :: "platform \<Rightarrow> string \<Rightarrow> filterToken list \<Rightarrow> FilterExpression parsed" where
  "parse_comparison P attribute ts =
     (case take_token ts of
        (FWord txt, r) \<Rightarrow>
          let op = to_lower P txt in
          if op = ''pr'' then Inr (FilterPresent attribute [], r)
          else if \<not> oneOf op comparison_operators then Inl (OtherError ''SCIM comparison operator is invalid'')
          else
            (case token_value (fst (take_token r)) of
               None \<Rightarrow> Inl (OtherError ''SCIM comparison value is invalid'')
             | Some v \<Rightarrow> Inr (FilterCompare op attribute v None [], snd (take_token r)))
      | _ \<Rightarrow> Inl (OtherError ''SCIM comparison operator is missing''))"

function (sequential)
    parseOr :: "platform \<Rightarrow> nat \<Rightarrow> filterToken list \<Rightarrow> FilterExpression parsed"
  and parseAnd :: "platform \<Rightarrow> nat \<Rightarrow> filterToken list \<Rightarrow> FilterExpression parsed"
  and parseUnary :: "platform \<Rightarrow> nat \<Rightarrow> filterToken list \<Rightarrow> FilterExpression parsed"
  and parseAttribute :: "platform \<Rightarrow> nat \<Rightarrow> filterToken list \<Rightarrow> FilterExpression parsed" where
  "parseOr P depth ts =
     and_then (parseAnd P (depth + 1) ts) (\<lambda>(left, r).
       chain (length r) (is_word P ''or'') FilterOr (parseAnd P (depth + 1)) left r)"
| "parseAnd P depth ts =
     and_then (parseUnary P (depth + 1) ts) (\<lambda>(left, r).
       chain (length r) (is_word P ''and'') FilterAnd (parseUnary P (depth + 1)) left r)"
| "parseUnary P depth ts =
     (if maximumFilterDepth < depth then Inl (OtherError ''SCIM filter depth exceeded'')
      else if is_word P ''not'' ts then
        (case take_token (snd (take_token ts)) of
           (t, r) \<Rightarrow>
             if t \<noteq> FLeftParen then Inl (OtherError ''SCIM not expression requires parentheses'')
             else and_then (or_error (and_then (parseOr P (depth + 1) r) (expect FRightParen [])) (OtherError ''SCIM not expression is invalid''))
                    (\<lambda>(child, r'). Inr (FilterNot child, r')))
      else if peek ts = FLeftParen then
        or_error (and_then (parseOr P (depth + 1) (snd (take_token ts))) (expect FRightParen []))
          (OtherError ''SCIM grouped filter is invalid'')
      else parseAttribute P (depth + 1) ts)"
| "parseAttribute P depth ts =
     (case (maximumFilterDepth < depth, take_token ts) of
        (False, (FWord attribute, r)) \<Rightarrow>
          if peek r = FLeftBracket then
            and_then (or_error (and_then (parseOr P (depth + 1) (snd (take_token r))) (expect FRightBracket []))
                        (OtherError ''SCIM value-path filter is invalid''))
              (\<lambda>(child, r'). Inr (FilterValuePath attribute [] child, r'))
          else parse_comparison P attribute r
      | _ \<Rightarrow> Inl (OtherError ''SCIM attribute expression is invalid''))"
  by pat_completeness auto
termination
  by (relation "measure (\<lambda>x. case x of
        Inl (Inl (P, depth, ts)) \<Rightarrow> 3 * (40 - depth) + 2
      | Inl (Inr (P, depth, ts)) \<Rightarrow> 3 * (40 - depth) + 1
      | Inr (Inl (P, depth, ts)) \<Rightarrow> 3 * (40 - depth)
      | Inr (Inr (P, depth, ts)) \<Rightarrow> 3 * (40 - depth))")
    (auto simp: maximumFilterDepth_def)

declare parseOr.simps [simp del] parseAnd.simps [simp del] parseUnary.simps [simp del] parseAttribute.simps [simp del]

section \<open>Validation\<close>

definition is_text_operator :: "string \<Rightarrow> bool" where
  "is_text_operator op \<longleftrightarrow> op = ''co'' \<or> op = ''sw'' \<or> op = ''ew''"

definition is_equality :: "string \<Rightarrow> bool" where
  "is_equality op \<longleftrightarrow> op = ''eq'' \<or> op = ''ne''"

definition number_of :: "json \<Rightarrow> decimal option" where
  "number_of v = (case v of JNum s \<Rightarrow> exactFilterNumber s | _ \<Rightarrow> None)"

definition compatibleFilterValue :: "platform \<Rightarrow> SchemaAttribute \<Rightarrow> string \<Rightarrow> json \<Rightarrow> bool" where
  "compatibleFilterValue P contract op v \<longleftrightarrow>
     (let ty = attr_type contract in
      if v = JNull then is_equality op
      else if is_text_operator op then as_string v \<noteq> None \<and> (ty = ''string'' \<or> ty = ''reference'')
      else if ty = ''boolean'' then as_bool v \<noteq> None \<and> is_equality op
      else if ty = ''integer'' \<or> ty = ''decimal'' then
        (case number_of v of None \<Rightarrow> False | Some d \<Rightarrow> ty \<noteq> ''integer'' \<or> is_integral d)
      else if List.member [''dateTime'', ''string'', ''reference'', ''binary''] ty then
        (case as_string v of
           None \<Rightarrow> False
         | Some txt \<Rightarrow>
             if ty = ''binary'' \<and> \<not> is_equality op then False
             else if ty = ''dateTime'' then time_parse P txt \<noteq> None else True)
      else False)"

text \<open>The resolved path and contract are stored in the expression.\<close>

fun validateFilterExpression :: "platform \<Rightarrow> ResourceDefinition \<Rightarrow> SchemaAttribute list option
    \<Rightarrow> FilterExpression \<Rightarrow> FilterExpression result" where
  "validateFilterExpression P definition rel (FilterAnd l r) =
     and_then (validateFilterExpression P definition rel l) (\<lambda>l'.
       and_then (validateFilterExpression P definition rel r) (\<lambda>r'. Inr (FilterAnd l' r')))"
| "validateFilterExpression P definition rel (FilterOr l r) =
     and_then (validateFilterExpression P definition rel l) (\<lambda>l'.
       and_then (validateFilterExpression P definition rel r) (\<lambda>r'. Inr (FilterOr l' r')))"
| "validateFilterExpression P definition rel (FilterNot c) =
     and_then (validateFilterExpression P definition rel c) (\<lambda>c'. Inr (FilterNot c'))"
| "validateFilterExpression P definition rel (FilterValuePath attribute _ c) =
     (case resolveAttributeContract P definition rel attribute of
        None \<Rightarrow> Inl (OtherError ''SCIM value-path attribute is invalid'')
      | Some (path, contract) \<Rightarrow>
          if \<not> multi_valued contract \<or> attr_type contract \<noteq> ''complex''
          then Inl (OtherError ''SCIM value-path attribute is invalid'')
          else and_then (validateFilterExpression P definition (nonnil (sub_attributes contract)) c)
                 (\<lambda>c'. Inr (FilterValuePath attribute path c')))"
| "validateFilterExpression P definition rel (FilterPresent attribute _) =
     (case resolveAttributeContract P definition rel attribute of
        None \<Rightarrow> Inl (OtherError ''SCIM filter attribute is unsupported'')
      | Some (path, contract) \<Rightarrow> Inr (FilterPresent attribute path))"
| "validateFilterExpression P definition rel (FilterCompare op attribute v _ _) =
     (case resolveAttributeContract P definition rel attribute of
        None \<Rightarrow> Inl (OtherError ''SCIM filter attribute is unsupported'')
      | Some (path, contract) \<Rightarrow>
          if \<not> compatibleFilterValue P contract op v
          then Inl (OtherError ''SCIM filter comparison is incompatible with its attribute'')
          else Inr (FilterCompare op attribute v (Some contract) path))"

definition parse_tokens :: "platform \<Rightarrow> filterToken list \<Rightarrow> FilterExpression result" where
  "parse_tokens P ts =
     (case parseOr P 0 ts of
        Inl _ \<Rightarrow> Inl (OtherError ''SCIM filter is invalid'')
      | Inr (e, r) \<Rightarrow> if peek r \<noteq> FEOF then Inl (OtherError ''SCIM filter is invalid'') else Inr e)"

definition parseFilter :: "platform \<Rightarrow> string \<Rightarrow> ResourceDefinition \<Rightarrow> SchemaAttribute list option
    \<Rightarrow> FilterExpression result" where
  "parseFilter P raw definition rel =
     and_then (lexFilter P raw) (\<lambda>ts.
       and_then (parse_tokens P ts) (validateFilterExpression P definition rel))"

definition ParseFilter :: "platform \<Rightarrow> string \<Rightarrow> ResourceDefinition \<Rightarrow> FilterExpression result" where
  "ParseFilter P raw definition = parseFilter P raw definition None"

text \<open>\<^verbatim>\<open>ResourceDefinition{}\<close>\<close>

definition empty_definition :: ResourceDefinition where
  "empty_definition =
     \<lparr>def_name = [], endpoint = [], def_schema = [], def_description = [], def_attributes = [],
      unique_attribute = [], filter_attributes = [], extensions = [], def_validate = None\<rparr>"

definition parseValueFilter :: "platform \<Rightarrow> string \<Rightarrow> SchemaAttribute list \<Rightarrow> FilterExpression result" where
  "parseValueFilter P raw attributes = parseFilter P raw empty_definition (nonnil attributes)"

section \<open>Evaluation\<close>

definition filterPresent :: "json \<Rightarrow> bool" where
  "filterPresent v =
     (case v of
        JNull \<Rightarrow> False | JStr s \<Rightarrow> s \<noteq> [] | JArr xs \<Rightarrow> xs \<noteq> [] | JObj m \<Rightarrow> m \<noteq> [] | _ \<Rightarrow> True)"

definition children :: "string \<Rightarrow> json \<Rightarrow> json list" where
  "children part v =
     (case v of
        JObj m \<Rightarrow> (case map_of m part of Some child \<Rightarrow> [child] | None \<Rightarrow> [])
      | JArr xs \<Rightarrow>
          List.map_filter (\<lambda>item. Option.bind (as_object item) (\<lambda>m. map_of m part)) xs
      | _ \<Rightarrow> [])"

definition flatten_value :: "json \<Rightarrow> json list" where
  "flatten_value v = (case v of JArr xs \<Rightarrow> xs | _ \<Rightarrow> [v])"

definition lookupFilterValues :: "document \<Rightarrow> string list \<Rightarrow> json list" where
  "lookupFilterValues document path =
     (case path of
        [] \<Rightarrow> []
      | first # rest \<Rightarrow>
          (case map_of document first of
             None \<Rightarrow> []
           | Some v \<Rightarrow>
               concat (map flatten_value
                 (foldl (\<lambda>values part. concat (map (children part) values)) [v] rest))))"

definition fold_text :: "platform \<Rightarrow> SchemaAttribute \<Rightarrow> string \<Rightarrow> string" where
  "fold_text P contract s = (if case_exact contract then s else case_fold P s)"

definition compare_with :: "('a \<Rightarrow> 'a \<Rightarrow> bool) \<Rightarrow> 'a \<Rightarrow> 'a \<Rightarrow> int" where
  "compare_with lt x y = (if lt x y then - 1 else if lt y x then 1 else 0)"

text \<open>The three-way comparison of two values under a contract; \<^const>\<open>None\<close> when they do not compare.\<close>

definition orderFilterValues :: "platform \<Rightarrow> json \<Rightarrow> json \<Rightarrow> SchemaAttribute \<Rightarrow> int option" where
  "orderFilterValues P actual expected contract =
     (let ty = attr_type contract in
      if ty = ''string'' \<or> ty = ''reference'' \<or> ty = ''binary'' then
        (case (as_string actual, as_string expected) of
           (Some l, Some r) \<Rightarrow> Some (compare_with (<) (fold_text P contract l) (fold_text P contract r))
         | _ \<Rightarrow> None)
      else if ty = ''dateTime'' then
        (case (Option.bind (as_string actual) (time_parse P), Option.bind (as_string expected) (time_parse P)) of
           (Some l, Some r) \<Rightarrow> Some (compare_with (<) l r)
         | _ \<Rightarrow> None)
      else if ty = ''integer'' \<or> ty = ''decimal'' then
        (case (number_of actual, number_of expected) of
           (Some l, Some r) \<Rightarrow> Some (compare_decimals l r)
         | _ \<Rightarrow> None)
      else if ty = ''boolean'' then
        (case (as_bool actual, as_bool expected) of
           (Some l, Some r) \<Rightarrow> Some (compare_with (<) l r)
         | _ \<Rightarrow> None)
      else None)"

definition compareFilterValue :: "platform \<Rightarrow> json \<Rightarrow> json \<Rightarrow> SchemaAttribute \<Rightarrow> string \<Rightarrow> bool result" where
  "compareFilterValue P actual expected contract op =
     (if expected = JNull \<and> op = ''eq'' then Inr (actual = JNull)
      else if expected = JNull \<and> op = ''ne'' then Inr (actual \<noteq> JNull)
      else if actual = JNull then Inr False
      else if is_text_operator op then
        (case (as_string actual, as_string expected) of
           (Some l, Some r) \<Rightarrow>
             let l = fold_text P contract l; r = fold_text P contract r in
             Inr (if op = ''co'' then contains_sub l r else if op = ''sw'' then has_prefix l r else has_suffix l r)
         | _ \<Rightarrow> Inr False)
      else
        (case orderFilterValues P actual expected contract of
           None \<Rightarrow> Inr False
         | Some comparison \<Rightarrow>
             if op = ''eq'' then Inr (comparison = 0)
             else if op = ''ne'' then Inr (comparison \<noteq> 0)
             else if op = ''gt'' then Inr (0 < comparison)
             else if op = ''ge'' then Inr (0 \<le> comparison)
             else if op = ''lt'' then Inr (comparison < 0)
             else if op = ''le'' then Inr (comparison \<le> 0)
             else Inl (OtherError ''unsupported filter comparison'')))"

text \<open>A loop that stops at the first match or error.\<close>

fun first_match :: "('a \<Rightarrow> bool result) \<Rightarrow> 'a list \<Rightarrow> bool result" where
  "first_match f [] = Inr False"
| "first_match f (x # xs) = and_then (f x) (\<lambda>matched. if matched then Inr True else first_match f xs)"

lemma first_match_cong [fundef_cong]:
  "xs = ys \<Longrightarrow> (\<And>x. x \<in> set ys \<Longrightarrow> f x = g x) \<Longrightarrow> first_match f xs = first_match g ys"
  by (induction ys arbitrary: xs) (auto intro!: arg_cong [where f = "and_then _"])

definition zero_attribute :: SchemaAttribute where
  "zero_attribute = SchemaAttribute [] [] False [] False [] False [] [] [] [] []"

definition contract_of :: "SchemaAttribute option \<Rightarrow> SchemaAttribute" where
  "contract_of c = (case c of None \<Rightarrow> zero_attribute | Some a \<Rightarrow> a)"

text \<open>matchFilter on an expression that is not nil.\<close>

fun match_expression :: "platform \<Rightarrow> FilterExpression \<Rightarrow> document \<Rightarrow> bool result" where
  "match_expression P (FilterAnd l r) document =
     and_then (match_expression P l document) (\<lambda>left. if \<not> left then Inr left else match_expression P r document)"
| "match_expression P (FilterOr l r) document =
     and_then (match_expression P l document) (\<lambda>left. if left then Inr left else match_expression P r document)"
| "match_expression P (FilterNot c) document =
     and_then (match_expression P c document) (\<lambda>matched. Inr (\<not> matched))"
| "match_expression P (FilterValuePath attribute path c) document =
     first_match (\<lambda>v. case as_object v of None \<Rightarrow> Inr False | Some object \<Rightarrow> match_expression P c object)
       (lookupFilterValues document path)"
| "match_expression P (FilterPresent attribute path) document =
     Inr (list_ex filterPresent (lookupFilterValues document path))"
| "match_expression P (FilterCompare op attribute expected contract path) document =
     first_match (\<lambda>v. compareFilterValue P v expected (contract_of contract) op) (lookupFilterValues document path)"

definition matchFilter :: "platform \<Rightarrow> FilterExpression option \<Rightarrow> document \<Rightarrow> bool result" where
  "matchFilter P expression document =
     (case expression of None \<Rightarrow> Inr True | Some e \<Rightarrow> match_expression P e document)"

definition MatchFilter :: "platform \<Rightarrow> FilterExpression option \<Rightarrow> document \<Rightarrow> bool result" where
  "MatchFilter P expression document = matchFilter P expression document"

section \<open>Equality filters\<close>

text \<open>\<open>ParseEqualityFilter\<close> (filter.go): the text up to the first blank, and what follows it.\<close>

definition cut_blank :: "string \<Rightarrow> (string \<times> string) option" where
  "cut_blank s =
     (if takeWhile (\<lambda>c. \<not> is_blank c) s = [] \<or> dropWhile (\<lambda>c. \<not> is_blank c) s = [] then None
      else Some (takeWhile (\<lambda>c. \<not> is_blank c) s, dropWhile (\<lambda>c. \<not> is_blank c) s))"

definition ParseEqualityFilter :: "platform \<Rightarrow> string \<Rightarrow> string \<Rightarrow> string result" where
  "ParseEqualityFilter P raw supportedAttribute =
     (if raw = [] \<or> 4096 < length raw \<or> \<not> valid_utf8 raw \<or> supportedAttribute = []
      then Inl (OtherError ''SCIM filter boundary is invalid'')
      else
        (case cut_blank (trim_space raw) of
           None \<Rightarrow> Inl (OtherError ''only eq filters are supported'')
         | Some (attribute, remainder) \<Rightarrow>
             (case cut_blank (dropWhile is_blank remainder) of
                None \<Rightarrow> Inl (OtherError ''only eq filters are supported'')
              | Some (operator, rest) \<Rightarrow>
                  if \<not> equal_fold P attribute supportedAttribute \<or> \<not> equal_fold P operator ''eq''
                  then Inl (OtherError ''only eq filters are supported'')
                  else
                    let txt = trim_space rest in
                    if length txt < 2 \<or> hd txt \<noteq> CHR 0x22 \<or> last txt \<noteq> CHR 0x22
                    then Inl (OtherError ''SCIM equality value must be quoted'')
                    else
                      let inner = butlast (tl txt) in
                      if List.member inner (CHR 0x22) \<or> has_control inner
                      then Inl (OtherError ''SCIM equality value is invalid'')
                      else Inr inner)))"

end
