(* ===== verification/Scim_Patch.thy ===== *)
theory Scim_Patch
  imports Scim_Struct Scim_Prepare Scim_Filter
begin

text \<open>
  PATCH (patch.go, patch_apply.go): strict decoding of the request, paths, and the application of
  the operations to a private copy of a document. A Go map that the code changes in place is
  returned changed; an array or object that an operation stores is a value of its own, as it is in
  the code until a later operation of the same request appends to a slice that a filtered
  operation stored in several elements.
\<close>

section \<open>Requests\<close>

definition MaximumPatchBytes :: nat where
  "MaximumPatchBytes = 1048576"

record PatchOp =
  op_name :: string
  op_path :: string
  op_value :: string

record PatchRequest =
  patch_schemas :: "string list"
  patch_operations :: "PatchOp list"

definition zero_op :: PatchOp where
  "zero_op = \<lparr>op_name = [], op_path = [], op_value = []\<rparr>"

definition patch_op_fields :: "string list" where
  "patch_op_fields = [''op'', ''path'', ''value'']"

definition assign_op :: "string \<Rightarrow> string \<Rightarrow> PatchOp \<Rightarrow> PatchOp option" where
  "assign_op name raw operation =
     (if name = ''op'' then map_option (\<lambda>s. operation\<lparr>op_name := s\<rparr>) (decode_text (op_name operation) raw)
      else if name = ''path'' then map_option (\<lambda>s. operation\<lparr>op_path := s\<rparr>) (decode_text (op_path operation) raw)
      else Some (operation\<lparr>op_value := raw\<rparr>))"

text \<open>The two fields of the request, decoded as slices.\<close>

definition patch_fields :: "string list" where
  "patch_fields = [''schemas'', ''Operations'']"

definition assign_patch :: "platform \<Rightarrow> string \<Rightarrow> string \<Rightarrow> string slice \<times> PatchOp slice
    \<Rightarrow> (string slice \<times> PatchOp slice) option" where
  "assign_patch P name raw s =
     (if name = ''schemas'' then map_option (\<lambda>v. (v, snd s)) (decode_slice [] decode_text (fst s) raw)
      else map_option (\<lambda>v. (fst s, v))
        (decode_slice zero_op (decode_struct P patch_op_fields assign_op) (snd s) raw))"

definition decode_patch_request :: "platform \<Rightarrow> string \<Rightarrow> PatchRequest option" where
  "decode_patch_request P raw =
     map_option (\<lambda>((schemas, _), (operations, _)). \<lparr>patch_schemas = schemas, patch_operations = operations\<rparr>)
       (decode_struct P patch_fields (assign_patch P) (([], []), ([], [])) (skip_space raw))"

text \<open>One operation of the request: its name in lower case, or an error.\<close>

definition null_text :: "string \<Rightarrow> bool" where
  "null_text raw \<longleftrightarrow> trim_space raw = ''null''"

definition admit_op :: "platform \<Rightarrow> PatchOp \<Rightarrow> PatchOp result" where
  "admit_op P operation =
     (let operation = operation\<lparr>op_name := to_lower P (op_name operation)\<rparr>; op = op_name operation in
      and_then
        (if op = ''add'' \<or> op = ''replace''
         then check (\<not> (op_value operation = [] \<or> null_text (op_value operation)))
                (OtherError ''PATCH operation requires a value'')
         else if op = ''remove''
         then check (\<not> (op_path operation = [] \<or> op_value operation \<noteq> []))
                (OtherError ''PATCH remove operation has an invalid path or value'')
         else Inl (OtherError ''PATCH operation has an invalid op''))
        (\<lambda>_. and_then
          (check (op_path operation = [] \<or> validAttributePath (op_path operation))
             (OtherError ''PATCH operation has an invalid attribute path''))
          (\<lambda>_. Inr operation)))"

definition DecodePatch :: "platform \<Rightarrow> string \<Rightarrow> int \<Rightarrow> PatchRequest result" where
  "DecodePatch P raw maximumOperations =
     (if raw = [] \<or> MaximumPatchBytes < length raw \<or> maximumOperations < 1 \<or> 1000 < maximumOperations
      then Inl (OtherError ''PATCH request boundary is invalid'')
      else and_then (or_error (DecodeDocument P raw) (OtherError ''PATCH request JSON is invalid'')) (\<lambda>_.
        and_then (of_option (OtherError ''PATCH request JSON is invalid'') (decode_patch_request P raw)) (\<lambda>request.
          and_then (ValidateSchemas P (patch_schemas request) [PatchSchema]) (\<lambda>_.
            if patch_operations request = [] \<or> maximumOperations < int (length (patch_operations request))
            then Inl (OtherError ''PATCH operation count is invalid'')
            else and_then (traverse (admit_op P) (patch_operations request)) (\<lambda>operations.
              Inr (request\<lparr>patch_operations := operations\<rparr>))))))"

section \<open>Paths\<close>

record patchPath =
  pp_extension :: string
  pp_attribute :: string
  pp_filter :: string
  pp_sub :: string

definition qualifiedPatchAttribute :: "patchPath \<Rightarrow> string" where
  "qualifiedPatchAttribute path =
     (if pp_extension path \<noteq> [] then pp_extension path @ CHR '':'' # pp_attribute path else pp_attribute path)"

text \<open>The extension prefix of a path, and what is left.\<close>

definition path_extension :: "platform \<Rightarrow> ResourceDefinition \<Rightarrow> string \<Rightarrow> string \<times> string" where
  "path_extension P definition raw =
     (case List.find (\<lambda>extension. urn_prefixed P (ext_schema extension) raw) (extensions definition) of
        None \<Rightarrow> ([], raw)
      | Some extension \<Rightarrow> (ext_schema extension, drop (Suc (length (ext_schema extension))) raw))"

text \<open>Attribute, filter and sub-attribute: the value path up to the last closing bracket, or a dotted name.\<close>

definition split_path :: "string \<Rightarrow> (string \<times> string \<times> string) result" where
  "split_path remaining =
     (if List.member remaining (CHR 0x5B) then
        (let attribute = takeWhile (\<lambda>c. c \<noteq> CHR 0x5B) remaining;
             inside = tl (dropWhile (\<lambda>c. c \<noteq> CHR 0x5B) remaining);
             after = rev (takeWhile (\<lambda>c. c \<noteq> CHR 0x5D) (rev inside));
             filter = rev (tl (dropWhile (\<lambda>c. c \<noteq> CHR 0x5D) (rev inside)))
         in if \<not> List.member inside (CHR 0x5D) \<or> List.member filter (CHR 0x5B)
            then Inl (OtherError ''invalid value path'')
            else (case after of
                    [] \<Rightarrow> Inr (attribute, filter, [])
                  | c # sub \<Rightarrow>
                      if c \<noteq> CHR ''.'' then Inl (OtherError ''invalid value sub-path'')
                      else Inr (attribute, filter, sub)))
      else
        (case split_on (CHR ''.'') remaining of
           [attribute] \<Rightarrow> Inr (attribute, [], [])
         | [attribute, sub] \<Rightarrow> Inr (attribute, [], sub)
         | _ \<Rightarrow> Inl (OtherError ''path is too deep'')))"

definition known_spelling :: "platform \<Rightarrow> string \<Rightarrow> string" where
  "known_spelling P name = admitted_key (CoreKeyCases P) (to_lower P name) name"

definition parsePatchPath :: "platform \<Rightarrow> ResourceDefinition \<Rightarrow> string \<Rightarrow> patchPath result" where
  "parsePatchPath P definition raw =
     (if \<not> validAttributePath raw then Inl (OtherError ''invalid path'')
      else
        let (extension, remaining) = path_extension P definition raw in
        and_then (split_path remaining) (\<lambda>(attribute, filter, sub).
          if \<not> validName attribute \<or> (sub \<noteq> [] \<and> \<not> validName sub)
          then Inl (OtherError ''attribute name is invalid'')
          else
            let path = \<lparr>pp_extension = extension, pp_attribute = known_spelling P attribute,
                        pp_filter = filter, pp_sub = (if sub = [] then [] else known_spelling P sub)\<rparr>;
                qualified = qualifiedPatchAttribute path
                  @ (if pp_sub path = [] then [] else CHR ''.'' # pp_sub path)
            in if resolveAttributeContract P definition None qualified = None
               then Inl (OtherError ''attribute is not in the resource schema'')
               else Inr path))"

section \<open>Values\<close>

definition containsPatchValue :: "json list \<Rightarrow> json \<Rightarrow> bool" where
  "containsPatchValue values candidate \<longleftrightarrow> list_ex (\<lambda>v. deep_equal v candidate) values"

definition append_missing :: "json list \<Rightarrow> json \<Rightarrow> json list" where
  "append_missing values addition =
     (if containsPatchValue values addition then values else values @ [addition])"

definition addValue :: "document \<Rightarrow> string \<Rightarrow> json \<Rightarrow> document" where
  "addValue target attribute v =
     (case Option.bind (map_of target attribute) as_array of
        None \<Rightarrow> AList.update attribute v target
      | Some values \<Rightarrow>
          AList.update attribute
            (JArr (case v of JArr additions \<Rightarrow> foldl append_missing values additions | _ \<Rightarrow> append_missing values v))
            target)"

definition no_target :: "string \<Rightarrow> scim_error" where
  "no_target det = clientError 400 ''noTarget'' det"

text \<open>applyDirectPatch without a sub-attribute.\<close>

definition patch_attribute :: "document \<Rightarrow> string \<Rightarrow> string \<Rightarrow> json \<Rightarrow> document result" where
  "patch_attribute target attribute operation v =
     (if operation = ''remove'' then
        (if has_key target attribute then Inr (AList.delete attribute target)
         else Inl (no_target ''PATCH target does not exist''))
      else if operation = ''replace'' then
        (if has_key target attribute then Inr (AList.update attribute v target)
         else Inl (no_target ''PATCH target does not exist''))
      else if operation = ''add'' then Inr (addValue target attribute v)
      else Inr target)"

definition applyDirectPatch :: "document \<Rightarrow> string \<Rightarrow> string \<Rightarrow> string \<Rightarrow> json \<Rightarrow> document result" where
  "applyDirectPatch target attribute sub operation v =
     (if sub = [] then patch_attribute target attribute operation v
      else
        (case map_of target attribute of
           None \<Rightarrow>
             if operation \<noteq> ''add'' then Inl (no_target ''PATCH parent target does not exist'')
             else Inr (AList.update attribute (JObj [(sub, v)]) target)
         | Some raw \<Rightarrow>
             (case as_object raw of
                None \<Rightarrow> Inl (clientError 400 ''invalidPath'' ''PATCH parent target is not complex'')
              | Some object \<Rightarrow>
                  and_then (patch_attribute object sub operation v) (\<lambda>object.
                    Inr (AList.update attribute (JObj object) target)))))"

text \<open>Whether each element of an array matches a value filter; other than objects never do.\<close>

definition filter_matches :: "platform \<Rightarrow> FilterExpression \<Rightarrow> json list \<Rightarrow> bool list result" where
  "filter_matches P expression values =
     or_error
       (traverse (\<lambda>item. case as_object item of
           None \<Rightarrow> Inr False | Some object \<Rightarrow> matchFilter P (Some expression) object) values)
       (clientError 400 ''invalidFilter'' ''PATCH value-path filter failed'')"

definition merge_object :: "document \<Rightarrow> document \<Rightarrow> document" where
  "merge_object item object = foldl (\<lambda>m (name, field). AList.update name field m) item object"

definition patch_element :: "string \<Rightarrow> string \<Rightarrow> json \<Rightarrow> json \<times> bool \<Rightarrow> json result" where
  "patch_element sub operation v = (\<lambda>(raw, matched).
     (case as_object raw of
        None \<Rightarrow> Inr raw
      | Some item \<Rightarrow>
          if \<not> matched then Inr raw
          else if sub = [] then
            (case as_object v of
               None \<Rightarrow> Inl (clientError 400 ''invalidValue'' ''PATCH filtered replacement must be an object'')
             | Some object \<Rightarrow> Inr (JObj (merge_object item object)))
          else and_then (patch_attribute item sub operation v) (\<lambda>item. Inr (JObj item))))"

definition applyFilteredPatch :: "platform \<Rightarrow> ResourceDefinition \<Rightarrow> document \<Rightarrow> patchPath \<Rightarrow> string \<Rightarrow> json
    \<Rightarrow> document result" where
  "applyFilteredPatch P definition target path operation v =
     (case Option.bind (map_of target (pp_attribute path)) as_array of
        None \<Rightarrow> Inl (no_target ''PATCH value-path target does not exist'')
      | Some values \<Rightarrow>
          (case resolveAttributeContract P definition None (qualifiedPatchAttribute path) of
             None \<Rightarrow> Inl (clientError 400 ''invalidPath'' ''PATCH value-path parent is invalid'')
           | Some (_, parent) \<Rightarrow>
               if attr_type parent \<noteq> ''complex'' \<or> \<not> multi_valued parent
               then Inl (clientError 400 ''invalidPath'' ''PATCH value-path parent is invalid'')
               else
                 and_then (or_error (parseValueFilter P (pp_filter path) (sub_attributes parent))
                   (clientError 400 ''invalidFilter'' ''PATCH value-path filter is unsupported'')) (\<lambda>expression.
                 and_then (filter_matches P expression values) (\<lambda>matches.
                   let put = (\<lambda>values. AList.update (pp_attribute path) (JArr values) target) in
                   if True \<notin> set matches then
                     (if operation = ''remove'' then Inr target
                      else Inl (no_target ''PATCH value-path matched no values''))
                   else if operation = ''remove'' \<and> pp_sub path = [] then
                     Inr (put (map fst (filter (\<lambda>(item, matched). \<not> matched) (zip values matches))))
                   else and_then (traverse (patch_element (pp_sub path) operation v) (zip values matches)) (\<lambda>values.
                     Inr (put values))))))"

section \<open>Operations\<close>

definition ensureSchema :: "platform \<Rightarrow> document \<Rightarrow> string \<Rightarrow> document" where
  "ensureSchema P document schema =
     (let values = (case Option.bind (map_of document ''schemas'') as_array of None \<Rightarrow> [] | Some xs \<Rightarrow> xs) in
      if list_ex (\<lambda>v. case as_string v of None \<Rightarrow> False | Some current \<Rightarrow> equal_fold P current schema) values
      then document
      else AList.update ''schemas'' (JArr (values @ [JStr schema])) document)"

definition patch_whole :: "document \<Rightarrow> string \<Rightarrow> json \<Rightarrow> document result" where
  "patch_whole document operation v =
     (if operation = ''remove'' then Inl (no_target ''PATCH remove requires a path'')
      else
        (case as_object v of
           None \<Rightarrow> Inl (clientError 400 ''invalidValue'' ''pathless PATCH value must be an object'')
         | Some object \<Rightarrow>
             Inr (foldl (\<lambda>document (name, item).
               if operation = ''add'' then addValue document name item
               else AList.update name item document) document object)))"

definition patch_target :: "platform \<Rightarrow> ResourceDefinition \<Rightarrow> document \<Rightarrow> patchPath \<Rightarrow> string \<Rightarrow> json
    \<Rightarrow> document result" where
  "patch_target P definition target path operation v =
     (if pp_filter path = [] then
        (if pp_extension path = [] \<and> pp_attribute path = ''password'' \<and> pp_sub path = []
            \<and> (operation = ''add'' \<or> operation = ''replace'')
         then Inr (AList.update (pp_attribute path) v target)
         else applyDirectPatch target (pp_attribute path) (pp_sub path) operation v)
      else applyFilteredPatch P definition target path operation v)"

definition applyPatchOperation :: "platform \<Rightarrow> ResourceDefinition \<Rightarrow> document \<Rightarrow> string \<Rightarrow> string \<Rightarrow> json
    \<Rightarrow> document result" where
  "applyPatchOperation P definition document operation rawPath v =
     (if rawPath = [] then patch_whole document operation v
      else
        and_then (or_error (parsePatchPath P definition rawPath)
          (clientError 400 ''invalidPath'' ''PATCH path is unsupported'')) (\<lambda>path.
        if pp_extension path = [] then patch_target P definition document path operation v
        else
          (case map_of document (pp_extension path) of
             None \<Rightarrow>
               if operation \<noteq> ''add'' \<or> pp_filter path \<noteq> []
               then Inl (no_target ''PATCH extension target does not exist'')
               else
                 and_then (patch_target P definition [] path operation v) (\<lambda>nested.
                   Inr (AList.update (pp_extension path) (JObj nested)
                     (ensureSchema P document (pp_extension path))))
           | Some raw \<Rightarrow>
               (case as_object raw of
                  None \<Rightarrow> Inl (clientError 400 ''invalidPath'' ''PATCH extension target is not an object'')
                | Some nested \<Rightarrow>
                    and_then (patch_target P definition nested path operation v) (\<lambda>nested.
                      Inr (AList.update (pp_extension path) (JObj nested) document))))))"

definition decodePatchValue :: "platform \<Rightarrow> string \<Rightarrow> json result" where
  "decodePatchValue P raw =
     and_then (DecodeDocument P (CHR 0x7B # quoted ''value'' @ CHR '':'' # raw @ [CHR 0x7D])) (\<lambda>document.
       Inr (case map_of document ''value'' of None \<Rightarrow> JNull | Some v \<Rightarrow> v))"

definition patch_value :: "platform \<Rightarrow> nat \<Rightarrow> PatchOp \<Rightarrow> json result" where
  "patch_value P index operation =
     (if op_value operation = [] then Inr JNull
      else or_error (decodePatchValue P (op_value operation))
        (clientError 400 ''invalidValue'' (''PATCH operation '' @ itoa (int index) @ '' value is invalid'')))"

fun apply_operations :: "platform \<Rightarrow> ResourceDefinition \<Rightarrow> nat \<Rightarrow> PatchOp list \<Rightarrow> document \<Rightarrow> document result" where
  "apply_operations P definition index [] working = Inr working"
| "apply_operations P definition index (operation # rest) working =
     and_then (patch_value P index operation) (\<lambda>v.
     and_then (applyPatchOperation P definition working (op_name operation) (op_path operation) v)
       (apply_operations P definition (Suc index) rest))"

definition ensure_present :: "platform \<Rightarrow> document \<Rightarrow> Extension \<Rightarrow> document" where
  "ensure_present P working extension =
     (if has_key working (ext_schema extension) then ensureSchema P working (ext_schema extension) else working)"

definition applyPatchDocument :: "platform \<Rightarrow> ResourceDefinition \<Rightarrow> document \<Rightarrow> PatchRequest \<Rightarrow> document result" where
  "applyPatchDocument P definition current request =
     and_then (cloneDocument P current) (\<lambda>working.
     and_then (apply_operations P definition 0 (patch_operations request) working) (\<lambda>working.
       Inr (foldl (ensure_present P) working (extensions definition))))"

definition ApplyPatch :: "platform \<Rightarrow> ResourceDefinition \<Rightarrow> document \<Rightarrow> PatchRequest \<Rightarrow> string
    \<Rightarrow> (document \<times> IndexKey list \<times> string) result" where
  "ApplyPatch P definition current request resourceID =
     and_then (applyPatchDocument P definition current request) (\<lambda>working.
       or_error (prepareResource P definition working ReplaceMode resourceID)
         (clientError 400 ''invalidValue'' ''patched resource is invalid''))"

end
