(* ===== verification/Scim_Search.thy ===== *)
theory Scim_Search
  imports Scim_Struct Scim_Filter
begin

text \<open>
  Searching (search.go) without the transaction around it: decoding of a search request from a
  body or from query parameters, its compilation against a resource definition, sorting,
  pagination, and the projection of attributes under their \<^verbatim>\<open>returned\<close> contract.

  An int is 64 bits wide; no sum in this file can leave that range, because a page holds at most
  ten thousand resources. The parameters of a URL are a list of names with their values.
\<close>

type_synonym query = "(string \<times> string list) list"

text \<open>The message of an error, which some handlers pass on to the client.\<close>

fun error_text :: "scim_error \<Rightarrow> string" where
  "error_text (ProtocolError st ty det) = ''SCIM '' @ itoa st @ '' '' @ ty @ '': '' @ det"
| "error_text ErrNotFound = ''SCIM resource not found''"
| "error_text ErrConflict = ''SCIM resource conflicts with existing state''"
| "error_text ErrPrecondition = ''SCIM resource precondition failed''"
| "error_text ErrTombstoned = ''SCIM resource identity is tombstoned''"
| "error_text ErrTooMany = ''SCIM query result exceeds its bound''"
| "error_text (OtherError txt) = txt"

section \<open>Requests\<close>

definition maximum_int :: int where
  "maximum_int = 9223372036854775807"

definition query_get :: "query \<Rightarrow> string \<Rightarrow> string" where
  "query_get q name = (case map_of q name of Some (v # _) \<Rightarrow> v | _ \<Rightarrow> [])"

definition rejectQuery :: "query \<Rightarrow> string list \<Rightarrow> unit result" where
  "rejectQuery q admitted =
     check (list_all (\<lambda>(key, vs). List.member admitted key \<and> length vs = 1) q)
       (clientError 400 ''invalidValue'' ''query parameter is unsupported or repeated'')"

definition queryInteger :: "query \<Rightarrow> string \<Rightarrow> int \<Rightarrow> int result" where
  "queryInteger q name fallback =
     (let v = query_get q name in
      if v = [] then Inr fallback
      else of_option (OtherError ''strconv.Atoi: parsing failed'') (parse_int v))"

text \<open>A count: negative numbers are zero, and numbers beyond an int are the largest one.\<close>

definition parseSearchCount :: "string \<Rightarrow> int result" where
  "parseSearchCount raw =
     (let bad = OtherError ''count is not an integer'' in
      if raw = [] then Inl bad
      else
        let ds = (if is_sign (hd raw) then tl raw else raw) in
        if ds = [] \<or> \<not> list_all is_digit ds then Inl bad
        else if hd raw = CHR ''-'' then Inr 0
        else
          let digits = dropWhile (\<lambda>c. c = CHR ''0'') ds; maximumText = itoa maximum_int in
          if digits = [] then Inr 0
          else if length maximumText < length digits
                  \<or> (length digits = length maximumText \<and> maximumText < digits)
          then Inr maximum_int
          else of_option bad (parse_int digits))"

definition splitAttributeParameter :: "string \<Rightarrow> string list" where
  "splitAttributeParameter raw = (if raw = [] then [] else map trim_space (split_on (CHR '','') raw))"

record SearchRequest =
  sr_schemas :: "string list"
  sr_attributes :: "string list"
  sr_excluded :: "string list"
  sr_filter :: string
  sr_sort_by :: string
  sr_sort_order :: string
  sr_start :: int
  sr_count :: "int option"

definition search_parameters :: "string list" where
  "search_parameters =
     [''attributes'', ''excludedAttributes'', ''filter'', ''sortBy'', ''sortOrder'', ''startIndex'', ''count'']"

definition searchRequestFromQuery :: "query \<Rightarrow> SearchRequest result" where
  "searchRequestFromQuery q =
     and_then (rejectQuery q search_parameters) (\<lambda>_.
     and_then (or_error (queryInteger q ''startIndex'' 1) (OtherError ''startIndex is invalid'')) (\<lambda>start.
     and_then
       (case map_of q ''count'' of
          None \<Rightarrow> Inr None
        | Some vs \<Rightarrow>
            and_then (or_error (parseSearchCount (hd vs)) (OtherError ''count is invalid'')) (\<lambda>n. Inr (Some n)))
       (\<lambda>cnt. Inr
         \<lparr>sr_schemas = [], sr_attributes = splitAttributeParameter (query_get q ''attributes''),
          sr_excluded = splitAttributeParameter (query_get q ''excludedAttributes''),
          sr_filter = query_get q ''filter'', sr_sort_by = query_get q ''sortBy'',
          sr_sort_order = query_get q ''sortOrder'', sr_start = start, sr_count = cnt\<rparr>)))"

text \<open>The body of a POST search: the fields while they are decoded, with slices as such.\<close>

record search_wire =
  sw_schemas :: "string slice"
  sw_attributes :: "string slice"
  sw_excluded :: "string slice"
  sw_filter :: string
  sw_sort_by :: string
  sw_sort_order :: string
  sw_start :: int
  sw_count :: "int option"

definition zero_wire :: search_wire where
  "zero_wire =
     \<lparr>sw_schemas = ([], []), sw_attributes = ([], []), sw_excluded = ([], []), sw_filter = [],
      sw_sort_by = [], sw_sort_order = [], sw_start = 0, sw_count = None\<rparr>"

definition decode_count :: "int option \<Rightarrow> string \<Rightarrow> int option option" where
  "decode_count old raw =
     (case raw of
        [] \<Rightarrow> None
      | c # r \<Rightarrow> if c = CHR ''n'' then Some None else map_option Some (parse_int raw))"

definition assign_search :: "string \<Rightarrow> string \<Rightarrow> search_wire \<Rightarrow> search_wire option" where
  "assign_search name raw w =
     (let texts = decode_slice [] decode_text in
      if name = ''schemas'' then map_option (\<lambda>v. w\<lparr>sw_schemas := v\<rparr>) (texts (sw_schemas w) raw)
      else if name = ''attributes'' then map_option (\<lambda>v. w\<lparr>sw_attributes := v\<rparr>) (texts (sw_attributes w) raw)
      else if name = ''excludedAttributes'' then map_option (\<lambda>v. w\<lparr>sw_excluded := v\<rparr>) (texts (sw_excluded w) raw)
      else if name = ''filter'' then map_option (\<lambda>v. w\<lparr>sw_filter := v\<rparr>) (decode_text (sw_filter w) raw)
      else if name = ''sortBy'' then map_option (\<lambda>v. w\<lparr>sw_sort_by := v\<rparr>) (decode_text (sw_sort_by w) raw)
      else if name = ''sortOrder'' then map_option (\<lambda>v. w\<lparr>sw_sort_order := v\<rparr>) (decode_text (sw_sort_order w) raw)
      else if name = ''startIndex'' then map_option (\<lambda>v. w\<lparr>sw_start := v\<rparr>) (decode_int (sw_start w) raw)
      else map_option (\<lambda>v. w\<lparr>sw_count := v\<rparr>) (decode_count (sw_count w) raw))"

definition search_of_wire :: "search_wire \<Rightarrow> SearchRequest" where
  "search_of_wire w =
     \<lparr>sr_schemas = fst (sw_schemas w), sr_attributes = fst (sw_attributes w),
      sr_excluded = fst (sw_excluded w), sr_filter = sw_filter w, sr_sort_by = sw_sort_by w,
      sr_sort_order = sw_sort_order w, sr_start = sw_start w, sr_count = sw_count w\<rparr>"

definition search_fields :: "string list" where
  "search_fields = ''schemas'' # search_parameters"

definition canonical_search_key :: "platform \<Rightarrow> string \<Rightarrow> string" where
  "canonical_search_key P key =
     admitted_key [(''count'', ''count''), (''sortby'', ''sortBy''), (''sortorder'', ''sortOrder'')]
       (to_lower P key) key"

definition canonical_search :: "platform \<Rightarrow> document \<Rightarrow> document" where
  "canonical_search P document =
     foldl (\<lambda>m (key, v).
         let canonical = canonical_search_key P key in
         if canonical = key then m else AList.update canonical v (AList.delete key m))
       document document"

definition decodeSearchRequest :: "platform \<Rightarrow> string \<Rightarrow> SearchRequest result" where
  "decodeSearchRequest P raw =
     (let bad = OtherError ''search request JSON is invalid'' in
      if raw = [] \<or> MaximumResourceBytes < length raw then Inl (OtherError ''search request size is invalid'')
      else and_then (or_error (DecodeDocument P raw) bad) (\<lambda>document.
        let document = canonical_search P document in
        and_then
          (case map_of document ''count'' of
             None \<Rightarrow> Inr document
           | Some (JNum number) \<Rightarrow>
               and_then (or_error (parseSearchCount number) (OtherError ''search count is invalid'')) (\<lambda>n.
                 Inr (AList.update ''count'' (JNum (itoa n)) document))
           | Some _ \<Rightarrow> Inl (OtherError ''search count is invalid''))
          (\<lambda>document.
            if map_of document ''startIndex'' = Some JNull
            then Inl (OtherError ''search startIndex is invalid'')
            else
              and_then (or_error (marshal (JObj document)) bad) (\<lambda>normalized.
              and_then (of_option bad (map_option search_of_wire
                  (decode_struct P search_fields assign_search zero_wire normalized))) (\<lambda>request.
              and_then (ValidateSchemas P (sr_schemas request) [SearchRequestSchema]) (\<lambda>_. Inr request))))))"

section \<open>Plans\<close>

record searchPlan =
  sp_filter :: "FilterExpression option"
  sp_sort_path :: "string list"
  sp_sort_attr :: SchemaAttribute
  sp_descending :: bool
  sp_start :: int
  sp_count :: int
  sp_include :: "string list list"
  sp_exclude :: "string list list"

fun projection_paths :: "platform \<Rightarrow> ResourceDefinition \<Rightarrow> string list \<Rightarrow> string list \<Rightarrow> string list list result" where
  "projection_paths P definition [] seen = Inr []"
| "projection_paths P definition (candidate # rest) seen =
     (case resolveAttributeContract P definition None candidate of
        None \<Rightarrow> Inl (OtherError ''projection attribute is invalid'')
      | Some (path, _) \<Rightarrow>
          let key = to_lower P (join_with [CHR 0x00] path) in
          if List.member seen key then projection_paths P definition rest seen
          else and_then (projection_paths P definition rest (key # seen)) (\<lambda>paths. Inr (path # paths)))"

definition compileProjectionPaths :: "platform \<Rightarrow> string list \<Rightarrow> ResourceDefinition \<Rightarrow> string list list result" where
  "compileProjectionPaths P raw definition =
     (if 100 < length raw then Inl (OtherError ''attribute projection is too large'')
      else projection_paths P definition raw [])"

definition plan_count :: "int option \<Rightarrow> int \<Rightarrow> int" where
  "plan_count cnt maximumPageSize =
     (case cnt of
        None \<Rightarrow> maximumPageSize
      | Some n \<Rightarrow> let n = (if n < 0 then 0 else n) in if maximumPageSize < n then maximumPageSize else n)"

definition plan_filter :: "platform \<Rightarrow> ResourceDefinition \<Rightarrow> string \<Rightarrow> FilterExpression option result" where
  "plan_filter P definition raw =
     (if raw = [] then Inr None
      else (case ParseFilter P raw definition of
              Inl e \<Rightarrow> Inl (OtherError (''filter: '' @ error_text e))
            | Inr expression \<Rightarrow> Inr (Some expression)))"

definition plan_sort :: "platform \<Rightarrow> ResourceDefinition \<Rightarrow> SearchRequest \<Rightarrow> (string list \<times> SchemaAttribute) result" where
  "plan_sort P definition request =
     (if sr_sort_order request \<noteq> [] \<and> \<not> equal_fold P (sr_sort_order request) ''ascending''
         \<and> \<not> equal_fold P (sr_sort_order request) ''descending''
      then Inl (OtherError ''sortOrder is invalid'')
      else if sr_sort_order request \<noteq> [] \<and> sr_sort_by request = []
      then Inl (OtherError ''sortOrder requires sortBy'')
      else if sr_sort_by request = [] then Inr ([], zero_attribute)
      else (case resolveAttributeContract P definition None (sr_sort_by request) of
              None \<Rightarrow> Inl (OtherError ''sortBy is invalid'')
            | Some (path, attribute) \<Rightarrow>
                if attr_type attribute = ''complex'' then Inl (OtherError ''sortBy is invalid'')
                else Inr (path, attribute)))"

definition compileSearch :: "platform \<Rightarrow> SearchRequest \<Rightarrow> ResourceDefinition \<Rightarrow> int \<Rightarrow> searchPlan result" where
  "compileSearch P request definition maximumPageSize =
     and_then (plan_filter P definition (sr_filter request)) (\<lambda>expression.
     and_then (plan_sort P definition request) (\<lambda>(sortPath, sortAttr).
       if sr_attributes request \<noteq> [] \<and> sr_excluded request \<noteq> []
       then Inl (OtherError ''attributes and excludedAttributes are mutually exclusive'')
       else
         and_then (compileProjectionPaths P (sr_attributes request) definition) (\<lambda>inc.
         and_then (compileProjectionPaths P (sr_excluded request) definition) (\<lambda>exc.
           Inr \<lparr>sp_filter = expression, sp_sort_path = sortPath, sp_sort_attr = sortAttr,
                sp_descending = equal_fold P (sr_sort_order request) ''descending'',
                sp_start = (if sr_start request < 1 then 1 else sr_start request),
                sp_count = plan_count (sr_count request) maximumPageSize,
                sp_include = inc, sp_exclude = exc\<rparr>))))"

section \<open>Sorting\<close>

definition documentID :: "document \<Rightarrow> string" where
  "documentID document =
     (case Option.bind (map_of document ''id'') as_string of None \<Rightarrow> [] | Some s \<Rightarrow> s)"

definition primary_object :: "json \<Rightarrow> bool" where
  "primary_object v = (case as_object v of None \<Rightarrow> False | Some m \<Rightarrow> map_of m ''primary'' = Some (JBool True))"

text \<open>The element of a multi-valued attribute that stands for it: the first primary object, else the first.\<close>

definition selected_object :: "json list \<Rightarrow> document option" where
  "selected_object values =
     (case List.find primary_object values of
        Some v \<Rightarrow> as_object v
      | None \<Rightarrow> Option.bind (List.find (\<lambda>v. as_object v \<noteq> None) values) as_object)"

definition sortValues :: "document \<Rightarrow> string list \<Rightarrow> json list" where
  "sortValues document path =
     (case path of
        first # second # rest \<Rightarrow>
          (case Option.bind (Option.bind (map_of document first) as_array) selected_object of
             Some object \<Rightarrow> lookupFilterValues object (second # rest)
           | None \<Rightarrow> lookupFilterValues document path)
      | _ \<Rightarrow> lookupFilterValues document path)"

definition compareSortValues :: "platform \<Rightarrow> document \<Rightarrow> document \<Rightarrow> string list \<Rightarrow> SchemaAttribute \<Rightarrow> int" where
  "compareSortValues P left right path contract =
     (case (sortValues left path, sortValues right path) of
        ([], []) \<Rightarrow> 0
      | ([], _) \<Rightarrow> 1
      | (_, []) \<Rightarrow> - 1
      | (x # _, y # _) \<Rightarrow> (case orderFilterValues P x y contract of None \<Rightarrow> 0 | Some n \<Rightarrow> n))"

definition sort_comparison :: "platform \<Rightarrow> searchPlan \<Rightarrow> document \<Rightarrow> document \<Rightarrow> int" where
  "sort_comparison P plan left right =
     (let comparison = compareSortValues P left right (sp_sort_path plan) (sp_sort_attr plan) in
      if comparison = 0 then compare_with (<) (documentID left) (documentID right) else comparison)"

definition sorts_before :: "platform \<Rightarrow> searchPlan \<Rightarrow> document \<Rightarrow> document \<Rightarrow> bool" where
  "sorts_before P plan left right =
     (let comparison = sort_comparison P plan left right in
      if sp_descending plan then 0 < comparison else comparison < 0)"

text \<open>
  \<^verbatim>\<open>sort.SliceStable\<close>. Its result is determined by the comparison when that is a strict weak order;
  values of different types under one name, which a search over several resource types can
  meet, do not compare and are ordered by identifier.
\<close>

fun insert_stable :: "('a \<Rightarrow> 'a \<Rightarrow> bool) \<Rightarrow> 'a \<Rightarrow> 'a list \<Rightarrow> 'a list" where
  "insert_stable before x [] = [x]"
| "insert_stable before x (y # ys) =
     (if before y x then y # insert_stable before x ys else x # y # ys)"

definition sort_stable :: "('a \<Rightarrow> 'a \<Rightarrow> bool) \<Rightarrow> 'a list \<Rightarrow> 'a list" where
  "sort_stable before xs = foldr (insert_stable before) xs []"

section \<open>Pages\<close>

fun matching :: "platform \<Rightarrow> FilterExpression option \<Rightarrow> document list \<Rightarrow> document list result" where
  "matching P expression [] = Inr []"
| "matching P expression (resource # rest) =
     and_then (MatchFilter P expression resource) (\<lambda>matched.
       and_then (matching P expression rest) (\<lambda>found. Inr (if matched then resource # found else found)))"

definition page_of :: "int \<Rightarrow> int \<Rightarrow> 'a list \<Rightarrow> 'a list" where
  "page_of start cnt found =
     (let total = int (length found);
          begin' = (if total < start - 1 then total else start - 1);
          end' = (if total < begin' + cnt then total else begin' + cnt)
      in take (nat (end' - begin')) (drop (nat begin') found))"

definition applySearch :: "platform \<Rightarrow> searchPlan \<Rightarrow> document list \<Rightarrow> (document list \<times> int) result" where
  "applySearch P plan resources =
     and_then (matching P (sp_filter plan) resources) (\<lambda>filtered.
       let sorted = (if sp_sort_path plan = [] then filtered else sort_stable (sorts_before P plan) filtered) in
       Inr (page_of (sp_start plan) (sp_count plan) sorted, int (length sorted)))"

section \<open>Projection\<close>

fun copyProjectedPath :: "document \<Rightarrow> document \<Rightarrow> string list \<Rightarrow> document" where
  "copyProjectedPath target source [] = target"
| "copyProjectedPath target source [name] =
     (case map_of source name of None \<Rightarrow> target | Some v \<Rightarrow> AList.update name v target)"
| "copyProjectedPath target source (name # next # rest) =
     (case map_of source name of
        Some (JObj object) \<Rightarrow>
          let child = (case Option.bind (map_of target name) as_object of None \<Rightarrow> [] | Some m \<Rightarrow> m) in
          AList.update name (JObj (copyProjectedPath child object (next # rest))) target
      | Some (JArr items) \<Rightarrow>
          let fresh = replicate (length items) (JObj []);
              children = (case Option.bind (map_of target name) as_array of
                            None \<Rightarrow> fresh
                          | Some xs \<Rightarrow> if length xs = length items then xs else fresh)
          in AList.update name (JArr (map2 (\<lambda>child raw.
               (case (child, raw) of
                  (JObj t, JObj s) \<Rightarrow> JObj (copyProjectedPath t s (next # rest))
                | _ \<Rightarrow> child)) children items)) target
      | _ \<Rightarrow> target)"

fun deleteProjectedPath :: "document \<Rightarrow> string list \<Rightarrow> document" where
  "deleteProjectedPath target [] = target"
| "deleteProjectedPath target [name] = AList.delete name target"
| "deleteProjectedPath target (name # next # rest) =
     (case map_of target name of
        Some (JObj object) \<Rightarrow>
          let object = deleteProjectedPath object (next # rest) in
          if object = [] then AList.delete name target else AList.update name (JObj object) target
      | Some (JArr items) \<Rightarrow>
          AList.update name (JArr (map (\<lambda>raw.
            (case raw of JObj child \<Rightarrow> JObj (deleteProjectedPath child (next # rest)) | _ \<Rightarrow> raw)) items)) target
      | _ \<Rightarrow> target)"

text \<open>Every attribute with its path, in the order of the walk, and its \<^verbatim>\<open>returned\<close> contract.\<close>

fun returned_paths :: "SchemaAttribute list \<Rightarrow> string list \<Rightarrow> (string \<times> string list) list" where
  "returned_paths [] pre = []"
| "returned_paths (attribute # rest) pre =
     (let path = pre @ [attr_name attribute] in
      (attr_returned attribute, path)
      # (if attr_type attribute = ''complex'' then returned_paths (sub_attributes attribute) path else [])
      @ returned_paths rest pre)"

definition all_returned_paths :: "ResourceDefinition \<Rightarrow> (string \<times> string list) list" where
  "all_returned_paths definition =
     returned_paths (def_attributes definition) []
     @ concat (map (\<lambda>extension. returned_paths (ext_attributes extension) [ext_schema extension])
         (extensions definition))"

definition paths_returned :: "string \<Rightarrow> ResourceDefinition \<Rightarrow> string list list" where
  "paths_returned contract definition =
     map snd (filter (\<lambda>(r, _). r = contract) (all_returned_paths definition))"

definition returnabilityPaths :: "ResourceDefinition \<Rightarrow> string list list \<times> string list list \<times> string list list" where
  "returnabilityPaths definition =
     (paths_returned ''always'' definition,
      paths_returned ''never'' definition @ [[''password'']],
      paths_returned ''request'' definition)"

definition path_covers :: "platform \<Rightarrow> string list \<Rightarrow> string list \<Rightarrow> bool" where
  "path_covers P path candidate \<longleftrightarrow>
     length candidate \<le> length path \<and> list_all (\<lambda>(x, y). equal_fold P x y) (zip candidate path)"

definition pathRequested :: "platform \<Rightarrow> string list \<Rightarrow> string list list \<Rightarrow> bool" where
  "pathRequested P path requested \<longleftrightarrow> list_ex (path_covers P path) requested"

definition kept_path :: "platform \<Rightarrow> string list list \<Rightarrow> string list \<Rightarrow> bool" where
  "kept_path P always path \<longleftrightarrow>
     (length path = 1 \<and> (equal_fold P (hd path) ''schemas'' \<or> equal_fold P (hd path) ''id''))
     \<or> pathRequested P path always"

definition projectDocument :: "platform \<Rightarrow> document \<Rightarrow> string list list \<Rightarrow> string list list
    \<Rightarrow> ResourceDefinition \<Rightarrow> document result" where
  "projectDocument P document inc exc definition =
     and_then (cloneDocument P document) (\<lambda>source.
       let (always, never, requested) = returnabilityPaths definition;
           source = foldl deleteProjectedPath source never;
           source = foldl (\<lambda>m path. if pathRequested P path inc then m else deleteProjectedPath m path)
                      source requested
       in and_then (cloneDocument P source) (\<lambda>returnSource.
         if inc \<noteq> [] then
           Inr (foldl (\<lambda>m path. copyProjectedPath m source path) []
             ([[''schemas''], [''id'']] @ always @ inc))
         else
           let source = foldl (\<lambda>m path. if kept_path P always path then m else deleteProjectedPath m path)
                          source exc
           in Inr (foldl (\<lambda>m path. copyProjectedPath m returnSource path) source always)))"

definition applySearchWithDefinition :: "platform \<Rightarrow> searchPlan \<Rightarrow> document list \<Rightarrow> ResourceDefinition
    \<Rightarrow> (document list \<times> int) result" where
  "applySearchWithDefinition P plan resources definition =
     and_then (applySearch P plan resources) (\<lambda>(filtered, total).
     and_then (traverse (\<lambda>document. projectDocument P document (sp_include plan) (sp_exclude plan) definition) filtered)
       (\<lambda>projected. Inr (projected, total)))"

section \<open>Several resource types\<close>

definition core_extension :: "ResourceDefinition \<Rightarrow> Extension" where
  "core_extension definition =
     \<lparr>ext_schema = def_schema definition, ext_name = ''$core'', ext_description = [],
      ext_attributes = def_attributes definition, ext_required = False, ext_validate = None\<rparr>"

fun fresh_attributes :: "platform \<Rightarrow> SchemaAttribute list \<Rightarrow> string list \<Rightarrow> SchemaAttribute list \<times> string list" where
  "fresh_attributes P [] seen = ([], seen)"
| "fresh_attributes P (attribute # rest) seen =
     (let folded = to_lower P (attr_name attribute) in
      if List.member seen folded then fresh_attributes P rest seen
      else apfst (Cons attribute) (fresh_attributes P rest (folded # seen)))"

fun merge_definitions :: "platform \<Rightarrow> ResourceDefinition list \<Rightarrow> SchemaAttribute list \<Rightarrow> string list \<Rightarrow> Extension list
    \<Rightarrow> SchemaAttribute list \<times> Extension list" where
  "merge_definitions P [] attributes seen exts = (attributes, exts)"
| "merge_definitions P (definition # rest) attributes seen exts =
     (let (fresh, seen') = fresh_attributes P (def_attributes definition) seen in
      merge_definitions P rest (attributes @ fresh) seen'
        (exts @ core_extension definition # extensions definition))"

definition combinedSearchDefinition :: "platform \<Rightarrow> ResourceDefinition list \<Rightarrow> ResourceDefinition" where
  "combinedSearchDefinition P definitions =
     (let first = hd definitions;
          seen = map (\<lambda>a. to_lower P (attr_name a)) (def_attributes first);
          (attributes, exts) = merge_definitions P (tl definitions) (def_attributes first) seen (extensions first)
      in empty_definition\<lparr>def_schema := def_schema first, def_attributes := attributes, extensions := exts\<rparr>)"

end
