(* ===== verification/Scim_Url.thy ===== *)
theory Scim_Url
  imports Scim_Names
begin

text \<open>
  Paths of URLs: the escaping and unescaping of net/url, the normal form of path.Clean, the check of
  the external URL (resource.go, validateExternalURL), the locations built from it and the
  segments a request path is split into (server.go). The round trip at the end says that the server
  routes the locations it hands out back to the resource.

  \<^verbatim>\<open>url.Parse\<close> itself is a field of the platform.
\<close>

section \<open>Escaping\<close>

definition unreserved :: "char \<Rightarrow> bool" where
  "unreserved c \<longleftrightarrow> is_letter c \<or> is_digit c \<or> c = CHR ''-'' \<or> c = CHR ''_'' \<or> c = CHR ''.'' \<or> c = CHR ''~''"

definition upper_hex :: "nat \<Rightarrow> char" where
  "upper_hex n = (if n < 10 then char_of (48 + n) else char_of (55 + n))"

definition percent :: "char \<Rightarrow> string" where
  "percent c = [CHR ''%'', upper_hex (byte c div 16), upper_hex (byte c mod 16)]"

definition escape_with :: "string \<Rightarrow> string \<Rightarrow> string" where
  "escape_with admitted s =
     concat (map (\<lambda>c. if unreserved c \<or> List.member admitted c then [c] else percent c) s)"

definition PathEscape :: "string \<Rightarrow> string" where
  "PathEscape = escape_with ''$&+:=@''"

definition escape_path :: "string \<Rightarrow> string" where
  "escape_path = escape_with ''$&+,/:;=@''"

definition escape_host :: "string \<Rightarrow> string" where
  "escape_host = escape_with (''!$&()*+,;=:[]<>'' @ [CHR 0x27, CHR 0x22])"

definition hex_digit_value :: "char \<Rightarrow> nat option" where
  "hex_digit_value c =
     (if in_range 48 57 c then Some (byte c - 48)
      else if in_range 97 102 c then Some (byte c - 87)
      else if in_range 65 70 c then Some (byte c - 55) else None)"

fun PathUnescape :: "string \<Rightarrow> string option" where
  "PathUnescape [] = Some []"
| "PathUnescape (c # s) =
     (if c = CHR ''%'' then
        (case s of
           h # l # t \<Rightarrow>
             (case (hex_digit_value h, hex_digit_value l) of
                (Some x, Some y) \<Rightarrow> map_option (Cons (char_of (16 * x + y))) (PathUnescape t)
              | _ \<Rightarrow> None)
         | _ \<Rightarrow> None)
      else map_option (Cons c) (PathUnescape s))"

definition valid_encoded :: "string \<Rightarrow> bool" where
  "valid_encoded s \<longleftrightarrow>
     list_all (\<lambda>c. unreserved c \<or> List.member (''!$&()*+,;=:@[]%/'' @ [CHR 0x27]) c) s"

text \<open>\<^verbatim>\<open>URL.EscapedPath\<close> and, for a URL with a host and no query or fragment, \<^verbatim>\<open>URL.String\<close>.\<close>

definition escaped_path :: "string \<Rightarrow> string \<Rightarrow> string" where
  "escaped_path path raw =
     (if raw \<noteq> [] \<and> valid_encoded raw \<and> PathUnescape raw = Some path then raw
      else if path = ''*'' then ''*'' else escape_path path)"

definition url_text :: "url \<Rightarrow> string \<Rightarrow> string \<Rightarrow> string" where
  "url_text u path raw =
     (let p = escaped_path path raw in
      url_scheme u @ ''://'' @ escape_host (url_host u)
      @ (if p \<noteq> [] \<and> hd p \<noteq> CHR ''/'' then CHR ''/'' # p else p)
      @ (if url_force_query u then ''?'' else []))"

section \<open>The external URL\<close>

text \<open>\<^verbatim>\<open>path.Clean\<close>\<close>

definition clean_step :: "bool \<Rightarrow> string list \<Rightarrow> string \<Rightarrow> string list" where
  "clean_step rooted kept part =
     (if part = [] \<or> part = ''.'' then kept
      else if part = ''..'' then
        (if kept \<noteq> [] \<and> last kept \<noteq> ''..'' then butlast kept else if rooted then kept else kept @ [part])
      else kept @ [part])"

definition path_clean :: "string \<Rightarrow> string" where
  "path_clean path =
     (let rooted = has_prefix path ''/'';
          kept = foldl (clean_step rooted) [] (split_on (CHR ''/'') path)
      in if rooted then CHR ''/'' # join_with ''/'' kept
         else if kept = [] then ''.'' else join_with ''/'' kept)"

definition validateExternalURL :: "platform \<Rightarrow> string \<Rightarrow> url result" where
  "validateExternalURL P raw =
     (case url_parse P raw of
        None \<Rightarrow> Inl (OtherError ''external URL must be an absolute HTTPS URL'')
      | Some parsed \<Rightarrow>
          if url_scheme parsed \<noteq> ''https'' \<or> url_host parsed = [] \<or> url_has_user parsed
             \<or> url_raw_query parsed \<noteq> [] \<or> url_fragment parsed \<noteq> [] \<or> url_raw_path parsed \<noteq> []
          then Inl (OtherError ''external URL must be an absolute HTTPS URL'')
          else
            let cleaned = path_clean (url_path parsed) in
            if url_path parsed \<noteq> [] \<and> cleaned \<noteq> url_path parsed \<and> trim_suffix (url_path parsed) ''/'' \<noteq> cleaned
            then Inl (OtherError ''external URL path is not canonical'')
            else Inr (parsed\<lparr>url_path := trim_suffix (url_path parsed) ''/'', url_raw_path := []\<rparr>))"

section \<open>Locations and routes\<close>

definition resourceLocation :: "url \<Rightarrow> string \<Rightarrow> string \<Rightarrow> string" where
  "resourceLocation external endpoint i =
     (let base = trim_suffix (url_path external) ''/'' in
      url_text external (base @ ''/'' @ endpoint @ ''/'' @ i)
        (escaped_path (url_path external) (url_raw_path external) @ ''/'' @ endpoint @ ''/'' @ PathEscape i))"

definition decode_segment :: "string \<Rightarrow> string result" where
  "decode_segment raw =
     (case PathUnescape raw of
        None \<Rightarrow> Inl (OtherError ''path segment is invalid'')
      | Some decoded \<Rightarrow>
          if decoded = [] \<or> decoded = ''.'' \<or> decoded = ''..'' then Inl (OtherError ''path segment is invalid'')
          else Inr decoded)"

definition routeSegments :: "url \<Rightarrow> string \<Rightarrow> string list result" where
  "routeSegments external path =
     (let base = trim_suffix (escaped_path (url_path external) (url_raw_path external)) ''/'' in
      if path = base then Inr []
      else if \<not> has_prefix path (base @ ''/'') then Inl (OtherError ''path is outside SCIM base'')
      else traverse decode_segment (split_on (CHR ''/'') (drop (Suc (length base)) path)))"

section \<open>Round trips\<close>

lemma hex_digit_value_upper: "n < 16 \<Longrightarrow> hex_digit_value (upper_hex n) = Some n"
  by (auto simp: hex_digit_value_def upper_hex_def in_range_def)

lemma char_of_parts: "char_of (16 * (byte c div 16) + byte c mod 16) = c"
  by simp

lemma PathUnescape_percent: "PathUnescape (percent c @ s) = map_option (Cons c) (PathUnescape s)"
proof -
  have "byte c div 16 < 16" by (simp add: less_mult_imp_div_less)
  then show ?thesis
    by (simp add: percent_def hex_digit_value_upper char_of_parts)
qed

lemma PathUnescape_escape_with:
  "CHR ''%'' \<notin> set admitted \<Longrightarrow> PathUnescape (escape_with admitted s @ t) = map_option ((@) s) (PathUnescape t)"
proof (induction s)
  case Nil
  then show ?case by (simp add: escape_with_def option.map_ident)
next
  case (Cons c s)
  have step: "escape_with admitted (c # s) = (if unreserved c \<or> c \<in> set admitted then [c] else percent c) @ escape_with admitted s"
    by (simp add: escape_with_def)
  have "c \<noteq> CHR ''%''" if "unreserved c \<or> c \<in> set admitted"
    using that Cons.prems by (auto simp: unreserved_def is_letter_def is_digit_def in_range_def)
  then show ?case using Cons
    by (simp add: step PathUnescape_percent option.map_comp comp_def)
qed

lemma PathUnescape_PathEscape: "PathUnescape (PathEscape s) = Some s"
  using PathUnescape_escape_with [of "''$&+:=@''" s "[]"] by (simp add: PathEscape_def)

lemma PathUnescape_escape_path: "PathUnescape (escape_path s @ t) = map_option ((@) s) (PathUnescape t)"
  using PathUnescape_escape_with [of "''$&+,/:;=@''" s t] by (simp add: escape_path_def)

text \<open>The path of a location, and the segments the server splits it into.\<close>

definition location_path :: "url \<Rightarrow> string \<Rightarrow> string \<Rightarrow> string" where
  "location_path external endpoint i =
     escaped_path (url_path external) (url_raw_path external) @ ''/'' @ endpoint @ ''/'' @ PathEscape i"

definition external_ok :: "url \<Rightarrow> bool" where
  "external_ok external \<longleftrightarrow>
     url_raw_path external = [] \<and> url_path external \<noteq> ''*'' \<and> \<not> has_suffix (url_path external) ''/''"

lemma escape_with_unreserved: "\<forall>c \<in> set s. unreserved c \<Longrightarrow> escape_with admitted s = s"
  by (induction s) (auto simp: escape_with_def)

lemma validName_unreserved: "validName s \<Longrightarrow> c \<in> set s \<Longrightarrow> unreserved c"
proof -
  have "name_chars n s \<Longrightarrow> c \<in> set s \<Longrightarrow> unreserved c" for n
    by (induction n s rule: name_chars.induct) (auto simp: unreserved_def split: if_splits)
  then show "validName s \<Longrightarrow> c \<in> set s \<Longrightarrow> unreserved c"
    by (auto simp: validName_def split: if_splits)
qed

lemma PathUnescape_name: "validName s \<Longrightarrow> PathUnescape (s @ t) = map_option ((@) s) (PathUnescape t)"
  using PathUnescape_escape_with [of "[]" s t] escape_with_unreserved [of s "[]"] validName_unreserved
  by fastforce

lemma escape_with_chars:
  assumes "c \<in> set (escape_with admitted s)"
  shows "unreserved c \<or> c \<in> set admitted \<or> c = CHR ''%''"
proof -
  have hex: "unreserved (upper_hex n)" if "n < 16" for n
    using that by (auto simp: unreserved_def upper_hex_def is_letter_def is_digit_def in_range_def)
  have less: "byte x div 16 < 16" for x :: char by (simp add: less_mult_imp_div_less)
  show ?thesis
    using assms by (auto simp: escape_with_def percent_def hex less split: if_splits)
qed

lemma escape_with_no_slash: "CHR ''/'' \<notin> set admitted \<Longrightarrow> CHR ''/'' \<notin> set (escape_with admitted s)"
  using escape_with_chars [of "CHR ''/''" admitted s]
  by (auto simp: unreserved_def is_letter_def is_digit_def in_range_def)

lemma valid_encoded_escape:
  "valid_encoded (escape_path s)" "valid_encoded (PathEscape s)" "validName s \<Longrightarrow> valid_encoded s"
  unfolding valid_encoded_def list_all_iff escape_path_def PathEscape_def
  by (auto dest!: escape_with_chars validName_unreserved)

lemma valid_encoded_append [simp]: "valid_encoded (s @ t) \<longleftrightarrow> valid_encoded s \<and> valid_encoded t"
  by (simp add: valid_encoded_def)

lemma slash: "valid_encoded ''/'' \<longleftrightarrow> True"
  by (simp add: valid_encoded_def)

lemma location_text:
  assumes "external_ok external" and "validName endpoint"
  shows "escaped_path (trim_suffix (url_path external) ''/'' @ ''/'' @ endpoint @ ''/'' @ i)
      (location_path external endpoint i) = location_path external endpoint i"
proof -
  have raw: "location_path external endpoint i = escape_path (url_path external) @ ''/'' @ endpoint @ ''/'' @ PathEscape i"
    using assms(1) by (simp add: location_path_def external_ok_def escaped_path_def)
  have "PathUnescape (location_path external endpoint i) = Some (url_path external @ ''/'' @ endpoint @ ''/'' @ i)"
    unfolding raw using PathUnescape_name [OF assms(2)]
    by (simp add: PathUnescape_escape_path PathUnescape_PathEscape)
  moreover have "valid_encoded (location_path external endpoint i)"
    unfolding raw by (simp only: valid_encoded_append valid_encoded_escape assms(2) slash)
  moreover have "location_path external endpoint i \<noteq> []" by (simp add: raw)
  moreover have "trim_suffix (url_path external) ''/'' = url_path external"
    using assms(1) by (simp add: external_ok_def trim_suffix_def)
  ultimately show ?thesis by (simp add: escaped_path_def)
qed

lemma split_on_append: "c \<notin> set s \<Longrightarrow> split_on c (s @ c # t) = s # split_on c t"
  by (induction s) auto

lemma escape_path_last: "has_suffix (escape_path s) ''/'' \<Longrightarrow> has_suffix s ''/''"
proof (induction s rule: rev_induct)
  case Nil
  then show ?case by (simp add: escape_path_def escape_with_def has_suffix_iff)
next
  case (snoc c s)
  have "c = CHR ''/''"
  proof (cases "unreserved c \<or> c \<in> set ''$&+,/:;=@''")
    case True
    with snoc.prems show ?thesis by (simp add: escape_path_def escape_with_def has_suffix_iff)
  next
    case False
    then have "escape_path (s @ [c]) = escape_path s @ percent c" by (simp add: escape_path_def escape_with_def)
    with snoc.prems have "upper_hex (byte c mod 16) = CHR ''/''"
      by (auto simp: has_suffix_iff percent_def)
    then have "hex_digit_value (CHR ''/'') = Some (byte c mod 16)"
      using hex_digit_value_upper [of "byte c mod 16"] by simp
    then show ?thesis by (simp add: hex_digit_value_def in_range_def)
  qed
  then show ?case by (simp add: has_suffix_iff)
qed

lemma location_routes:
  assumes "external_ok external" and "validName endpoint" and "validResourceID i"
  shows "routeSegments external (location_path external endpoint i) = Inr [endpoint, i]"
proof -
  let ?base = "escape_path (url_path external)"
  have base: "trim_suffix (escaped_path (url_path external) (url_raw_path external)) ''/'' = ?base"
    and path: "location_path external endpoint i = ?base @ CHR ''/'' # endpoint @ CHR ''/'' # PathEscape i"
    using assms(1) escape_path_last
    by (auto simp: external_ok_def escaped_path_def trim_suffix_def location_path_def)
  have "CHR ''/'' \<notin> set endpoint"
    using validName_unreserved [OF assms(2), of "CHR ''/''"]
    by (auto simp: unreserved_def is_letter_def is_digit_def in_range_def)
  moreover have "CHR ''/'' \<notin> set (PathEscape i)"
    unfolding PathEscape_def by (rule escape_with_no_slash) simp
  ultimately have "split_on (CHR ''/'') (endpoint @ CHR ''/'' # PathEscape i) = [endpoint, PathEscape i]"
    by (simp add: split_on_append split_on_no_sep)
  moreover have "decode_segment endpoint = Inr endpoint"
    using PathUnescape_name [OF assms(2), of "[]"] assms(2)
    by (auto simp: decode_segment_def validName_def is_letter_def in_range_def)
  moreover have "decode_segment (PathEscape i) = Inr i"
    using assms(3) by (simp add: decode_segment_def PathUnescape_PathEscape validResourceID_def)
  ultimately show ?thesis
    unfolding routeSegments_def base path Let_def by (simp add: has_prefix_iff)
qed

lemma validateExternalURL_ok:
  assumes "validateExternalURL P raw = Inr external"
  shows "url_scheme external = ''https''" and "url_host external \<noteq> []" and "url_raw_path external = []"
  using assms by (auto simp: validateExternalURL_def Let_def split: option.splits if_splits)

end
