(* ===== verification/Scim_Registry.thy ===== *)
theory Scim_Registry
  imports Scim_Schema
begin

text \<open>
  The registry of resource definitions (NewRegistry and the lookups of resource.go): what a
  definition must satisfy to be admitted, and the two indexes and the ordered list the
  server reads. A nil registry is \<^const>\<open>None\<close>.
\<close>

record Registry =
  byEndpoint :: "(string \<times> ResourceDefinition) list"
  byName :: "(string \<times> ResourceDefinition) list"
  ordered :: "ResourceDefinition list"

fun filter_names_ok :: "platform \<Rightarrow> string list \<Rightarrow> string list \<Rightarrow> string list result" where
  "filter_names_ok P [] seen = Inr seen"
| "filter_names_ok P (attribute # rest) seen =
     (let folded = to_lower P attribute in
      if \<not> validAttributeName attribute \<or> folded = [] then Inl (OtherError ''filter attribute is invalid'')
      else if List.member seen folded then Inl (OtherError ''filter attribute is duplicated'')
      else filter_names_ok P rest (folded # seen))"

fun extensions_ok :: "platform \<Rightarrow> string \<Rightarrow> Extension list \<Rightarrow> string list \<Rightarrow> unit result" where
  "extensions_ok P schema [] seen = Inr ()"
| "extensions_ok P schema (extension # rest) seen =
     (let folded = to_lower P (ext_schema extension) in
      if \<not> validSchemaURI P (ext_schema extension) \<or> equal_fold P (ext_schema extension) schema
      then Inl (OtherError ''extension schema is invalid'')
      else if List.member seen folded then Inl (OtherError ''extension schema is duplicated'')
      else if (ext_name extension \<noteq> [] \<and> \<not> validName (ext_name extension))
              \<or> \<not> validString (ext_description extension) maximumStringBytes
              \<or> validateSchemaAttributes P (ext_attributes extension) 0 \<noteq> Inr ()
      then Inl (OtherError ''extension discovery metadata is invalid'')
      else if containsWriteOnly (ext_attributes extension) False
      then Inl (OtherError ''write-only extension attributes require a consumer adapter'')
      else extensions_ok P schema rest (folded # seen))"

definition index_attribute_ok :: "platform \<Rightarrow> ResourceDefinition \<Rightarrow> string \<Rightarrow> bool" where
  "index_attribute_ok P definition name \<longleftrightarrow>
     (case resolveAttributeContract P definition None name of
        None \<Rightarrow> False
      | Some (path, attribute) \<Rightarrow>
          \<not> multi_valued attribute
          \<and> (attr_type attribute = ''string'' \<or> attr_type attribute = ''reference''))"

text \<open>One round of the loop of NewRegistry.\<close>

definition register :: "platform \<Rightarrow> ResourceDefinition \<Rightarrow> Registry \<Rightarrow> Registry result" where
  "register P definition registry =
     (if \<not> validName (def_name definition) \<or> \<not> validName (endpoint definition)
         \<or> \<not> validSchemaURI P (def_schema definition)
      then Inl (OtherError ''resource definition identity is invalid'')
      else if has_key (byEndpoint registry) (endpoint definition)
      then Inl (OtherError ''resource endpoint is duplicated'')
      else if has_key (byName registry) (def_name definition)
      then Inl (OtherError ''resource name is duplicated'')
      else if def_name definition \<noteq> ''User'' \<and> def_name definition \<noteq> ''Group'' \<and> def_validate definition = None
      then Inl (OtherError ''custom resource definition requires validation'')
      else if \<not> validString (def_description definition) maximumStringBytes
              \<or> validateSchemaAttributes P (def_attributes definition) 0 \<noteq> Inr ()
      then Inl (OtherError ''resource discovery metadata is invalid'')
      else if containsWriteOnly (def_attributes definition) (def_name definition = ''User'')
      then Inl (OtherError ''unsupported write-only resource attribute'')
      else and_then (filter_names_ok P (filter_attributes definition) []) (\<lambda>seenFilters.
        if unique_attribute definition \<noteq> [] \<and> \<not> validAttributeName (unique_attribute definition)
        then Inl (OtherError ''unique attribute is invalid'')
        else if unique_attribute definition \<noteq> []
                \<and> \<not> List.member seenFilters (to_lower P (unique_attribute definition))
        then Inl (OtherError ''unique attribute must be a filter attribute'')
        else and_then (extensions_ok P (def_schema definition) (extensions definition) []) (\<lambda>_.
          if \<not> list_all (index_attribute_ok P definition) (filter_attributes definition)
          then Inl (OtherError ''storage index attribute is not a singular string'')
          else Inr \<lparr>byEndpoint = AList.update (endpoint definition) definition (byEndpoint registry),
                    byName = AList.update (def_name definition) definition (byName registry),
                    ordered = ordered registry @ [definition]\<rparr>)))"

definition NewRegistry :: "platform \<Rightarrow> ResourceDefinition list \<Rightarrow> Registry result" where
  "NewRegistry P definitions =
     (if length definitions = 0 \<or> 32 < length definitions
      then Inl (OtherError ''resource definition count is invalid'')
      else and_then (for_each (register P) definitions \<lparr>byEndpoint = [], byName = [], ordered = []\<rparr>)
        (\<lambda>registry. Inr (registry\<lparr>ordered := sort_key def_name (ordered registry)\<rparr>)))"

definition definitionByEndpoint :: "Registry option \<Rightarrow> string \<Rightarrow> ResourceDefinition option" where
  "definitionByEndpoint registry path = Option.bind registry (\<lambda>r. map_of (byEndpoint r) path)"

definition definitionByName :: "Registry option \<Rightarrow> string \<Rightarrow> ResourceDefinition option" where
  "definitionByName registry name = Option.bind registry (\<lambda>r. map_of (byName r) name)"

definition registry_definitions :: "Registry option \<Rightarrow> ResourceDefinition list" where
  "registry_definitions registry = (case registry of None \<Rightarrow> [] | Some r \<Rightarrow> ordered r)"

section \<open>What a registry promises\<close>

text \<open>
  Admission of one definition, and the shape every intermediate registry has: both indexes
  hold exactly the definitions of the list, each under its own name.
\<close>

definition admitted_definition :: "platform \<Rightarrow> ResourceDefinition \<Rightarrow> bool" where
  "admitted_definition P d \<longleftrightarrow>
     validName (def_name d) \<and> validName (endpoint d) \<and> validSchemaURI P (def_schema d)
     \<and> (def_name d = ''User'' \<or> def_name d = ''Group'' \<or> def_validate d \<noteq> None)
     \<and> validateSchemaAttributes P (def_attributes d) 0 = Inr ()
     \<and> distinct (map (to_lower P) (filter_attributes d))
     \<and> list_all (index_attribute_ok P d) (filter_attributes d)
     \<and> (unique_attribute d \<noteq> [] \<longrightarrow>
          to_lower P (unique_attribute d) \<in> to_lower P ` set (filter_attributes d))
     \<and> distinct (map (to_lower P) (map ext_schema (extensions d)))
     \<and> (\<forall>e \<in> set (extensions d). validSchemaURI P (ext_schema e)
          \<and> \<not> equal_fold P (ext_schema e) (def_schema d)
          \<and> \<not> containsWriteOnly (ext_attributes e) False)"

definition registry_ok :: "platform \<Rightarrow> Registry \<Rightarrow> bool" where
  "registry_ok P r \<longleftrightarrow>
     distinct (map def_name (ordered r)) \<and> distinct (map endpoint (ordered r))
     \<and> (\<forall>d \<in> set (ordered r). admitted_definition P d)
     \<and> (\<forall>k. map_of (byEndpoint r) k = List.find (\<lambda>d. endpoint d = k) (ordered r))
     \<and> (\<forall>k. map_of (byName r) k = List.find (\<lambda>d. def_name d = k) (ordered r))"

lemma filter_names_ok_Inr:
  "filter_names_ok P names seen = Inr out \<Longrightarrow>
     distinct (map (to_lower P) names) \<and> set (map (to_lower P) names) \<inter> set seen = {}
     \<and> set out = set seen \<union> set (map (to_lower P) names)"
  by (induction P names seen rule: filter_names_ok.induct) (auto simp: Let_def split: if_splits)

lemma extensions_ok_Inr:
  "extensions_ok P schema es seen = Inr () \<Longrightarrow>
     distinct (map (to_lower P) (map ext_schema es))
     \<and> set (map (to_lower P) (map ext_schema es)) \<inter> set seen = {}
     \<and> (\<forall>e \<in> set es. validSchemaURI P (ext_schema e) \<and> \<not> equal_fold P (ext_schema e) schema
          \<and> \<not> containsWriteOnly (ext_attributes e) False)"
proof (induction es arbitrary: seen)
  case Nil
  then show ?case by simp
next
  case (Cons e es)
  let ?f = "to_lower P (ext_schema e)"
  from Cons.prems have e: "validSchemaURI P (ext_schema e)" "\<not> equal_fold P (ext_schema e) schema"
    "?f \<notin> set seen" "\<not> containsWriteOnly (ext_attributes e) False"
    and rest: "extensions_ok P schema es (?f # seen) = Inr ()"
    unfolding extensions_ok.simps Let_def by (elim ifE; simp; fail)+
  from Cons.IH [OF rest] e show ?case by auto
qed

lemma find_append: "List.find p (xs @ ys) = (case List.find p xs of None \<Rightarrow> List.find p ys | Some x \<Rightarrow> Some x)"
  by (induction xs) auto

lemma find_key_unique:
  "distinct (map f xs) \<Longrightarrow> x \<in> set xs \<Longrightarrow> List.find (\<lambda>y. f y = f x) xs = Some x"
  by (induction xs) (auto simp: image_iff)

lemma find_key_None: "List.find (\<lambda>y. f y = k) xs = None \<longleftrightarrow> k \<notin> f ` set xs"
  by (auto simp: find_None_iff)

lemma register_admits:
  assumes "register P d r = Inr r'"
  shows "admitted_definition P d" and "ordered r' = ordered r @ [d]"
    and "map_of (byEndpoint r) (endpoint d) = None" and "map_of (byName r) (def_name d) = None"
    and "map_of (byEndpoint r') = (map_of (byEndpoint r))(endpoint d \<mapsto> d)"
    and "map_of (byName r') = (map_of (byName r))(def_name d \<mapsto> d)"
  using assms
  by (auto simp: register_def admitted_definition_def result_simps map_of_update
      split: if_splits dest!: filter_names_ok_Inr extensions_ok_Inr)

lemma register_ok:
  assumes "registry_ok P r" and "register P d r = Inr r'"
  shows "registry_ok P r'"
proof -
  note a = register_admits [OF assms(2)]
  from assms(1) a(3,4) have fresh: "endpoint d \<notin> endpoint ` set (ordered r)"
    "def_name d \<notin> def_name ` set (ordered r)"
    by (auto simp: registry_ok_def find_key_None)
  then have none: "List.find (\<lambda>x. endpoint x = endpoint d) (ordered r) = None"
    "List.find (\<lambda>x. def_name x = def_name d) (ordered r) = None"
    by (simp_all add: find_key_None)
  have snoc: "List.find (\<lambda>x. f x = k) (ordered r @ [d])
      = ((\<lambda>k. List.find (\<lambda>x. f x = k) (ordered r))(f d \<mapsto> d)) k"
    if "List.find (\<lambda>x. f x = f d) (ordered r) = None" for f :: "ResourceDefinition \<Rightarrow> string" and k
    using that by (auto simp: find_append split: option.splits)
  have "map_of (byEndpoint r) = (\<lambda>k. List.find (\<lambda>x. endpoint x = k) (ordered r))"
    and "map_of (byName r) = (\<lambda>k. List.find (\<lambda>x. def_name x = k) (ordered r))"
    using assms(1) by (auto simp: registry_ok_def)
  with assms(1) a fresh snoc [of endpoint] snoc [of def_name] none show ?thesis
    by (simp add: registry_ok_def)
qed

lemma find_mset:
  assumes "distinct (map f xs)" and "mset xs = mset ys"
  shows "List.find (\<lambda>y. f y = k) xs = List.find (\<lambda>y. f y = k) ys"
proof -
  have d: "distinct (map f ys)" using assms by (metis mset_eq_imp_distinct_iff mset_map)
  have s: "set xs = set ys" using assms(2) by (metis set_mset_mset)
  show ?thesis
  proof (cases "k \<in> f ` set xs")
    case True
    then obtain x where "x \<in> set xs" "k = f x" by blast
    with find_key_unique [OF assms(1)] find_key_unique [OF d] s show ?thesis by simp
  next
    case False
    with s find_key_None [of f k] show ?thesis by metis
  qed
qed

lemma NewRegistry_ok:
  assumes "NewRegistry P ds = Inr r"
  shows "registry_ok P r" and "sorted (map def_name (ordered r))"
proof -
  let ?r0 = "\<lparr>byEndpoint = [], byName = [], ordered = []\<rparr> :: Registry"
  from assms obtain q where q: "for_each (register P) ds ?r0 = Inr q"
    and r: "r = q\<lparr>ordered := sort_key def_name (ordered q)\<rparr>"
    by (auto simp: NewRegistry_def result_simps split: if_splits)
  have "registry_ok P ?r0" by (simp add: registry_ok_def)
  then have ok: "registry_ok P q"
    by (rule for_each_invariant [OF q, where I = "registry_ok P"]) (rule register_ok)
  have m: "mset (sort_key def_name (ordered q)) = mset (ordered q)" by simp
  from ok have "distinct (map def_name (sort_key def_name (ordered q)))"
    and "distinct (map endpoint (sort_key def_name (ordered q)))"
    by (metis m mset_eq_imp_distinct_iff mset_map registry_ok_def)+
  with ok m r show "registry_ok P r" by (simp add: registry_ok_def find_mset [OF _ m])
  from r show "sorted (map def_name (ordered r))" by simp
qed

lemma registry_lookup:
  assumes "NewRegistry P ds = Inr r"
  shows "definitionByEndpoint (Some r) k = Some d \<longleftrightarrow> d \<in> set (registry_definitions (Some r)) \<and> endpoint d = k"
    and "definitionByName (Some r) k = Some d \<longleftrightarrow> d \<in> set (registry_definitions (Some r)) \<and> def_name d = k"
proof -
  have ok: "registry_ok P r" using assms by (rule NewRegistry_ok)
  have iff: "List.find (\<lambda>y. f y = k) xs = Some d \<longleftrightarrow> d \<in> set xs \<and> f d = k"
    if "distinct (map f xs)" for f :: "ResourceDefinition \<Rightarrow> string" and xs
    using find_key_unique [OF that, of d] by (auto simp: find_Some_iff)
  from ok show "definitionByEndpoint (Some r) k = Some d \<longleftrightarrow> d \<in> set (registry_definitions (Some r)) \<and> endpoint d = k"
    by (simp add: registry_ok_def definitionByEndpoint_def registry_definitions_def iff)
  from ok show "definitionByName (Some r) k = Some d \<longleftrightarrow> d \<in> set (registry_definitions (Some r)) \<and> def_name d = k"
    by (simp add: registry_ok_def definitionByName_def registry_definitions_def iff)
qed

end
