(* ===== verification/Scim_Store.thy ===== *)
theory Scim_Store
  imports Scim_Records
begin

text \<open>
  The storage contract (store.go, the Transaction and Store interfaces) and the reference store
  (memory.go). A transaction is a function on the working state: an operation that fails
  returns its error and no state, and a callback that fails leaves the store as it was. The mutex of
  MemoryStore makes concurrent calls of Transact a sequence of whole transactions, which is what
  the step relation at the end describes.
\<close>

section \<open>The Transaction interface\<close>

text \<open>
  The operations of a Transaction on a state of any type; \<open>tx_set_password\<close> is \<^const>\<open>None\<close> when the
  store is not a PasswordStore.
\<close>

record 's tx_ops =
  tx_get :: "'s \<Rightarrow> string \<Rightarrow> string \<Rightarrow> string \<Rightarrow> Record result"
  tx_list :: "'s \<Rightarrow> Query \<Rightarrow> Record list result"
  tx_create :: "Record \<Rightarrow> 's \<Rightarrow> 's result"
  tx_replace :: "Record \<Rightarrow> string \<Rightarrow> 's \<Rightarrow> 's result"
  tx_delete :: "string \<Rightarrow> string \<Rightarrow> string \<Rightarrow> string \<Rightarrow> Tombstone \<Rightarrow> 's \<Rightarrow> 's result"
  tx_tombstones :: "'s \<Rightarrow> string \<Rightarrow> string \<Rightarrow> Tombstone list result"
  tx_set_password :: "(string \<Rightarrow> string \<Rightarrow> string \<Rightarrow> string \<Rightarrow> 's \<Rightarrow> (string \<times> 's) result) option"

text \<open>What \<^verbatim>\<open>ctx.Err()\<close> says when a transaction begins and when its callback has returned.\<close>

type_synonym ctx = "scim_error option \<times> scim_error option"

definition live_ctx :: ctx where
  "live_ctx = (None, None)"

definition Transact :: "ctx \<Rightarrow> ('s \<Rightarrow> ('a \<times> 's) result) \<Rightarrow> 's \<Rightarrow> 'a result \<times> 's" where
  "Transact ctx fn s =
     (case fst ctx of
        Some e \<Rightarrow> (Inl e, s)
      | None \<Rightarrow>
          (case fn s of
             Inl e \<Rightarrow> (Inl e, s)
           | Inr (x, working) \<Rightarrow>
               (case snd ctx of Some e \<Rightarrow> (Inl e, s) | None \<Rightarrow> (Inr x, working))))"

section \<open>The memory store\<close>

record memoryState =
  mem_records :: "(string \<times> Record) list"
  mem_tombstones :: "(string \<times> Tombstone) list"

definition newMemoryState :: memoryState where
  "newMemoryState = \<lparr>mem_records = [], mem_tombstones = []\<rparr>"

definition recordKey :: "string \<Rightarrow> string \<Rightarrow> string" where
  "recordKey resourceType i = resourceType @ CHR 0x00 # i"

definition memory_get :: "memoryState \<Rightarrow> string \<Rightarrow> string \<Rightarrow> string \<Rightarrow> Record result" where
  "memory_get s scope resourceType i =
     (case map_of (mem_records s) (recordKey resourceType i) of
        None \<Rightarrow> Inl ErrNotFound
      | Some r \<Rightarrow> if rec_scope r \<noteq> scope then Inl ErrNotFound else Inr r)"

definition recordMatches :: "platform \<Rightarrow> Record \<Rightarrow> string \<Rightarrow> string \<Rightarrow> bool" where
  "recordMatches P r attribute val \<longleftrightarrow>
     (if equal_fold P attribute ''externalId'' then rec_external r = val
      else (case List.find (\<lambda>index. equal_fold P (ix_name index) attribute) (rec_indexes r) of
              None \<Rightarrow> False
            | Some index \<Rightarrow>
                if ix_case_exact index then ix_value index = val else equal_fold P (ix_value index) val))"

definition query_matches :: "platform \<Rightarrow> Query \<Rightarrow> Record \<Rightarrow> bool" where
  "query_matches P q r \<longleftrightarrow>
     rec_scope r = q_scope q \<and> rec_type r = q_type q
     \<and> (q_attribute q \<noteq> [] \<longrightarrow> recordMatches P r (q_attribute q) (q_value q))"

definition memory_list :: "platform \<Rightarrow> memoryState \<Rightarrow> Query \<Rightarrow> Record list result" where
  "memory_list P s q =
     (if q_scope q = [] \<or> \<not> validName (q_type q)
         \<or> (q_attribute q \<noteq> [] \<and> \<not> validAttributeName (q_attribute q)) \<or> q_limit q < 1
      then Inl (OtherError ''store query is invalid'')
      else
        let found = filter (query_matches P q) (map snd (mem_records s)) in
        if q_limit q < int (length found) then Inl ErrTooMany else Inr (sort_key rec_id found))"

definition index_conflict :: "platform \<Rightarrow> IndexKey \<Rightarrow> IndexKey \<Rightarrow> bool" where
  "index_conflict P candidate current \<longleftrightarrow>
     (if \<not> equal_fold P (ix_name candidate) (ix_name current) then False
      else if ix_unique candidate \<noteq> ix_unique current \<or> ix_case_exact candidate \<noteq> ix_case_exact current then True
      else if \<not> ix_unique candidate then False
      else (ix_case_exact candidate \<and> ix_value candidate = ix_value current)
           \<or> (\<not> ix_case_exact candidate \<and> equal_fold P (ix_value candidate) (ix_value current)))"

definition record_conflict :: "platform \<Rightarrow> Record \<Rightarrow> Record \<Rightarrow> bool" where
  "record_conflict P r existing \<longleftrightarrow>
     rec_scope existing = rec_scope r \<and> rec_type existing = rec_type r
     \<and> list_ex (\<lambda>candidate. list_ex (index_conflict P candidate) (rec_indexes existing)) (rec_indexes r)"

definition hasIndexConflict :: "platform \<Rightarrow> memoryState \<Rightarrow> Record \<Rightarrow> string \<Rightarrow> bool" where
  "hasIndexConflict P s r excludedKey \<longleftrightarrow>
     list_ex (\<lambda>(key, existing). key \<noteq> excludedKey \<and> record_conflict P r existing) (mem_records s)"

definition reserved_by :: "Record \<Rightarrow> Tombstone \<Rightarrow> bool" where
  "reserved_by r t \<longleftrightarrow>
     tomb_id t = rec_id r
     \<or> (rec_external r \<noteq> [] \<and> tomb_scope t = rec_scope r \<and> tomb_type t = rec_type r
        \<and> tomb_external t = rec_external r)"

definition memory_create :: "platform \<Rightarrow> Record \<Rightarrow> memoryState \<Rightarrow> memoryState result" where
  "memory_create P r s =
     and_then (validateRecord P r) (\<lambda>_.
       let key = recordKey (rec_type r) (rec_id r) in
       if list_ex (\<lambda>(existingKey, existing). rec_id existing = rec_id r \<or> existingKey = key) (mem_records s)
       then Inl ErrConflict
       else if list_ex (\<lambda>(_, t). reserved_by r t) (mem_tombstones s) then Inl ErrTombstoned
       else if hasIndexConflict P s r [] then Inl ErrConflict
       else Inr (s\<lparr>mem_records := AList.update key r (mem_records s)\<rparr>))"

definition memory_replace :: "platform \<Rightarrow> Record \<Rightarrow> string \<Rightarrow> memoryState \<Rightarrow> memoryState result" where
  "memory_replace P r expectedVersion s =
     and_then (validateRecord P r) (\<lambda>_.
       let key = recordKey (rec_type r) (rec_id r) in
       (case map_of (mem_records s) key of
          None \<Rightarrow> Inl ErrNotFound
        | Some existing \<Rightarrow>
            if rec_scope existing \<noteq> rec_scope r then Inl ErrNotFound
            else if expectedVersion = [] \<or> rec_version existing \<noteq> expectedVersion then Inl ErrPrecondition
            else if rec_created r \<noteq> rec_created existing \<or> rec_manager r \<noteq> rec_manager existing
            then Inl (OtherError ''record creation time and manager are immutable'')
            else if hasIndexConflict P s r key then Inl ErrConflict
            else Inr (s\<lparr>mem_records := AList.update key r (mem_records s)\<rparr>)))"

definition tombstone_matches :: "string \<Rightarrow> string \<Rightarrow> string \<Rightarrow> Record \<Rightarrow> Tombstone \<Rightarrow> bool" where
  "tombstone_matches scope resourceType i r t \<longleftrightarrow>
     tomb_scope t = scope \<and> tomb_type t = resourceType \<and> tomb_id t = i \<and> tomb_deleted t \<noteq> 0
     \<and> tomb_version t = rec_version r \<and> tomb_external t = rec_external r \<and> tomb_manager t = rec_manager r"

definition memory_delete :: "string \<Rightarrow> string \<Rightarrow> string \<Rightarrow> string \<Rightarrow> Tombstone \<Rightarrow> memoryState \<Rightarrow> memoryState result" where
  "memory_delete scope resourceType i expectedVersion t s =
     (let key = recordKey resourceType i in
      (case map_of (mem_records s) key of
         None \<Rightarrow> Inl ErrNotFound
       | Some r \<Rightarrow>
           if rec_scope r \<noteq> scope then Inl ErrNotFound
           else if expectedVersion = [] \<or> rec_version r \<noteq> expectedVersion then Inl ErrPrecondition
           else if \<not> tombstone_matches scope resourceType i r t
           then Inl (OtherError ''tombstone does not match deleted resource'')
           else if has_key (mem_tombstones s) key then Inl ErrTombstoned
           else Inr (s\<lparr>mem_records := AList.delete key (mem_records s),
                       mem_tombstones := AList.update key t (mem_tombstones s)\<rparr>)))"

definition memory_tombstones :: "memoryState \<Rightarrow> string \<Rightarrow> string \<Rightarrow> Tombstone list result" where
  "memory_tombstones s scope resourceType =
     (if scope = [] \<or> \<not> validName resourceType then Inl (OtherError ''tombstone query is invalid'')
      else Inr (sort_key tomb_id
        (filter (\<lambda>t. tomb_scope t = scope \<and> tomb_type t = resourceType) (map snd (mem_tombstones s)))))"

definition memory_ops :: "platform \<Rightarrow> memoryState tx_ops" where
  "memory_ops P =
     \<lparr>tx_get = memory_get, tx_list = memory_list P, tx_create = memory_create P,
      tx_replace = memory_replace P, tx_delete = memory_delete, tx_tombstones = memory_tombstones,
      tx_set_password = None\<rparr>"

text \<open>NewMemoryStore and its Transact on the state the mutex protects.\<close>

definition memory_transact :: "ctx \<Rightarrow> (memoryState \<Rightarrow> ('a \<times> memoryState) result) \<Rightarrow> memoryState
    \<Rightarrow> 'a result \<times> memoryState" where
  "memory_transact = Transact"

section \<open>Keys\<close>

lemma ascii_byte_in_runes: "c \<in> set s \<Longrightarrow> byte c < 0x80 \<Longrightarrow> byte c \<in> set (runes s)"
proof (induction s rule: runes.induct)
  case (2 a s)
  let ?w = "rune_width (a # s)"
  show ?case
  proof (cases "byte a < 0x80")
    case True
    with 2 show ?thesis by (auto simp: decode_rune_def Let_def)
  next
    case False
    have high: "\<forall>x \<in> set (take ?w (a # s)). 0x80 \<le> byte x" 
    proof (cases "1 < ?w")
      case True
      then show ?thesis using chunk_high [of "a # s", OF refl] by blast
    next
      case no: False
      with high_width [OF False, of s] have "?w = 0" by linarith
      then show ?thesis by simp
    qed
    have rest: "c \<in> set (drop (?w - 1) s)"
    proof -
      from "2.prems" False have "c \<in> set s" by auto
      then have "c \<in> set (take (?w - 1) s) \<or> c \<in> set (drop (?w - 1) s)"
        by (metis append_take_drop_id set_append Un_iff)
      moreover have "c \<notin> set (take (?w - 1) s)"
      proof (cases ?w)
        case (Suc n)
        with high "2.prems"(2) show ?thesis by auto
      qed simp
      ultimately show ?thesis by blast
    qed
    show ?thesis
    proof (cases "?w = 0")
      case True
      then have "decode_rune (a # s) = (rune_error, 1)" by (simp add: decode_rune_def)
      with "2.IH" [OF this [symmetric]] rest True "2.prems"(2) show ?thesis by simp
    next
      case w: False
      then have "decode_rune (a # s) = (rune_value (take ?w (a # s)), ?w)" by (simp add: decode_rune_def Let_def)
      with "2.IH" [OF this [symmetric]] rest "2.prems"(2) show ?thesis by simp
    qed
  qed
qed simp

lemma no_nul: "\<not> has_control s \<Longrightarrow> CHR 0x00 \<notin> set s"
  using ascii_byte_in_runes [of "CHR 0x00" s] by (force simp: has_control_def list_ex_iff is_control_def)

lemma name_no_nul: "validName t \<Longrightarrow> CHR 0x00 \<notin> set t"
  by (auto simp: validName_def split: if_splits dest: name_chars_visible)

lemma id_no_nul: "validResourceID i \<Longrightarrow> CHR 0x00 \<notin> set i"
  by (simp add: validResourceID_def validString_def no_nul)

text \<open>The key of a valid record is the key of nothing else.\<close>

lemma recordKey_inject:
  assumes "validName t'" and "validResourceID i'" and "recordKey t i = recordKey t' i'"
  shows "t = t' \<and> i = i'"
proof -
  have nul: "CHR 0x00 \<notin> set t'" "CHR 0x00 \<notin> set i'" using assms name_no_nul id_no_nul by auto
  from assms(3) have eq: "t @ CHR 0x00 # i = t' @ CHR 0x00 # i'" by (simp add: recordKey_def)
  have "count_list (t @ CHR 0x00 # i) (CHR 0x00) = 1"
    unfolding eq using nul by (simp add: count_list_0_iff)
  then have "count_list t (CHR 0x00) = 0" by simp
  then have t: "CHR 0x00 \<notin> set t" by (simp add: count_list_0_iff)
  have "takeWhile (\<lambda>c. c \<noteq> CHR 0x00) (u @ CHR 0x00 # j) = u" if "CHR 0x00 \<notin> set u" for u j
    using that by (auto simp: takeWhile_append)
  with t nul(1) eq show ?thesis by (metis append_same_eq list.inject same_append_eq)
qed

lemma recordKey_nonempty [simp]: "recordKey t i \<noteq> []"
  by (simp add: recordKey_def)

lemma index_conflict_sym: "index_conflict P a b = index_conflict P b a"
  unfolding index_conflict_def equal_fold_def by auto

lemma record_conflict_sym: "record_conflict P r q = record_conflict P q r"
  unfolding record_conflict_def list_ex_iff using index_conflict_sym by metis

section \<open>The invariant\<close>

text \<open>
  Every record and tombstone stands under its own key; records are valid; identifiers are unique
  over all scopes and types, and none is both live and tombstoned; no two live records of a scope
  and type conflict on an index.
\<close>

definition separate :: "platform \<Rightarrow> string \<times> Record \<Rightarrow> string \<times> Record \<Rightarrow> bool" where
  "separate P x y \<longleftrightarrow>
     fst x \<noteq> fst y \<longrightarrow> rec_id (snd x) \<noteq> rec_id (snd y) \<and> \<not> record_conflict P (snd x) (snd y)"

definition entry_ok :: "platform \<Rightarrow> string \<times> Record \<Rightarrow> bool" where
  "entry_ok P x \<longleftrightarrow> fst x = recordKey (rec_type (snd x)) (rec_id (snd x)) \<and> record_ok P (snd x)"

definition grave_ok :: "string \<times> Tombstone \<Rightarrow> bool" where
  "grave_ok x \<longleftrightarrow> fst x = recordKey (tomb_type (snd x)) (tomb_id (snd x)) \<and> tomb_deleted (snd x) \<noteq> 0"

definition store_ok :: "platform \<Rightarrow> memoryState \<Rightarrow> bool" where
  "store_ok P s \<longleftrightarrow>
     distinct (keys (mem_records s)) \<and> distinct (keys (mem_tombstones s))
     \<and> (\<forall>x \<in> set (mem_records s). entry_ok P x) \<and> (\<forall>x \<in> set (mem_tombstones s). grave_ok x)
     \<and> (\<forall>x \<in> set (mem_records s). \<forall>y \<in> set (mem_records s). separate P x y)
     \<and> (\<forall>x \<in> set (mem_records s). \<forall>y \<in> set (mem_tombstones s). rec_id (snd x) \<noteq> tomb_id (snd y))"

lemma set_update_distinct:
  "distinct (keys m) \<Longrightarrow> set (AList.update k v m) = insert (k, v) {x \<in> set m. fst x \<noteq> k}"
proof (induction m)
  case (Cons p m)
  show ?case
  proof (cases "fst p = k")
    case True
    with Cons.prems have "\<forall>x \<in> set m. fst x \<noteq> k" by (metis distinct.simps(2) image_eqI list.map(2) list.set_map)
    with True show ?thesis by (cases p) auto
  next
    case False
    with Cons show ?thesis by (cases p) auto
  qed
qed simp

lemma store_ok_empty: "store_ok P newMemoryState"
  by (simp add: store_ok_def newMemoryState_def)

lemma store_ok_update:
  assumes "store_ok P s" and "entry_ok P (k, r)"
    and "\<And>x. x \<in> set (mem_records s) \<Longrightarrow> separate P (k, r) x"
    and "\<And>y. y \<in> set (mem_tombstones s) \<Longrightarrow> rec_id r \<noteq> tomb_id (snd y)"
  shows "store_ok P (s\<lparr>mem_records := AList.update k r (mem_records s)\<rparr>)"
proof -
  have d: "distinct (keys (mem_records s))" using assms(1) by (simp add: store_ok_def)
  have sym: "separate P x (k, r)" if "x \<in> set (mem_records s)" for x
    using assms(3) [OF that] record_conflict_sym by (auto simp: separate_def)
  have self: "separate P (k, r) (k, r)" by (simp add: separate_def)
  show ?thesis
    using assms sym self by (simp add: store_ok_def set_update_distinct [OF d] distinct_update)
qed

lemma store_ok_create:
  assumes "store_ok P s" and "memory_create P r s = Inr s'"
  shows "store_ok P s'"
proof -
  let ?k = "recordKey (rec_type r) (rec_id r)"
  from assms(2) have ok: "record_ok P r"
    and live: "\<not> list_ex (\<lambda>(existingKey, existing). rec_id existing = rec_id r \<or> existingKey = ?k) (mem_records s)"
    and tomb: "\<not> list_ex (\<lambda>(_, t). reserved_by r t) (mem_tombstones s)"
    and idx: "\<not> hasIndexConflict P s r []"
    and s': "s' = s\<lparr>mem_records := AList.update ?k r (mem_records s)\<rparr>"
    by (auto simp: memory_create_def result_simps Let_def record_ok_def split: if_splits)
  have sep: "separate P (?k, r) x" if x: "x \<in> set (mem_records s)" for x
  proof -
    have "fst x \<noteq> []" using assms(1) x by (auto simp: store_ok_def entry_ok_def)
    with x live idx show ?thesis
      by (auto simp: separate_def hasIndexConflict_def list_ex_iff)
  qed
  have "rec_id r \<noteq> tomb_id (snd y)" if "y \<in> set (mem_tombstones s)" for y
    using tomb that by (auto simp: list_ex_iff reserved_by_def)
  moreover have "entry_ok P (?k, r)" using ok by (simp add: entry_ok_def)
  ultimately show ?thesis unfolding s' using assms(1) sep by (intro store_ok_update)
qed

lemma store_ok_entry:
  assumes "store_ok P s" and "map_of (mem_records s) k = Some r"
  shows "entry_ok P (k, r)" and "(k, r) \<in> set (mem_records s)"
  using assms map_of_SomeD by (fastforce simp: store_ok_def)+

text \<open>A record found under a key is the record of that type and identifier.\<close>

lemma store_ok_lookup:
  assumes "store_ok P s" and "map_of (mem_records s) (recordKey t i) = Some r"
  shows "rec_type r = t" and "rec_id r = i" and "record_ok P r"
proof -
  from store_ok_entry [OF assms] have k: "recordKey t i = recordKey (rec_type r) (rec_id r)"
    and ok: "record_ok P r" by (simp_all add: entry_ok_def)
  from recordKey_inject [OF record_ok_fields(2) [OF ok] record_ok_fields(3) [OF ok] k] ok
  show "rec_type r = t" and "rec_id r = i" and "record_ok P r" by simp_all
qed

lemma store_ok_replace:
  assumes "store_ok P s" and "memory_replace P r expectedVersion s = Inr s'"
  shows "store_ok P s'"
proof -
  let ?k = "recordKey (rec_type r) (rec_id r)"
  from assms(2) obtain old where ok: "record_ok P r" and old: "map_of (mem_records s) ?k = Some old"
    and idx: "\<not> hasIndexConflict P s r ?k"
    and s': "s' = s\<lparr>mem_records := AList.update ?k r (mem_records s)\<rparr>"
    by (auto simp: memory_replace_def result_simps Let_def record_ok_def split: if_splits option.splits)
  have id: "rec_id old = rec_id r" using store_ok_lookup [OF assms(1) old] by simp
  have mem: "(?k, old) \<in> set (mem_records s)" using store_ok_entry [OF assms(1) old] by simp
  have sep: "separate P (?k, r) x" if x: "x \<in> set (mem_records s)" for x
  proof -
    have "separate P (?k, old) x" using assms(1) mem x by (auto simp: store_ok_def)
    with x idx id show ?thesis by (auto simp: separate_def hasIndexConflict_def list_ex_iff)
  qed
  have "rec_id r \<noteq> tomb_id (snd y)" if "y \<in> set (mem_tombstones s)" for y
    using assms(1) mem id that by (fastforce simp: store_ok_def)
  moreover have "entry_ok P (?k, r)" using ok by (simp add: entry_ok_def)
  ultimately show ?thesis unfolding s' using assms(1) sep by (intro store_ok_update)
qed

lemma memory_delete_Inr:
  assumes "memory_delete scope ty i ver t s = Inr s'"
  obtains r where "map_of (mem_records s) (recordKey ty i) = Some r" and "rec_scope r = scope"
    and "rec_version r = ver" and "tombstone_matches scope ty i r t"
    and "map_of (mem_tombstones s) (recordKey ty i) = None"
    and "s' = s\<lparr>mem_records := AList.delete (recordKey ty i) (mem_records s),
                 mem_tombstones := AList.update (recordKey ty i) t (mem_tombstones s)\<rparr>"
  using assms by (auto simp: memory_delete_def Let_def split: if_splits option.splits)

lemma store_ok_delete:
  assumes "store_ok P s" and "memory_delete scope ty i ver t s = Inr s'"
  shows "store_ok P s'"
proof -
  let ?k = "recordKey ty i"
  from assms(2) obtain r where r: "map_of (mem_records s) ?k = Some r"
    and t: "tombstone_matches scope ty i r t"
    and s': "s' = s\<lparr>mem_records := AList.delete ?k (mem_records s),
                     mem_tombstones := AList.update ?k t (mem_tombstones s)\<rparr>"
    by (rule memory_delete_Inr)
  have dt: "distinct (keys (mem_tombstones s))" using assms(1) by (simp add: store_ok_def)
  have del: "set (AList.delete ?k (mem_records s)) = {x \<in> set (mem_records s). fst x \<noteq> ?k}"
    by (auto simp: AList.delete_eq)
  have mem: "(?k, r) \<in> set (mem_records s)" and id: "rec_id r = i"
    using store_ok_entry [OF assms(1) r] store_ok_lookup [OF assms(1) r] by simp_all
  have other: "rec_id (snd x) \<noteq> tomb_id t" if "x \<in> set (mem_records s)" "fst x \<noteq> ?k" for x
  proof -
    have "separate P x (?k, r)" using assms(1) mem that(1) by (auto simp: store_ok_def)
    with that(2) id t show ?thesis by (simp add: separate_def tombstone_matches_def)
  qed
  have grave: "grave_ok (?k, t)" using t by (simp add: grave_ok_def tombstone_matches_def)
  show ?thesis
    unfolding s' using assms(1) other grave
    by (auto simp: store_ok_def del set_update_distinct [OF dt] distinct_update keys_delete)
qed

end
