(* ===== verification/Scim_Contract.thy ===== *)
theory Scim_Contract
  imports Scim_Store
begin

text \<open>
  What the operations of a transaction promise each other, as a locale, and the memory store as its
  provider. The laws are the contract store.go states for implementations: reads return what was
  written, writes check versions, and a tombstone stays.
  The last section follows a store through any sequence of successful writes.
\<close>

section \<open>The contract\<close>

locale transactions =
  fixes P :: platform and ops :: "'s tx_ops" and inv :: "'s \<Rightarrow> bool"
  assumes get_sound: "inv s \<Longrightarrow> tx_get ops s sc ty i = Inr r \<Longrightarrow>
        rec_scope r = sc \<and> rec_type r = ty \<and> rec_id r = i \<and> record_ok P r"
    and get_error: "tx_get ops s sc ty i = Inl e \<Longrightarrow> e = ErrNotFound"
    and create_inv: "inv s \<Longrightarrow> tx_create ops r s = Inr s' \<Longrightarrow> inv s'"
    and replace_inv: "inv s \<Longrightarrow> tx_replace ops r v s = Inr s' \<Longrightarrow> inv s'"
    and delete_inv: "inv s \<Longrightarrow> tx_delete ops sc ty i v t s = Inr s' \<Longrightarrow> inv s'"
    and create_fresh: "inv s \<Longrightarrow> tx_create ops r s = Inr s' \<Longrightarrow>
        record_ok P r \<and> tx_get ops s sc ty (rec_id r) = Inl ErrNotFound"
    and create_get: "inv s \<Longrightarrow> tx_create ops r s = Inr s' \<Longrightarrow>
        tx_get ops s' sc ty i =
          (if sc = rec_scope r \<and> ty = rec_type r \<and> i = rec_id r then Inr r else tx_get ops s sc ty i)"
    and replace_checks: "inv s \<Longrightarrow> tx_replace ops r v s = Inr s' \<Longrightarrow>
        v \<noteq> [] \<and> (\<exists>old. tx_get ops s (rec_scope r) (rec_type r) (rec_id r) = Inr old \<and> rec_version old = v
          \<and> rec_created old = rec_created r \<and> rec_manager old = rec_manager r)"
    and replace_get: "inv s \<Longrightarrow> tx_replace ops r v s = Inr s' \<Longrightarrow>
        tx_get ops s' sc ty i =
          (if sc = rec_scope r \<and> ty = rec_type r \<and> i = rec_id r then Inr r else tx_get ops s sc ty i)"
    and delete_checks: "inv s \<Longrightarrow> tx_delete ops sc ty i v t s = Inr s' \<Longrightarrow>
        v \<noteq> [] \<and> (\<exists>old. tx_get ops s sc ty i = Inr old \<and> rec_version old = v \<and> tombstone_matches sc ty i old t)"
    and delete_get: "inv s \<Longrightarrow> tx_delete ops sc ty i v t s = Inr s' \<Longrightarrow>
        tx_get ops s' sc' ty' i' =
          (if sc' = sc \<and> ty' = ty \<and> i' = i then Inl ErrNotFound else tx_get ops s sc' ty' i')"
    and list_sound: "inv s \<Longrightarrow> tx_list ops s q = Inr rs \<Longrightarrow>
        distinct (map rec_id rs) \<and> sorted (map rec_id rs) \<and> int (length rs) \<le> q_limit q
        \<and> (\<forall>r. r \<in> set rs \<longleftrightarrow> tx_get ops s (q_scope q) (q_type q) (rec_id r) = Inr r \<and> query_matches P q r)"
    and graves_create: "inv s \<Longrightarrow> tx_create ops r s = Inr s' \<Longrightarrow> tx_tombstones ops s sc ty = Inr ts \<Longrightarrow>
        tx_tombstones ops s' sc ty = Inr ts \<and> (\<forall>t \<in> set ts. \<not> reserved_by r t)"
    and graves_replace: "inv s \<Longrightarrow> tx_replace ops r v s = Inr s' \<Longrightarrow>
        tx_tombstones ops s' sc ty = tx_tombstones ops s sc ty"
    and graves_delete: "inv s \<Longrightarrow> tx_delete ops sc ty i v t s = Inr s' \<Longrightarrow>
        tx_tombstones ops s sc' ty' = Inr ts \<Longrightarrow>
        \<exists>ts'. tx_tombstones ops s' sc' ty' = Inr ts'
          \<and> set ts' = set ts \<union> (if sc' = sc \<and> ty' = ty then {t} else {})"
begin

text \<open>A write that was based on a version succeeds at most once: the second sees a new version.\<close>

lemma stale_replace_fails:
  assumes "inv s" and "tx_replace ops r v s = Inr s'" and "rec_version r \<noteq> v"
    and "rec_scope q = rec_scope r" and "rec_type q = rec_type r" and "rec_id q = rec_id r"
  shows "tx_replace ops q v s' \<noteq> Inr s''"
proof
  assume again: "tx_replace ops q v s' = Inr s''"
  from replace_checks [OF replace_inv [OF assms(1,2)] again] assms(4-6) obtain old
    where "tx_get ops s' (rec_scope r) (rec_type r) (rec_id r) = Inr old" and "rec_version old = v" by auto
  with replace_get [OF assms(1,2)] assms(3) show False by simp
qed

text \<open>An identifier is not created while it is live, in any scope.\<close>

lemma create_live_fails:
  assumes "inv s" and "tx_get ops s sc ty i = Inr q" and "rec_id r = i"
  shows "tx_create ops r s \<noteq> Inr s'"
  using assms create_fresh [of s r s' sc ty] by auto

lemma create_deleted_fails:
  assumes "inv s" and "tx_delete ops sc ty i v t s = Inr s'" and "tx_tombstones ops s sc ty = Inr ts"
    and "rec_id r = i"
  shows "tx_create ops r s' \<noteq> Inr s''"
proof
  assume c: "tx_create ops r s' = Inr s''"
  from delete_checks [OF assms(1,2)] have t: "tomb_id t = i" by (auto simp: tombstone_matches_def)
  from graves_delete [OF assms(1-3)] obtain ts' where "tx_tombstones ops s' sc ty = Inr ts'" and "t \<in> set ts'"
    by auto
  with graves_create [OF delete_inv [OF assms(1,2)] c] have "\<not> reserved_by r t" by blast
  with t assms(4) show False by (simp add: reserved_by_def)
qed

end

section \<open>The memory store provides it\<close>

lemma memory_get_Inr:
  "memory_get s sc ty i = Inr r \<longleftrightarrow> map_of (mem_records s) (recordKey ty i) = Some r \<and> rec_scope r = sc"
  by (auto simp: memory_get_def split: option.splits)

lemma memory_get_member:
  assumes "store_ok P s"
  shows "memory_get s sc ty i = Inr r \<longleftrightarrow>
    (recordKey ty i, r) \<in> set (mem_records s) \<and> rec_scope r = sc \<and> rec_type r = ty \<and> rec_id r = i"
proof -
  have "map_of (mem_records s) k = Some r \<longleftrightarrow> (k, r) \<in> set (mem_records s)" for k
    using assms by (simp add: store_ok_def map_of_eq_Some_iff)
  then show ?thesis using store_ok_lookup [OF assms, of ty i r] by (auto simp: memory_get_Inr)
qed

lemma memory_update_get:
  assumes "record_ok P r"
  shows "memory_get (s\<lparr>mem_records := AList.update (recordKey (rec_type r) (rec_id r)) r (mem_records s)\<rparr>) sc ty i =
    (if ty = rec_type r \<and> i = rec_id r then (if sc = rec_scope r then Inr r else Inl ErrNotFound)
     else memory_get s sc ty i)"
  using recordKey_inject [OF record_ok_fields(2) [OF assms] record_ok_fields(3) [OF assms], of ty i]
  by (auto simp: memory_get_def map_of_update)

lemma memory_create_Inr:
  assumes "memory_create P r s = Inr s'"
  shows "record_ok P r" and "\<And>k q. (k, q) \<in> set (mem_records s) \<Longrightarrow> rec_id q \<noteq> rec_id r"
    and "\<And>k t. (k, t) \<in> set (mem_tombstones s) \<Longrightarrow> \<not> reserved_by r t"
    and "s' = s\<lparr>mem_records := AList.update (recordKey (rec_type r) (rec_id r)) r (mem_records s)\<rparr>"
  using assms
  by (auto simp: memory_create_def result_simps Let_def record_ok_def list_ex_iff split: if_splits)

lemma memory_create_fresh:
  assumes "store_ok P s" and "memory_create P r s = Inr s'"
  shows "memory_get s sc ty (rec_id r) = Inl ErrNotFound"
proof (cases "memory_get s sc ty (rec_id r)")
  case (Inl e)
  then show ?thesis by (auto simp: memory_get_def split: option.splits if_splits)
next
  case (Inr q)
  then show ?thesis
    using memory_get_member [OF assms(1)] memory_create_Inr(2) [OF assms(2)] by blast
qed

lemma memory_replace_Inr:
  assumes "memory_replace P r v s = Inr s'"
  obtains old where "record_ok P r" and "map_of (mem_records s) (recordKey (rec_type r) (rec_id r)) = Some old"
    and "rec_scope old = rec_scope r" and "v \<noteq> []" and "rec_version old = v"
    and "rec_created r = rec_created old" and "rec_manager r = rec_manager old"
    and "s' = s\<lparr>mem_records := AList.update (recordKey (rec_type r) (rec_id r)) r (mem_records s)\<rparr>"
  using assms
  by (auto simp: memory_replace_def result_simps Let_def record_ok_def split: if_splits option.splits)

lemma memory_replace_get:
  assumes "memory_replace P r v s = Inr s'"
  shows "memory_get s' sc ty i =
    (if sc = rec_scope r \<and> ty = rec_type r \<and> i = rec_id r then Inr r else memory_get s sc ty i)"
proof -
  from assms obtain old where ok: "record_ok P r"
    and old: "map_of (mem_records s) (recordKey (rec_type r) (rec_id r)) = Some old" "rec_scope old = rec_scope r"
    and s': "s' = s\<lparr>mem_records := AList.update (recordKey (rec_type r) (rec_id r)) r (mem_records s)\<rparr>"
    by (rule memory_replace_Inr)
  show ?thesis unfolding s' memory_update_get [OF ok] using old by (auto simp: memory_get_def)
qed

lemma memory_delete_get:
  assumes "store_ok P s" and "memory_delete sc ty i v t s = Inr s'"
  shows "memory_get s' sc' ty' i' =
    (if sc' = sc \<and> ty' = ty \<and> i' = i then Inl ErrNotFound else memory_get s sc' ty' i')"
proof -
  from assms(2) obtain r where r: "map_of (mem_records s) (recordKey ty i) = Some r" "rec_scope r = sc"
    and s': "s' = s\<lparr>mem_records := AList.delete (recordKey ty i) (mem_records s),
                 mem_tombstones := AList.update (recordKey ty i) t (mem_tombstones s)\<rparr>"
    by (rule memory_delete_Inr)
  note k = store_ok_lookup [OF assms(1) r(1)]
  have "validName ty" "validResourceID i" using record_ok_fields(2,3) [OF k(3)] k(1,2) by simp_all
  then have "recordKey ty' i' = recordKey ty i \<longleftrightarrow> ty' = ty \<and> i' = i" using recordKey_inject by blast
  with r show ?thesis unfolding s' by (auto simp: memory_get_def map_of_delete)
qed

lemma memory_list_Inr:
  assumes "store_ok P s" and "memory_list P s q = Inr rs"
  shows "distinct (map rec_id rs)" and "sorted (map rec_id rs)" and "int (length rs) \<le> q_limit q"
    and "r \<in> set rs \<longleftrightarrow> memory_get s (q_scope q) (q_type q) (rec_id r) = Inr r \<and> query_matches P q r"
proof -
  let ?found = "filter (query_matches P q) (map snd (mem_records s))"
  from assms(2) have rs: "rs = sort_key rec_id ?found" and len: "int (length ?found) \<le> q_limit q"
    by (auto simp: memory_list_def Let_def split: if_splits)
  have dk: "distinct (keys (mem_records s))" using assms(1) by (simp add: store_ok_def)
  have inj: "inj_on (\<lambda>x. rec_id (snd x)) (set (mem_records s))"
  proof (rule inj_onI)
    fix x y assume xy: "x \<in> set (mem_records s)" "y \<in> set (mem_records s)" "rec_id (snd x) = rec_id (snd y)"
    then have "fst x = fst y" using assms(1) unfolding store_ok_def separate_def by metis
    with xy dk show "x = y" by (metis eq_key_imp_eq_value prod.collapse)
  qed
  have "distinct (map rec_id (map snd (mem_records s)))"
    using inj dk by (simp add: comp_def distinct_map inj_on_def)
  then have "distinct (map rec_id ?found)" by (rule distinct_map_filter)
  then show "distinct (map rec_id rs)"
    unfolding rs by (metis mset_eq_imp_distinct_iff mset_map mset_sort)
  show "sorted (map rec_id rs)" unfolding rs by simp
  show "int (length rs) \<le> q_limit q" using len by (simp add: rs)
  have "r \<in> set rs \<longleftrightarrow> (\<exists>k. (k, r) \<in> set (mem_records s)) \<and> query_matches P q r"
    unfolding rs by force
  also have "\<dots> \<longleftrightarrow> memory_get s (q_scope q) (q_type q) (rec_id r) = Inr r \<and> query_matches P q r"
    unfolding memory_get_member [OF assms(1)]
    using assms(1) by (auto simp: query_matches_def store_ok_def entry_ok_def)
  finally show "r \<in> set rs \<longleftrightarrow> memory_get s (q_scope q) (q_type q) (rec_id r) = Inr r \<and> query_matches P q r" .
qed

lemma memory_tombstones_delete:
  assumes "store_ok P s" and "memory_delete sc ty i v t s = Inr s'"
    and "memory_tombstones s sc' ty' = Inr ts"
  shows "\<exists>ts'. memory_tombstones s' sc' ty' = Inr ts'
    \<and> set ts' = set ts \<union> (if sc' = sc \<and> ty' = ty then {t} else {})"
proof -
  from assms(2) obtain r where t: "tombstone_matches sc ty i r t"
    and none: "map_of (mem_tombstones s) (recordKey ty i) = None"
    and s': "s' = s\<lparr>mem_records := AList.delete (recordKey ty i) (mem_records s),
                 mem_tombstones := AList.update (recordKey ty i) t (mem_tombstones s)\<rparr>"
    by (rule memory_delete_Inr)
  have "recordKey ty i \<notin> set (keys (mem_tombstones s))" using none by (simp add: map_of_eq_None_iff)
  then have u: "AList.update (recordKey ty i) t (mem_tombstones s) = mem_tombstones s @ [(recordKey ty i, t)]"
    by (rule update_fresh)
  let ?at = "\<lambda>sc ty. filter (\<lambda>t. tomb_scope t = sc \<and> tomb_type t = ty)"
  from t have at: "?at sc' ty' [t] = (if sc' = sc \<and> ty' = ty then [t] else [])"
    by (auto simp: tombstone_matches_def)
  from assms(3) have ts: "set ts = set (?at sc' ty' (map snd (mem_tombstones s)))"
    and "memory_tombstones s' sc' ty'
      = Inr (sort_key tomb_id (?at sc' ty' (map snd (mem_tombstones s) @ [t])))"
    by (auto simp: memory_tombstones_def s' u simp del: set_map filter_append split: if_splits)
  then show ?thesis by (simp only: filter_append at) auto
qed

interpretation memory: transactions P "memory_ops P" "store_ok P" for P :: platform
proof (unfold_locales, goal_cases)
  case (1 s sc ty i r)
  then show ?case using store_ok_lookup by (auto simp: memory_ops_def memory_get_Inr)
next
  case (2 s sc ty i e)
  then show ?case by (auto simp: memory_ops_def memory_get_def split: option.splits if_splits)
next
  case (3 s r s')
  then show ?case using store_ok_create by (auto simp: memory_ops_def)
next
  case (4 s r v s')
  then show ?case using store_ok_replace by (auto simp: memory_ops_def)
next
  case (5 s sc ty i v t s')
  then show ?case using store_ok_delete by (auto simp: memory_ops_def)
next
  case (6 s r s' sc ty)
  then show ?case using memory_create_Inr(1) memory_create_fresh by (auto simp: memory_ops_def)
next
  case (7 s r s' sc ty i)
  then have c: "memory_create P r s = Inr s'" by (simp add: memory_ops_def)
  from memory_update_get [OF memory_create_Inr(1) [OF c]] memory_create_fresh [OF 7(1) c]
  show ?case unfolding memory_create_Inr(4) [OF c] by (auto simp: memory_ops_def)
next
  case (8 s r v s')
  then have "memory_replace P r v s = Inr s'" by (simp add: memory_ops_def)
  then show ?case by (elim memory_replace_Inr) (auto simp: memory_ops_def memory_get_Inr)
next
  case (9 s r v s' sc ty i)
  then show ?case using memory_replace_get by (simp add: memory_ops_def)
next
  case (10 s sc ty i v t s')
  then have d: "memory_delete sc ty i v t s = Inr s'" by (simp add: memory_ops_def)
  then have "v \<noteq> []" by (auto simp: memory_delete_def Let_def split: option.splits if_splits)
  with d show ?case by (elim memory_delete_Inr) (auto simp: memory_ops_def memory_get_Inr)
next
  case (11 s sc ty i v t s' sc' ty' i')
  then show ?case using memory_delete_get by (simp add: memory_ops_def)
next
  case (12 s q rs)
  then show ?case using memory_list_Inr [of P s q rs] by (simp add: memory_ops_def)
next
  case (13 s r s' sc ty ts)
  then have c: "memory_create P r s = Inr s'" by (simp add: memory_ops_def)
  from 13(3) memory_create_Inr(3) [OF c] show ?case
    by (auto simp: memory_ops_def memory_create_Inr(4) [OF c] memory_tombstones_def split: if_splits)
next
  case (14 s r v s' sc ty)
  then have "memory_replace P r v s = Inr s'" by (simp add: memory_ops_def)
  then show ?case by (elim memory_replace_Inr) (auto simp: memory_ops_def memory_tombstones_def)
next
  case (15 s sc ty i v t s' sc' ty' ts)
  then show ?case using memory_tombstones_delete by (simp add: memory_ops_def)
qed

section \<open>Runs\<close>

text \<open>One successful write; a run is any sequence of them, of any callers and scopes.\<close>

inductive store_step :: "platform \<Rightarrow> memoryState \<Rightarrow> memoryState \<Rightarrow> bool" for P where
  step_create: "memory_create P r s = Inr s' \<Longrightarrow> store_step P s s'"
| step_replace: "memory_replace P r v s = Inr s' \<Longrightarrow> store_step P s s'"
| step_delete: "memory_delete sc ty i v t s = Inr s' \<Longrightarrow> store_step P s s'"

inductive_cases store_stepE: "store_step P s s'"

abbreviation store_run :: "platform \<Rightarrow> memoryState \<Rightarrow> memoryState \<Rightarrow> bool" where
  "store_run P \<equiv> (store_step P)\<^sup>*\<^sup>*"

lemmas store_ok_writes = store_ok_create store_ok_replace store_ok_delete

lemma store_step_ok: "store_step P s s' \<Longrightarrow> store_ok P s \<Longrightarrow> store_ok P s'"
  by (erule store_stepE) (auto intro: store_ok_writes)

lemma store_run_ok: "store_run P s s' \<Longrightarrow> store_ok P s \<Longrightarrow> store_ok P s'"
  by (induction rule: rtranclp_induct) (auto intro: store_step_ok)

lemma tombstone_step:
  assumes "store_step P s s'" and "x \<in> set (mem_tombstones s)"
  shows "x \<in> set (mem_tombstones s')"
  using assms(1)
proof cases
  case (step_delete sc ty i v t)
  then obtain r where none: "map_of (mem_tombstones s) (recordKey ty i) = None"
    and s': "s' = s\<lparr>mem_records := AList.delete (recordKey ty i) (mem_records s),
                 mem_tombstones := AList.update (recordKey ty i) t (mem_tombstones s)\<rparr>"
    by (rule memory_delete_Inr)
  from none have "recordKey ty i \<notin> set (keys (mem_tombstones s))" by (simp add: map_of_eq_None_iff)
  with assms(2) show ?thesis by (simp add: s' update_fresh)
qed (use assms(2) in \<open>auto dest: memory_create_Inr(4) elim: memory_replace_Inr\<close>)

lemma tombstone_run: "store_run P s s' \<Longrightarrow> x \<in> set (mem_tombstones s) \<Longrightarrow> x \<in> set (mem_tombstones s')"
  by (induction rule: rtranclp_induct) (auto intro: tombstone_step)

text \<open>
  The life of an identifier: while it is live its scope, type, creation time and manager do not
  change, and once it is gone it is tombstoned.
\<close>

definition same_identity :: "Record \<Rightarrow> Record \<Rightarrow> bool" where
  "same_identity r q \<longleftrightarrow> rec_scope q = rec_scope r \<and> rec_type q = rec_type r \<and> rec_id q = rec_id r
     \<and> rec_created q = rec_created r \<and> rec_manager q = rec_manager r"

definition lives_or_died :: "Record \<Rightarrow> memoryState \<Rightarrow> bool" where
  "lives_or_died r s \<longleftrightarrow>
     (\<exists>k q. (k, q) \<in> set (mem_records s) \<and> same_identity r q)
     \<or> (\<exists>k t. (k, t) \<in> set (mem_tombstones s) \<and> tomb_id t = rec_id r)"

lemma unique_live:
  assumes "store_ok P s" and "(k, q) \<in> set (mem_records s)" and "(k', q') \<in> set (mem_records s)"
    and "rec_id q = rec_id q'"
  shows "q = q'"
proof -
  have "k = k'" using assms by (fastforce simp: store_ok_def separate_def)
  with assms(1-3) show ?thesis by (metis eq_key_imp_eq_value store_ok_def)
qed

lemma life_step:
  assumes "store_ok P s" and "store_step P s s'" and "lives_or_died r s"
  shows "lives_or_died r s'"
proof -
  have d: "distinct (keys (mem_records s))" using assms(1) by (simp add: store_ok_def)
  consider k t where "(k, t) \<in> set (mem_tombstones s)" "tomb_id t = rec_id r"
    | k q where "(k, q) \<in> set (mem_records s)" "same_identity r q"
    using assms(3) by (auto simp: lives_or_died_def)
  then show ?thesis
  proof cases
    case (1 k t)
    with tombstone_step [OF assms(2)] have "(k, t) \<in> set (mem_tombstones s')" by blast
    with 1 show ?thesis by (auto simp: lives_or_died_def)
  next
    case (2 k q)
    from assms(2) show ?thesis
    proof cases
      case (step_create r')
      have "k \<noteq> recordKey (rec_type r') (rec_id r')"
      proof
        assume k: "k = recordKey (rec_type r') (rec_id r')"
        have "k = recordKey (rec_type q) (rec_id q)" and q: "record_ok P q"
          using assms(1) 2(1) by (auto simp: store_ok_def entry_ok_def)
        with k have "rec_id r' = rec_id q"
          using recordKey_inject [OF record_ok_fields(2,3) [OF q]] by metis
        with memory_create_Inr(2) [OF step_create 2(1)] show False by simp
      qed
      with 2 show ?thesis
        unfolding memory_create_Inr(4) [OF step_create] lives_or_died_def by (auto simp: set_update_distinct [OF d])
    next
      case (step_replace r' v)
      then obtain old where old: "map_of (mem_records s) (recordKey (rec_type r') (rec_id r')) = Some old"
        "rec_scope old = rec_scope r'" "rec_created r' = rec_created old" "rec_manager r' = rec_manager old"
        and s': "s' = s\<lparr>mem_records := AList.update (recordKey (rec_type r') (rec_id r')) r' (mem_records s)\<rparr>"
        by (rule memory_replace_Inr)
      note o = store_ok_lookup(1,2) [OF assms(1) old(1)]
      show ?thesis
      proof (cases "k = recordKey (rec_type r') (rec_id r')")
        case True
        with old(1) map_of_is_SomeI [OF d \<open>(k, q) \<in> set (mem_records s)\<close>] have "q = old" by simp
        with \<open>same_identity r q\<close> old o have "same_identity r r'" by (simp add: same_identity_def)
        then show ?thesis unfolding s' lives_or_died_def by (auto simp: set_update_distinct [OF d])
      next
        case False
        with \<open>(k, q) \<in> set (mem_records s)\<close> \<open>same_identity r q\<close> show ?thesis
          unfolding s' lives_or_died_def by (auto simp: set_update_distinct [OF d])
      qed
    next
      case (step_delete sc ty i v t)
      then obtain old where old: "map_of (mem_records s) (recordKey ty i) = Some old"
        "tombstone_matches sc ty i old t"
        and s': "s' = s\<lparr>mem_records := AList.delete (recordKey ty i) (mem_records s),
                 mem_tombstones := AList.update (recordKey ty i) t (mem_tombstones s)\<rparr>"
        by (rule memory_delete_Inr)
      show ?thesis
      proof (cases "k = recordKey ty i")
        case True
        with old(1) map_of_is_SomeI [OF d \<open>(k, q) \<in> set (mem_records s)\<close>] have "q = old" by simp
        with store_ok_lookup(2) [OF assms(1) old(1)] \<open>same_identity r q\<close> old(2) have "tomb_id t = rec_id r"
          by (simp add: same_identity_def tombstone_matches_def)
        then have "(recordKey ty i, t) \<in> set (mem_tombstones s') \<and> tomb_id t = rec_id r"
          by (simp add: s' map_of_SomeD map_of_update)
        then show ?thesis unfolding lives_or_died_def by blast
      next
        case False
        with \<open>(k, q) \<in> set (mem_records s)\<close> \<open>same_identity r q\<close> show ?thesis
          unfolding s' lives_or_died_def by (auto simp: AList.delete_eq)
      qed
    qed
  qed
qed

lemma life_run:
  assumes "store_run P s s'" and "store_ok P s" and "lives_or_died r s"
  shows "lives_or_died r s'"
  using assms(1)
proof (induction rule: rtranclp_induct)
  case (step y z)
  with store_run_ok assms(2) life_step show ?case by blast
qed (rule assms(3))

end
