(* ===== verification/Scim_Server.thy ===== *)
theory Scim_Server
  imports Scim_Patch Scim_Search Scim_Url Scim_Registry Scim_Contract
begin

text \<open>
  The writes and reads of the server below HTTP (server.go, credentials.go): configuration,
  credentials, preconditions, the four operations create, replace, patch and remove, each one
  transaction over any store, and the rendering of a stored record.

  The clock and the entropy source are shared by all operations: a \<open>world\<close> holds the successive
  readings of the clock and the bytes the source will deliver, and an operation returns the
  world it leaves. A secret is a string; overwriting it after use is not visible here.
\<close>

section \<open>Configuration\<close>

record AuthenticationScheme =
  as_type :: string
  as_name :: string
  as_description :: string
  as_spec_uri :: string
  as_documentation_uri :: string

record ServerConfig =
  cf_store :: bool
  cf_password_store :: bool
  cf_registry :: "Registry option"
  cf_external_url :: string
  cf_resolver :: bool
  cf_page_size :: int
  cf_patch_operations :: int
  cf_search_candidates :: int
  cf_schemes :: "AuthenticationScheme list"
  cf_documentation :: string
  cf_public_discovery :: bool
  cf_weak_etags :: bool
  cf_change_password :: bool

record Server =
  sv_registry :: Registry
  sv_external :: url
  sv_page_size :: int
  sv_patch_operations :: int
  sv_search_candidates :: int
  sv_schemes :: "AuthenticationScheme list"
  sv_documentation :: string
  sv_public_discovery :: bool
  sv_weak_etags :: bool
  sv_change_password :: bool

definition https_url :: "platform \<Rightarrow> string \<Rightarrow> bool" where
  "https_url P raw \<longleftrightarrow>
     (case url_parse P raw of
        None \<Rightarrow> False
      | Some parsed \<Rightarrow> url_scheme parsed = ''https'' \<and> url_host parsed \<noteq> [] \<and> \<not> url_has_user parsed)"

definition scheme_ok :: "platform \<Rightarrow> AuthenticationScheme \<Rightarrow> unit result" where
  "scheme_ok P scheme =
     (if \<not> validName (as_type scheme) \<or> as_name scheme = [] \<or> \<not> validString (as_name scheme) 1024
         \<or> as_description scheme = [] \<or> \<not> validString (as_description scheme) maximumStringBytes
      then Inl (OtherError ''authentication scheme is invalid'')
      else check (list_all (\<lambda>raw. raw = [] \<or> https_url P raw) [as_spec_uri scheme, as_documentation_uri scheme])
             (OtherError ''authentication scheme URL is invalid''))"

definition defaulted :: "int \<Rightarrow> int \<Rightarrow> int" where
  "defaulted n fallback = (if n = 0 then fallback else n)"

definition NewServer :: "platform \<Rightarrow> ServerConfig \<Rightarrow> Server result" where
  "NewServer P config =
     (if \<not> cf_store config \<or> \<not> cf_resolver config
      then Inl (OtherError ''SCIM store and scope resolver are required'')
      else if cf_change_password config \<and> \<not> cf_password_store config
      then Inl (OtherError ''advertised password support requires PasswordStore'')
      else if cf_schemes config = [] \<or> 16 < length (cf_schemes config)
      then Inl (OtherError ''at least one authentication scheme is required'')
      else
        and_then (traverse (scheme_ok P) (cf_schemes config)) (\<lambda>_.
        and_then (case cf_registry config of Some registry \<Rightarrow> Inr registry
                  | None \<Rightarrow> NewRegistry P DefaultDefinitions) (\<lambda>registry.
        and_then (validateExternalURL P (cf_external_url config)) (\<lambda>external.
          let pageSize = defaulted (cf_page_size config) 100;
              patchOps = defaulted (cf_patch_operations config) 100;
              candidates = defaulted (cf_search_candidates config) 10000
          in if cf_documentation config \<noteq> [] \<and> \<not> https_url P (cf_documentation config)
             then Inl (OtherError ''SCIM documentation URI is invalid'')
             else if pageSize < 1 \<or> 10000 < pageSize \<or> patchOps < 1 \<or> 1000 < patchOps
                     \<or> candidates < 1 \<or> 100000 < candidates
             then Inl (OtherError ''SCIM server limits are invalid'')
             else Inr
               \<lparr>sv_registry = registry, sv_external = external, sv_page_size = pageSize,
                sv_patch_operations = patchOps, sv_search_candidates = candidates,
                sv_schemes = cf_schemes config, sv_documentation = cf_documentation config,
                sv_public_discovery = cf_public_discovery config, sv_weak_etags = cf_weak_etags config,
                sv_change_password = cf_change_password config\<rparr>))))"

section \<open>Clock and entropy\<close>

record world =
  w_entropy :: "string option"
  w_clock :: "nat \<Rightarrow> int"
  w_ticks :: nat

definition currentTime :: "world \<Rightarrow> int result \<times> world" where
  "currentTime w =
     (let now = w_clock w (w_ticks w); w = w\<lparr>w_ticks := Suc (w_ticks w)\<rparr> in
      if now = 0 then (Inl (OtherError ''SCIM clock returned zero time''), w) else (Inr now, w))"

text \<open>A failed read takes what was left.\<close>

definition next_id :: "world \<Rightarrow> string result \<times> world" where
  "next_id w =
     (case NewResourceID (w_entropy w) of
        Inl e \<Rightarrow> (Inl e, w\<lparr>w_entropy := map_option (\<lambda>_. []) (w_entropy w)\<rparr>)
      | Inr (i, rest) \<Rightarrow> (Inr i, w\<lparr>w_entropy := Some rest\<rparr>))"

definition identityAndTime :: "world \<Rightarrow> (string \<times> int) result \<times> world" where
  "identityAndTime w =
     (case next_id w of
        (Inl e, w) \<Rightarrow> (Inl e, w)
      | (Inr i, w) \<Rightarrow>
          (case currentTime w of (Inl e, w) \<Rightarrow> (Inl e, w) | (Inr now, w) \<Rightarrow> (Inr (i, now), w)))"

section \<open>Credentials\<close>

text \<open>The prepared password, empty when there is none; the document always loses the attribute.\<close>

definition prepare_password :: "platform \<Rightarrow> json \<Rightarrow> string result" where
  "prepare_password P raw =
     (case as_string raw of
        None \<Rightarrow> Inl (clientError 400 ''invalidValue'' ''password is invalid'')
      | Some v \<Rightarrow>
          if v = [] \<or> 1024 < length v then Inl (clientError 400 ''invalidValue'' ''password is invalid'')
          else
            let bad = clientError 400 ''invalidValue'' ''password fails international string preparation'' in
            (case precis_opaque P v of
               None \<Rightarrow> Inl bad
             | Some prepared \<Rightarrow> if prepared = [] \<or> 1024 < length prepared then Inl bad else Inr prepared))"

definition extractPassword :: "platform \<Rightarrow> document \<Rightarrow> bool \<Rightarrow> string \<Rightarrow> (string \<times> document) result" where
  "extractPassword P document supported resourceType =
     (case map_of document ''password'' of
        None \<Rightarrow> Inr ([], AList.delete ''password'' document)
      | Some raw \<Rightarrow>
          if \<not> supported \<or> resourceType \<noteq> ''User''
          then Inl (clientError 400 ''mutability'' ''password changes are not supported'')
          else and_then (prepare_password P raw) (\<lambda>secret. Inr (secret, AList.delete ''password'' document)))"

definition writePassword :: "'s tx_ops \<Rightarrow> string \<Rightarrow> string \<Rightarrow> string \<Rightarrow> string \<Rightarrow> 's \<Rightarrow> (string \<times> 's) result" where
  "writePassword ops scope resourceType i secret s =
     (if secret = [] then Inr ([], s)
      else
        (case tx_set_password ops of
           None \<Rightarrow> Inl (OtherError ''store does not implement advertised password capability'')
         | Some set_password \<Rightarrow>
             and_then (set_password scope resourceType i secret s) (\<lambda>(revision, s).
               if revision = [] \<or> \<not> validString revision 1024
               then Inl (OtherError ''password adapter returned an invalid revision'')
               else Inr (revision, s))))"

section \<open>Preconditions\<close>

definition evaluate_preconditions :: "string \<Rightarrow> string \<Rightarrow> Record \<Rightarrow> unit result" where
  "evaluate_preconditions ifMatch ifNoneMatch current =
     and_then (or_error (IfMatch ifMatch (rec_version current) True)
       (clientError 400 ''invalidValue'' ''If-Match is malformed'')) (\<lambda>allowed.
     and_then (check allowed ErrPrecondition) (\<lambda>_.
     and_then (or_error (IfNoneMatch ifNoneMatch (rec_version current) True)
       (clientError 400 ''invalidValue'' ''If-None-Match is malformed'')) (\<lambda>allowed.
       check allowed ErrPrecondition)))"

text \<open>A server with weak tags compares If-Match weakly, because its clients only ever see weak tags.\<close>

definition evaluateWritePreconditions :: "Server \<Rightarrow> string \<Rightarrow> string \<Rightarrow> Record \<Rightarrow> unit result" where
  "evaluateWritePreconditions sv ifMatch ifNoneMatch current =
     (if sv_weak_etags sv \<and> ifMatch \<noteq> [] then
        and_then (or_error (parseEntityTags ifMatch)
          (clientError 400 ''invalidValue'' ''If-Match is malformed'')) (\<lambda>candidates.
        and_then (parseSingleStrongTag (rec_version current)) (\<lambda>currentTag.
        and_then (check (star candidates \<or> list_ex (\<lambda>c. opaque c = currentTag) (tags candidates)) ErrPrecondition) (\<lambda>_.
          evaluate_preconditions [] ifNoneMatch current)))
      else evaluate_preconditions ifMatch ifNoneMatch current)"

section \<open>Writes\<close>

text \<open>What create makes of a body before it opens its transaction.\<close>

definition create_input :: "platform \<Rightarrow> Server \<Rightarrow> ResourceDefinition \<Rightarrow> string
    \<Rightarrow> (string \<times> document \<times> IndexKey list \<times> string) result" where
  "create_input P sv definition raw =
     and_then (or_error (DecodeDocument P raw)
       (clientError 400 ''invalidSyntax'' ''resource JSON is invalid'')) (\<lambda>document.
     and_then (extractPassword P document (sv_change_password sv) (def_name definition)) (\<lambda>(password, document).
     and_then (or_error (prepareResource P definition document CreateMode [])
       (clientError 400 ''invalidValue'' ''resource is invalid'')) (\<lambda>prepared. Inr (password, prepared))))"

definition create_in :: "platform \<Rightarrow> 's tx_ops \<Rightarrow> string \<Rightarrow> string \<Rightarrow> ResourceDefinition
    \<Rightarrow> string \<times> document \<times> IndexKey list \<times> string \<Rightarrow> string \<Rightarrow> int \<Rightarrow> 's \<Rightarrow> (Record \<times> 's) result" where
  "create_in P ops scope manager definition = (\<lambda>(password, document, indexes, externalID) i now s.
     and_then (writePassword ops scope (def_name definition) i password s) (\<lambda>(credential, s).
     and_then (newRecord P scope manager (def_name definition) i externalID document indexes now (Some credential)) (\<lambda>r.
     and_then (tx_create ops r s) (\<lambda>s. Inr (r, s)))))"

definition create :: "platform \<Rightarrow> 's tx_ops \<Rightarrow> Server \<Rightarrow> ctx \<Rightarrow> string \<Rightarrow> string \<Rightarrow> ResourceDefinition \<Rightarrow> string
    \<Rightarrow> world \<Rightarrow> 's \<Rightarrow> Record result \<times> world \<times> 's" where
  "create P ops sv ctx scope manager definition raw w s =
     (case create_input P sv definition raw of
        Inl e \<Rightarrow> (Inl e, w, s)
      | Inr input \<Rightarrow>
          (case identityAndTime w of
             (Inl e, w) \<Rightarrow> (Inl e, w, s)
           | (Inr (i, now), w) \<Rightarrow>
               (case Transact ctx (create_in P ops scope manager definition input i now) s of (r, s) \<Rightarrow> (r, w, s))))"

text \<open>The end of replace and patch: the new state of the record, written when it changed.\<close>

definition write_prepared :: "platform \<Rightarrow> 's tx_ops \<Rightarrow> string \<Rightarrow> ResourceDefinition \<Rightarrow> string \<Rightarrow> Record \<Rightarrow> string
    \<Rightarrow> document \<times> IndexKey list \<times> string \<Rightarrow> int \<Rightarrow> 's \<Rightarrow> (Record \<times> 's) result" where
  "write_prepared P ops scope definition i current password = (\<lambda>(prepared, indexes, externalID) now s.
     and_then
       (if password = [] then Inr (rec_credential current, s)
        else writePassword ops scope (def_name definition) i password s) (\<lambda>(credential, s).
     and_then (replacementRecord P current externalID prepared indexes now (Some credential)) (\<lambda>(updated, changed).
       if \<not> changed then Inr (updated, s)
       else and_then (tx_replace ops updated (rec_version current) s) (\<lambda>s. Inr (updated, s)))))"

definition replace_in :: "platform \<Rightarrow> 's tx_ops \<Rightarrow> Server \<Rightarrow> string \<Rightarrow> ResourceDefinition \<Rightarrow> string \<Rightarrow> string \<Rightarrow> document
    \<Rightarrow> string \<Rightarrow> string \<Rightarrow> int \<Rightarrow> 's \<Rightarrow> (Record \<times> 's) result" where
  "replace_in P ops sv scope definition i password document ifMatch ifNoneMatch now s =
     and_then (tx_get ops s scope (def_name definition) i) (\<lambda>current.
     and_then (evaluateWritePreconditions sv ifMatch ifNoneMatch current) (\<lambda>_.
     and_then (DecodeDocument P (rec_data current)) (\<lambda>currentDocument.
     and_then (enforceReplacementMutability definition currentDocument document) (\<lambda>document.
     and_then (or_error (prepareResource P definition document ReplaceMode i)
       (clientError 400 ''invalidValue'' ''resource is invalid'')) (\<lambda>prepared.
       write_prepared P ops scope definition i current password prepared now s)))))"

definition replace_input :: "platform \<Rightarrow> Server \<Rightarrow> ResourceDefinition \<Rightarrow> string \<Rightarrow> (string \<times> document) result" where
  "replace_input P sv definition raw =
     and_then (or_error (DecodeDocument P raw)
       (clientError 400 ''invalidSyntax'' ''resource JSON is invalid'')) (\<lambda>document.
       extractPassword P document (sv_change_password sv) (def_name definition))"

definition replace :: "platform \<Rightarrow> 's tx_ops \<Rightarrow> Server \<Rightarrow> ctx \<Rightarrow> string \<Rightarrow> ResourceDefinition \<Rightarrow> string \<Rightarrow> string
    \<Rightarrow> string \<Rightarrow> string \<Rightarrow> world \<Rightarrow> 's \<Rightarrow> Record result \<times> world \<times> 's" where
  "replace P ops sv ctx scope definition i raw ifMatch ifNoneMatch w s =
     (case replace_input P sv definition raw of
        Inl e \<Rightarrow> (Inl e, w, s)
      | Inr (password, document) \<Rightarrow>
          (case currentTime w of
             (Inl e, w) \<Rightarrow> (Inl e, w, s)
           | (Inr now, w) \<Rightarrow>
               (case Transact ctx (replace_in P ops sv scope definition i password document ifMatch ifNoneMatch now) s of
                  (r, s) \<Rightarrow> (r, w, s))))"

definition patch_in :: "platform \<Rightarrow> 's tx_ops \<Rightarrow> Server \<Rightarrow> string \<Rightarrow> ResourceDefinition \<Rightarrow> string \<Rightarrow> PatchRequest
    \<Rightarrow> string \<Rightarrow> string \<Rightarrow> int \<Rightarrow> 's \<Rightarrow> (Record \<times> 's) result" where
  "patch_in P ops sv scope definition i request ifMatch ifNoneMatch now s =
     and_then (tx_get ops s scope (def_name definition) i) (\<lambda>current.
     and_then (evaluateWritePreconditions sv ifMatch ifNoneMatch current) (\<lambda>_.
     and_then (DecodeDocument P (rec_data current)) (\<lambda>currentDocument.
     and_then (applyPatchDocument P definition currentDocument request) (\<lambda>document.
     and_then (extractPassword P document (sv_change_password sv) (def_name definition)) (\<lambda>(password, document).
     and_then (enforceReplacementMutability definition currentDocument document) (\<lambda>document.
     and_then (or_error (prepareResource P definition document ReplaceMode i)
       (clientError 400 ''invalidValue'' ''patched resource is invalid'')) (\<lambda>prepared.
       write_prepared P ops scope definition i current password prepared now s)))))))"

definition patch_resource :: "platform \<Rightarrow> 's tx_ops \<Rightarrow> Server \<Rightarrow> ctx \<Rightarrow> string \<Rightarrow> ResourceDefinition \<Rightarrow> string \<Rightarrow> PatchRequest
    \<Rightarrow> string \<Rightarrow> string \<Rightarrow> world \<Rightarrow> 's \<Rightarrow> Record result \<times> world \<times> 's" where
  "patch_resource P ops sv ctx scope definition i request ifMatch ifNoneMatch w s =
     (case currentTime w of
        (Inl e, w) \<Rightarrow> (Inl e, w, s)
      | (Inr now, w) \<Rightarrow>
          (case Transact ctx (patch_in P ops sv scope definition i request ifMatch ifNoneMatch now) s of
             (r, s) \<Rightarrow> (r, w, s)))"

definition tombstone_of :: "Record \<Rightarrow> int \<Rightarrow> Tombstone" where
  "tombstone_of r now =
     \<lparr>tomb_scope = rec_scope r, tomb_type = rec_type r, tomb_id = rec_id r, tomb_external = rec_external r,
      tomb_manager = rec_manager r, tomb_version = rec_version r, tomb_deleted = now\<rparr>"

definition remove_in :: "'s tx_ops \<Rightarrow> Server \<Rightarrow> string \<Rightarrow> ResourceDefinition \<Rightarrow> string \<Rightarrow> string \<Rightarrow> string \<Rightarrow> int
    \<Rightarrow> 's \<Rightarrow> (unit \<times> 's) result" where
  "remove_in ops sv scope definition i ifMatch ifNoneMatch now s =
     and_then (tx_get ops s scope (def_name definition) i) (\<lambda>current.
     and_then (evaluateWritePreconditions sv ifMatch ifNoneMatch current) (\<lambda>_.
     and_then (tx_delete ops scope (def_name definition) i (rec_version current) (tombstone_of current now) s) (\<lambda>s.
       Inr ((), s))))"

definition remove :: "'s tx_ops \<Rightarrow> Server \<Rightarrow> ctx \<Rightarrow> string \<Rightarrow> ResourceDefinition \<Rightarrow> string \<Rightarrow> string \<Rightarrow> string
    \<Rightarrow> world \<Rightarrow> 's \<Rightarrow> unit result \<times> world \<times> 's" where
  "remove ops sv ctx scope definition i ifMatch ifNoneMatch w s =
     (case currentTime w of
        (Inl e, w) \<Rightarrow> (Inl e, w, s)
      | (Inr now, w) \<Rightarrow>
          (case Transact ctx (remove_in ops sv scope definition i ifMatch ifNoneMatch now) s of (r, s) \<Rightarrow> (r, w, s)))"

section \<open>Rendering\<close>

definition server_tag :: "Server \<Rightarrow> string \<Rightarrow> string" where
  "server_tag sv strong = (if sv_weak_etags sv then ''W/'' @ strong else strong)"

definition server_location :: "Server \<Rightarrow> ResourceDefinition \<Rightarrow> string \<Rightarrow> string" where
  "server_location sv definition i = resourceLocation (sv_external sv) (endpoint definition) i"

definition meta_object :: "platform \<Rightarrow> Server \<Rightarrow> ResourceDefinition \<Rightarrow> Record \<Rightarrow> json" where
  "meta_object P sv definition r =
     JObj [(''resourceType'', JStr (rec_type r)),
           (''created'', JStr (time_format P (rec_created r))),
           (''lastModified'', JStr (time_format P (rec_modified r))),
           (''version'', JStr (server_tag sv (rec_version r))),
           (''location'', JStr (server_location sv definition (rec_id r)))]"

text \<open>
  The indexes are compared with \<^verbatim>\<open>reflect.DeepEqual\<close>: prepareResource always returns a slice, and a
  record without indexes holds a nil slice, which is not deeply equal to an empty one.
\<close>

definition same_indexes :: "IndexKey list \<Rightarrow> IndexKey list \<Rightarrow> bool" where
  "same_indexes prepared stored \<longleftrightarrow> stored \<noteq> [] \<and> prepared = stored"

definition renderRecord :: "platform \<Rightarrow> Server \<Rightarrow> ResourceDefinition \<Rightarrow> Record \<Rightarrow> document result" where
  "renderRecord P sv definition r =
     (if validateRecord P r \<noteq> Inr () \<or> rec_type r \<noteq> def_name definition
      then Inl (OtherError ''stored record is invalid'')
      else
        and_then (DecodeDocument P (rec_data r)) (\<lambda>document.
        and_then (or_error (prepareResource P definition document ReplaceMode (rec_id r))
          (OtherError ''stored resource violates its schema'')) (\<lambda>(prepared, indexes, externalID).
          if externalID \<noteq> rec_external r \<or> \<not> same_indexes indexes (rec_indexes r)
          then Inl (OtherError ''stored resource violates its schema'')
          else if canonicalDocument prepared \<noteq> Inr (rec_data r)
          then Inl (OtherError ''stored resource is not canonical'')
          else Inr (AList.update ''meta'' (meta_object P sv definition r)
                 (AList.update ''id'' (JStr (rec_id r)) prepared)))))"

end
