(* ===== verification/Scim_Http.thy ===== *)
theory Scim_Http
  imports Scim_Server
begin

text \<open>
  The HTTP handlers of one resource or collection, and of searches (server.go, search.go): how a
  request's body, headers and parameters reach the operations of Scim_Server, and how results and
  errors become responses.

  A request holds what net/http has parsed: the method, the escaped path, the query, three headers,
  the body (\<^const>\<open>None\<close> when reading it fails), the scope the configured resolver answers with, and
  what its context says around the transaction of each operation. A response is the status, the
  headers in the order they are set, and the body.
\<close>

record request =
  rq_method :: string
  rq_path :: string
  rq_query :: query
  rq_content_type :: string
  rq_if_match :: string
  rq_if_none_match :: string
  rq_body :: "string option"
  rq_scope :: "string option"
  rq_ctx :: "nat \<Rightarrow> ctx"

record response =
  rs_status :: int
  rs_headers :: "(string \<times> string) list"
  rs_body :: string

type_synonym 's served = "response \<times> world \<times> 's"

section \<open>Responses\<close>

definition string_array :: "string list \<Rightarrow> string" where
  "string_array xs = CHR 0x5B # join_with '','' (map quoted xs) @ [CHR 0x5D]"

definition error_body :: "error_response \<Rightarrow> string" where
  "error_body r =
     object_text
       ([(''schemas'', string_array (er_schemas r)), (''status'', quoted (er_status r))]
        @ (if er_scim_type r = [] then [] else [(''scimType'', quoted (er_scim_type r))])
        @ [(''detail'', quoted (er_detail r))])"

definition writeJSON :: "(string \<times> string) list \<Rightarrow> int \<Rightarrow> string result \<Rightarrow> response" where
  "writeJSON headers st encoded =
     (let (code, body) = (case encoded of
            Inr txt \<Rightarrow> (st, txt)
          | Inl _ \<Rightarrow>
              (500, error_body \<lparr>er_schemas = [ErrorSchema], er_status = ''500'', er_scim_type = [],
                       er_detail = ''SCIM response encoding failed''\<rparr>))
      in \<lparr>rs_status = code,
          rs_headers = headers @ [(''Content-Type'', ''application/scim+json''), (''Cache-Control'', ''no-store'')],
          rs_body = body\<rparr>)"

definition client_failure :: "scim_error \<Rightarrow> int \<times> string \<times> string" where
  "client_failure e =
     (case e of
        ProtocolError st ty det \<Rightarrow>
          if 400 \<le> st \<and> st \<le> 599 \<and> det \<noteq> [] then (st, ty, det) else (500, [], ''SCIM operation failed'')
      | _ \<Rightarrow> (500, [], ''SCIM operation failed''))"

definition protocol_error :: "(string \<times> string) list \<Rightarrow> scim_error \<Rightarrow> response" where
  "protocol_error headers e =
     (let (st, ty, det) = client_failure e in
      (case NewError st ty det of
         Inr r \<Rightarrow> writeJSON headers st (Inr (error_body r))
       | Inl _ \<Rightarrow>
           writeJSON headers 500 (Inr (error_body \<lparr>er_schemas = [ErrorSchema], er_status = ''500'',
             er_scim_type = [], er_detail = ''SCIM operation failed''\<rparr>))))"

definition writeProtocolError :: "scim_error \<Rightarrow> response" where
  "writeProtocolError e = protocol_error [] e"

definition methodNotAllowed :: "string \<Rightarrow> response" where
  "methodNotAllowed allow = protocol_error [(''Allow'', allow)] (clientError 405 [] ''HTTP method is not supported'')"

definition writeStoreError :: "scim_error \<Rightarrow> response" where
  "writeStoreError e =
     writeProtocolError
       (case e of
          ProtocolError st ty det \<Rightarrow> e
        | ErrNotFound \<Rightarrow> clientError 404 [] ''SCIM resource was not found''
        | ErrConflict \<Rightarrow> clientError 409 ''uniqueness'' ''SCIM resource conflicts with existing state''
        | ErrTombstoned \<Rightarrow> clientError 409 ''uniqueness'' ''SCIM resource conflicts with existing state''
        | ErrPrecondition \<Rightarrow> clientError 412 [] ''SCIM resource precondition failed''
        | _ \<Rightarrow> clientError 500 [] ''SCIM storage operation failed'')"

definition readBody :: "platform \<Rightarrow> request \<Rightarrow> string result" where
  "readBody P rq =
     (let mediaType = to_lower P (trim_space (hd (split_on (CHR '';'') (rq_content_type rq)))) in
      if mediaType \<noteq> ''application/scim+json'' \<and> mediaType \<noteq> ''application/json''
      then Inl (clientError 415 [] ''Content-Type must be application/scim+json'')
      else (case rq_body rq of
              None \<Rightarrow> Inl (clientError 413 ''tooLarge'' ''request body is invalid or too large'')
            | Some raw \<Rightarrow>
                if raw = [] \<or> MaximumResourceBytes < length raw
                then Inl (clientError 413 ''tooLarge'' ''request body is invalid or too large'')
                else Inr raw))"

section \<open>Records on the wire\<close>

text \<open>An error whose message goes to the client.\<close>

definition as_invalid_value :: "'a result \<Rightarrow> 'a result" where
  "as_invalid_value r =
     (case r of Inl e \<Rightarrow> Inl (clientError 400 ''invalidValue'' (error_text e)) | Inr x \<Rightarrow> Inr x)"

definition validateResourceProjection :: "platform \<Rightarrow> query \<Rightarrow> ResourceDefinition \<Rightarrow> int \<Rightarrow> searchPlan result" where
  "validateResourceProjection P q definition maximumPageSize =
     and_then (as_invalid_value (searchRequestFromQuery q)) (\<lambda>search.
       as_invalid_value (compileSearch P search definition maximumPageSize))"

definition record_document :: "platform \<Rightarrow> Server \<Rightarrow> ResourceDefinition \<Rightarrow> Record \<Rightarrow> query \<Rightarrow> document result" where
  "record_document P sv definition r q =
     and_then (or_error (renderRecord P sv definition r) (clientError 500 [] ''stored resource is invalid'')) (\<lambda>document.
     and_then (validateResourceProjection P q definition (sv_page_size sv)) (\<lambda>plan.
       or_error (projectDocument P document (sp_include plan) (sp_exclude plan) definition)
         (clientError 500 [] ''resource projection failed'')))"

definition writeRecordProjected :: "platform \<Rightarrow> Server \<Rightarrow> int \<Rightarrow> ResourceDefinition \<Rightarrow> Record \<Rightarrow> query \<Rightarrow> response" where
  "writeRecordProjected P sv st definition r q =
     (case record_document P sv definition r q of
        Inl e \<Rightarrow> writeProtocolError e
      | Inr document \<Rightarrow>
          let location = server_location sv definition (rec_id r) in
          writeJSON [(''ETag'', server_tag sv (rec_version r)), (''Location'', location), (''Content-Location'', location)]
            st (marshal (JObj document)))"

section \<open>One resource\<close>

definition get_in :: "'s tx_ops \<Rightarrow> string \<Rightarrow> ResourceDefinition \<Rightarrow> string \<Rightarrow> 's \<Rightarrow> (Record \<times> 's) result" where
  "get_in ops scope definition i s =
     and_then (tx_get ops s scope (def_name definition) i) (\<lambda>r. Inr (r, s))"

definition getResource :: "platform \<Rightarrow> 's tx_ops \<Rightarrow> Server \<Rightarrow> request \<Rightarrow> string \<Rightarrow> ResourceDefinition \<Rightarrow> string
    \<Rightarrow> world \<Rightarrow> 's \<Rightarrow> 's served" where
  "getResource P ops sv rq scope definition i w s =
     (case Transact (rq_ctx rq 0) (get_in ops scope definition i) s of
        (Inl e, s) \<Rightarrow> (writeStoreError e, w, s)
      | (Inr r, s) \<Rightarrow>
          (case IfNoneMatch (rq_if_none_match rq) (rec_version r) True of
             Inl _ \<Rightarrow> (writeProtocolError (clientError 400 ''invalidValue'' ''If-None-Match is malformed''), w, s)
           | Inr proceed \<Rightarrow>
               if \<not> proceed
               then (\<lparr>rs_status = 304, rs_headers = [(''ETag'', server_tag sv (rec_version r))], rs_body = []\<rparr>, w, s)
               else (writeRecordProjected P sv 200 definition r (rq_query rq), w, s)))"

text \<open>The response to a write: the record with a status, or the error.\<close>

definition write_result :: "platform \<Rightarrow> Server \<Rightarrow> request \<Rightarrow> int \<Rightarrow> ResourceDefinition
    \<Rightarrow> Record result \<times> world \<times> 's \<Rightarrow> 's served" where
  "write_result P sv rq st definition = (\<lambda>(res, w, s).
     (case res of
        Inl e \<Rightarrow> (writeStoreError e, w, s)
      | Inr r \<Rightarrow> (writeRecordProjected P sv st definition r (rq_query rq), w, s)))"

definition createResource :: "platform \<Rightarrow> 's tx_ops \<Rightarrow> Server \<Rightarrow> request \<Rightarrow> string \<Rightarrow> ResourceDefinition
    \<Rightarrow> world \<Rightarrow> 's \<Rightarrow> 's served" where
  "createResource P ops sv rq scope definition w s =
     (case readBody P rq of
        Inl e \<Rightarrow> (writeProtocolError e, w, s)
      | Inr raw \<Rightarrow> write_result P sv rq 201 definition (create P ops sv (rq_ctx rq 0) scope [] definition raw w s))"

definition replaceResource :: "platform \<Rightarrow> 's tx_ops \<Rightarrow> Server \<Rightarrow> request \<Rightarrow> string \<Rightarrow> ResourceDefinition \<Rightarrow> string
    \<Rightarrow> world \<Rightarrow> 's \<Rightarrow> 's served" where
  "replaceResource P ops sv rq scope definition i w s =
     (case readBody P rq of
        Inl e \<Rightarrow> (writeProtocolError e, w, s)
      | Inr raw \<Rightarrow>
          write_result P sv rq 200 definition
            (replace P ops sv (rq_ctx rq 0) scope definition i raw (rq_if_match rq) (rq_if_none_match rq) w s))"

definition patchResource :: "platform \<Rightarrow> 's tx_ops \<Rightarrow> Server \<Rightarrow> request \<Rightarrow> string \<Rightarrow> ResourceDefinition \<Rightarrow> string
    \<Rightarrow> world \<Rightarrow> 's \<Rightarrow> 's served" where
  "patchResource P ops sv rq scope definition i w s =
     (case readBody P rq of
        Inl e \<Rightarrow> (writeProtocolError e, w, s)
      | Inr raw \<Rightarrow>
          (case DecodePatch P raw (sv_patch_operations sv) of
             Inl _ \<Rightarrow> (writeProtocolError (clientError 400 ''invalidSyntax'' ''PATCH request is invalid''), w, s)
           | Inr patch \<Rightarrow>
               write_result P sv rq 200 definition
                 (patch_resource P ops sv (rq_ctx rq 0) scope definition i patch
                    (rq_if_match rq) (rq_if_none_match rq) w s)))"

definition deleteResource :: "'s tx_ops \<Rightarrow> Server \<Rightarrow> request \<Rightarrow> string \<Rightarrow> ResourceDefinition \<Rightarrow> string
    \<Rightarrow> world \<Rightarrow> 's \<Rightarrow> 's served" where
  "deleteResource ops sv rq scope definition i w s =
     (case remove ops sv (rq_ctx rq 0) scope definition i (rq_if_match rq) (rq_if_none_match rq) w s of
        (Inl e, w, s) \<Rightarrow> (writeStoreError e, w, s)
      | (Inr _, w, s) \<Rightarrow> (\<lparr>rs_status = 204, rs_headers = [], rs_body = []\<rparr>, w, s))"

section \<open>Searches\<close>

text \<open>The candidates of every resource type, within the server's bound over all of them.\<close>

fun list_candidates :: "'s tx_ops \<Rightarrow> string \<Rightarrow> ResourceDefinition list \<Rightarrow> int \<Rightarrow> 's
    \<Rightarrow> (ResourceDefinition \<times> Record) list result" where
  "list_candidates ops scope [] remaining s = Inr []"
| "list_candidates ops scope (definition # rest) remaining s =
     and_then (tx_list ops s \<lparr>q_scope = scope, q_type = def_name definition, q_attribute = [], q_value = [],
         q_limit = (if remaining = 0 then 1 else remaining)\<rparr>) (\<lambda>rs.
       if remaining = 0 \<and> rs \<noteq> [] then Inl ErrTooMany
       else and_then (list_candidates ops scope rest (remaining - int (length rs)) s) (\<lambda>found.
         Inr (map (\<lambda>r. (definition, r)) rs @ found)))"

fun render_candidates :: "platform \<Rightarrow> Server \<Rightarrow> FilterExpression option \<Rightarrow> (ResourceDefinition \<times> Record) list
    \<Rightarrow> document list result" where
  "render_candidates P sv expression [] = Inr []"
| "render_candidates P sv expression ((definition, r) # rest) =
     and_then (or_error (renderRecord P sv definition r) (clientError 500 [] ''stored resource is invalid'')) (\<lambda>document.
     and_then (or_error (MatchFilter P expression document) (clientError 500 [] ''search processing failed'')) (\<lambda>matched.
     and_then (render_candidates P sv expression rest) (\<lambda>found.
       Inr (if matched then document # found else found))))"

definition list_response :: "searchPlan \<Rightarrow> document list \<Rightarrow> int \<Rightarrow> json" where
  "list_response plan resources hits =
     JObj [(''schemas'', JArr [JStr ListResponseSchema]), (''totalResults'', JNum (itoa hits)),
           (''startIndex'', JNum (itoa (sp_start plan))), (''itemsPerPage'', JNum (itoa (int (length resources)))),
           (''Resources'', JArr (map JObj resources))]"

definition search_page :: "platform \<Rightarrow> Server \<Rightarrow> searchPlan \<Rightarrow> ResourceDefinition
    \<Rightarrow> (ResourceDefinition \<times> Record) list \<Rightarrow> json result" where
  "search_page P sv plan definition candidates =
     and_then (render_candidates P sv (sp_filter plan) candidates) (\<lambda>matched.
     and_then (or_error (applySearchWithDefinition P (plan\<lparr>sp_filter := None\<rparr>) matched definition)
       (clientError 500 [] ''search processing failed'')) (\<lambda>(resources, hits).
       Inr (list_response plan resources hits)))"

definition executeSearch :: "platform \<Rightarrow> 's tx_ops \<Rightarrow> Server \<Rightarrow> request \<Rightarrow> string \<Rightarrow> ResourceDefinition list
    \<Rightarrow> SearchRequest \<Rightarrow> world \<Rightarrow> 's \<Rightarrow> 's served" where
  "executeSearch P ops sv rq scope definitions search w s =
     (let searchDefinition = combinedSearchDefinition P definitions in
      (case compileSearch P search searchDefinition (sv_page_size sv) of
         Inl e \<Rightarrow>
           let scimType = (if contains_sub (error_text e) ''filter'' then ''invalidFilter'' else ''invalidValue'')
           in (writeProtocolError (clientError 400 scimType (error_text e)), w, s)
       | Inr plan \<Rightarrow>
           (case Transact (rq_ctx rq 0) (\<lambda>s. and_then (list_candidates ops scope definitions (sv_search_candidates sv) s)
                   (\<lambda>found. Inr (found, s))) s of
              (Inl e, s) \<Rightarrow>
                (if e = ErrTooMany
                 then writeProtocolError (clientError 413 ''tooLarge'' ''search candidate boundary exceeded'')
                 else writeStoreError e, w, s)
            | (Inr candidates, s) \<Rightarrow>
                (case search_page P sv plan searchDefinition candidates of
                   Inl e \<Rightarrow> (writeProtocolError e, w, s)
                 | Inr page \<Rightarrow> (writeJSON [] 200 (marshal page), w, s)))))"

definition serveSearch :: "platform \<Rightarrow> 's tx_ops \<Rightarrow> Server \<Rightarrow> request \<Rightarrow> string \<Rightarrow> ResourceDefinition option
    \<Rightarrow> world \<Rightarrow> 's \<Rightarrow> 's served" where
  "serveSearch P ops sv rq scope one w s =
     (if rq_method rq \<noteq> ''POST'' then (methodNotAllowed ''POST'', w, s)
      else
        (case and_then (rejectQuery (rq_query rq) []) (\<lambda>_. readBody P rq) of
           Inl e \<Rightarrow> (writeProtocolError e, w, s)
         | Inr raw \<Rightarrow>
             (case decodeSearchRequest P raw of
                Inl _ \<Rightarrow> (writeProtocolError (clientError 400 ''invalidSyntax'' ''search request is invalid''), w, s)
              | Inr search \<Rightarrow>
                  executeSearch P ops sv rq scope
                    (case one of None \<Rightarrow> registry_definitions (Some (sv_registry sv)) | Some definition \<Rightarrow> [definition])
                    search w s)))"

definition query_search :: "platform \<Rightarrow> 's tx_ops \<Rightarrow> Server \<Rightarrow> request \<Rightarrow> string \<Rightarrow> ResourceDefinition list
    \<Rightarrow> world \<Rightarrow> 's \<Rightarrow> 's served" where
  "query_search P ops sv rq scope definitions w s =
     (case as_invalid_value (searchRequestFromQuery (rq_query rq)) of
        Inl e \<Rightarrow> (writeProtocolError e, w, s)
      | Inr search \<Rightarrow> executeSearch P ops sv rq scope definitions search w s)"

definition listResources :: "platform \<Rightarrow> 's tx_ops \<Rightarrow> Server \<Rightarrow> request \<Rightarrow> string \<Rightarrow> ResourceDefinition
    \<Rightarrow> world \<Rightarrow> 's \<Rightarrow> 's served" where
  "listResources P ops sv rq scope definition = query_search P ops sv rq scope [definition]"

section \<open>Collections and resources\<close>

definition projection_parameters :: "string list" where
  "projection_parameters = [''attributes'', ''excludedAttributes'']"

definition admit_projection :: "platform \<Rightarrow> Server \<Rightarrow> request \<Rightarrow> ResourceDefinition \<Rightarrow> searchPlan result" where
  "admit_projection P sv rq definition =
     and_then (rejectQuery (rq_query rq) projection_parameters) (\<lambda>_.
       validateResourceProjection P (rq_query rq) definition (sv_page_size sv))"

definition serveCollection :: "platform \<Rightarrow> 's tx_ops \<Rightarrow> Server \<Rightarrow> request \<Rightarrow> string \<Rightarrow> ResourceDefinition
    \<Rightarrow> world \<Rightarrow> 's \<Rightarrow> 's served" where
  "serveCollection P ops sv rq scope definition w s =
     (if rq_method rq = ''GET'' then listResources P ops sv rq scope definition w s
      else if rq_method rq = ''POST'' then
        (case admit_projection P sv rq definition of
           Inl e \<Rightarrow> (writeProtocolError e, w, s)
         | Inr _ \<Rightarrow> createResource P ops sv rq scope definition w s)
      else (methodNotAllowed ''GET, POST'', w, s))"

definition serveResource :: "platform \<Rightarrow> 's tx_ops \<Rightarrow> Server \<Rightarrow> request \<Rightarrow> string \<Rightarrow> ResourceDefinition \<Rightarrow> string
    \<Rightarrow> world \<Rightarrow> 's \<Rightarrow> 's served" where
  "serveResource P ops sv rq scope definition i w s =
     (if \<not> validResourceID i
      then (writeProtocolError (clientError 404 [] ''SCIM resource was not found''), w, s)
      else
        (case admit_projection P sv rq definition of
           Inl e \<Rightarrow> (writeProtocolError e, w, s)
         | Inr _ \<Rightarrow>
             if rq_method rq = ''GET'' then getResource P ops sv rq scope definition i w s
             else if rq_method rq = ''PUT'' then replaceResource P ops sv rq scope definition i w s
             else if rq_method rq = ''PATCH'' then patchResource P ops sv rq scope definition i w s
             else if rq_method rq = ''DELETE'' then deleteResource ops sv rq scope definition i w s
             else (methodNotAllowed ''GET, PUT, PATCH, DELETE'', w, s)))"

end
