(* ===== verification/Scim_Conformance.thy ===== *)
theory Scim_Conformance
  imports Scim_Http
begin

text \<open>
  The conformance suite for stores (conformance.go): CheckStore runs a fixed script against a fresh
  store and reports the first promise it breaks. Here it runs over any \<open>tx_ops\<close> and any initial
  state. The script also writes into slices it passed to the store or got from it; values here are not
  shared, so those writes change nothing and are left out. An index that is missing where the
  script reads the first one counts as a mismatch.
\<close>

definition conformance_now :: int where
  "conformance_now = 63902919845000000000"

definition conformanceRecord :: "platform \<Rightarrow> string \<Rightarrow> string \<Rightarrow> string \<Rightarrow> string \<Rightarrow> int \<Rightarrow> Record" where
  "conformanceRecord P scope i externalID userName now =
     (let schemas = (''schemas'', string_array [UserSchema]);
          user = (''userName'', quoted userName);
          r = \<lparr>rec_scope = scope, rec_type = ''User'', rec_id = i, rec_external = externalID,
               rec_manager = ''manager'', rec_version = [], rec_credential = [],
               rec_created = now, rec_modified = now,
               rec_data = object_text (if externalID = [] then [schemas, user]
                 else [(''externalId'', quoted externalID), schemas, user]),
               rec_indexes = [\<lparr>ix_name = ''userName'', ix_value = userName, ix_case_exact = False, ix_unique = True\<rparr>]\<rparr>
      in r\<lparr>rec_version := (case calculateRecordVersion P r of Inl _ \<Rightarrow> [] | Inr v \<Rightarrow> v)\<rparr>)"

definition first_index :: "Record \<Rightarrow> string option" where
  "first_index r = (case rec_indexes r of [] \<Rightarrow> None | x # _ \<Rightarrow> Some (ix_value x))"

definition fails_with :: "scim_error \<Rightarrow> 'a result \<Rightarrow> bool" where
  "fails_with e r = (case r of Inl e' \<Rightarrow> e' = e | Inr _ \<Rightarrow> False)"

text \<open>A transaction whose callback creates one record.\<close>

definition create_only :: "'s tx_ops \<Rightarrow> Record \<Rightarrow> 's \<Rightarrow> (unit \<times> 's) result" where
  "create_only ops r s = and_then (tx_create ops r s) (\<lambda>s. Inr ((), s))"

definition bounded_list :: "'s tx_ops \<Rightarrow> 's \<Rightarrow> (unit \<times> 's) result" where
  "bounded_list ops s =
     and_then (check (fails_with ErrTooMany (tx_list ops s
         \<lparr>q_scope = ''scope-a'', q_type = ''User'', q_attribute = [], q_value = [], q_limit = 1\<rparr>))
       (OtherError ''bounded list did not fail closed'')) (\<lambda>_. Inr ((), s))"

definition conformance_data :: "string \<Rightarrow> string" where
  "conformance_data userName =
     object_text [(''externalId'', quoted ''external-one''), (''schemas'', string_array [UserSchema]),
       (''userName'', quoted userName)]"

definition rollback_check :: "'s tx_ops \<Rightarrow> 's \<Rightarrow> (unit \<times> 's) result" where
  "rollback_check ops s =
     and_then (tx_get ops s ''scope-a'' ''User'' ''id-one'') (\<lambda>stored.
       if rec_data stored \<noteq> conformance_data ''Member'' \<or> first_index stored \<noteq> Some ''Member''
       then Inl (OtherError ''store did not defensively copy create input'')
       else Inl (OtherError ''rollback marker''))"

definition isolation_check :: "'s tx_ops \<Rightarrow> 's \<Rightarrow> (unit \<times> 's) result" where
  "isolation_check ops s =
     and_then (case tx_get ops s ''scope-a'' ''User'' ''id-one'' of
         Inl e \<Rightarrow> Inl (OtherError (''rollback or output copy failed: '' @ error_text e))
       | Inr stored \<Rightarrow> check (take 1 (rec_data stored) = [CHR 0x7B]) (OtherError ''rollback or output copy failed''))
       (\<lambda>_. and_then (check (fails_with ErrNotFound (tx_get ops s ''scope-b'' ''User'' ''id-one''))
         (OtherError ''scope isolation failed'')) (\<lambda>_. Inr ((), s)))"

definition replace_check :: "platform \<Rightarrow> 's tx_ops \<Rightarrow> 's \<Rightarrow> (unit \<times> 's) result" where
  "replace_check P ops s =
     and_then (tx_get ops s ''scope-a'' ''User'' ''id-one'') (\<lambda>stored.
       let updated = stored\<lparr>rec_data := conformance_data ''Updated'',
             rec_indexes := (case rec_indexes stored of [] \<Rightarrow> [] | x # xs \<Rightarrow> x\<lparr>ix_value := ''Updated''\<rparr> # xs),
             rec_modified := conformance_now + 1000000000\<rparr> in
       and_then (calculateRecordVersion P updated) (\<lambda>version.
         let updated = updated\<lparr>rec_version := version\<rparr> in
         and_then (check (fails_with ErrPrecondition (tx_replace ops updated (CHR 0x22 # ''wrong'' @ [CHR 0x22]) s))
           (OtherError ''replace precondition failed'')) (\<lambda>_.
         and_then (tx_replace ops updated (rec_version stored) s) (\<lambda>s. Inr ((), s)))))"

definition delete_check :: "'s tx_ops \<Rightarrow> 's \<Rightarrow> (unit \<times> 's) result" where
  "delete_check ops s =
     and_then (tx_get ops s ''scope-a'' ''User'' ''id-one'') (\<lambda>stored.
     and_then (tx_delete ops (rec_scope stored) (rec_type stored) (rec_id stored) (rec_version stored)
         (tombstone_of stored (conformance_now + 2000000000)) s) (\<lambda>s. Inr ((), s)))"

definition tombstone_check :: "platform \<Rightarrow> 's tx_ops \<Rightarrow> 's \<Rightarrow> (unit \<times> 's) result" where
  "tombstone_check P ops s =
     and_then (check (fails_with ErrNotFound (tx_get ops s ''scope-a'' ''User'' ''id-one''))
       (OtherError ''deleted resource remained visible'')) (\<lambda>_.
     and_then (check (case tx_tombstones ops s ''scope-a'' ''User'' of
           Inr [t] \<Rightarrow> tomb_id t = ''id-one'' | _ \<Rightarrow> False)
       (OtherError ''tombstone persistence failed'')) (\<lambda>_.
     and_then (check (fails_with ErrTombstoned
         (tx_create ops (conformanceRecord P ''scope-a'' ''id-one'' ''external-new'' ''Other'' conformance_now) s))
       (OtherError ''deleted ID was reassigned'')) (\<lambda>_.
     and_then (check (fails_with ErrTombstoned
         (tx_create ops (conformanceRecord P ''scope-a'' ''id-three'' ''external-one'' ''Other'' conformance_now) s))
       (OtherError ''tombstoned external identity was recreated'')) (\<lambda>_. Inr ((), s)))))"

text \<open>What \<^verbatim>\<open>%w\<close> after a prefix makes of an error; only its text is kept here.\<close>

definition annotated :: "string \<Rightarrow> scim_error \<Rightarrow> scim_error" where
  "annotated prefix e = (if prefix = [] then e else OtherError (prefix @ '': '' @ error_text e))"

text \<open>One transaction of the script: its callback must succeed, and the next one sees its state.\<close>

definition run_check :: "ctx \<Rightarrow> string \<Rightarrow> ('s \<Rightarrow> (unit \<times> 's) result) \<Rightarrow> 's \<Rightarrow> 's result" where
  "run_check ctx prefix fn s = (case Transact ctx fn s of (Inl e, s) \<Rightarrow> Inl (annotated prefix e) | (Inr _, s) \<Rightarrow> Inr s)"

text \<open>One whose callback must fail as told.\<close>

definition run_failing :: "ctx \<Rightarrow> (scim_error \<Rightarrow> bool) \<Rightarrow> string \<Rightarrow> ('s \<Rightarrow> (unit \<times> 's) result) \<Rightarrow> 's \<Rightarrow> 's result" where
  "run_failing ctx ok complaint fn s =
     (case Transact ctx fn s of
        (Inl e, s) \<Rightarrow> if ok e then Inr s else Inl (OtherError complaint)
      | (Inr _, s) \<Rightarrow> Inl (OtherError complaint))"

text \<open>The script on the initial state of the store that the factory made.\<close>

definition check_script :: "platform \<Rightarrow> 's tx_ops \<Rightarrow> ctx \<Rightarrow> 's \<Rightarrow> 's result" where
  "check_script P ops ctx s =
     (let now = conformance_now in
      and_then (run_check ctx ''create''
        (create_only ops (conformanceRecord P ''scope-a'' ''id-one'' ''external-one'' ''Member'' now)) s) (\<lambda>s.
      and_then (run_check ctx ''second create''
        (create_only ops (conformanceRecord P ''scope-a'' ''id-list'' ''external-list'' ''Another'' now)) s) (\<lambda>s.
      and_then (run_check ctx [] (bounded_list ops) s) (\<lambda>s.
      and_then (run_failing ctx (\<lambda>e. error_text e = ''rollback marker'')
        ''callback error was not returned exactly'' (rollback_check ops) s) (\<lambda>s.
      and_then (run_check ctx [] (isolation_check ops) s) (\<lambda>s.
      and_then (run_failing ctx (\<lambda>e. e = ErrConflict) ''case-insensitive uniqueness failed''
        (create_only ops (conformanceRecord P ''scope-a'' ''id-two'' ''external-two'' ''member'' now)) s) (\<lambda>s.
      and_then (run_check ctx [] (replace_check P ops) s) (\<lambda>s.
      and_then (run_check ctx ''delete'' (delete_check ops) s)
        (run_check ctx [] (tombstone_check P ops))))))))))"

text \<open>A missing factory, and one that makes no store, are refused before the script.\<close>

definition CheckStore :: "platform \<Rightarrow> 's tx_ops \<Rightarrow> ctx \<Rightarrow> 's option option \<Rightarrow> 's result" where
  "CheckStore P ops ctx factory =
     (case factory of
        None \<Rightarrow> Inl (OtherError ''store factory is required'')
      | Some None \<Rightarrow> Inl (OtherError ''store factory returned nil'')
      | Some (Some s) \<Rightarrow> check_script P ops ctx s)"

text \<open>The memory store of the repository passes its own suite.\<close>

lemma memory_conforms: "isl (CheckStore plain_platform (memory_ops plain_platform) live_ctx (Some (Some newMemoryState))) = False"
  by code_simp

end
