(* ===== verification/Scim_Filter_Facts.thy ===== *)
theory Scim_Filter_Facts
  imports Scim_Filter
begin

text \<open>
  The parser consumes tokens, its loop fuel is enough, and it inverts a printer that writes the
  fewest parentheses: \<^verbatim>\<open>and\<close> binds tighter than \<^verbatim>\<open>or\<close>, both to the left. A filter that was parsed
  evaluates without error, to its truth in a declarative semantics.
\<close>

section \<open>Tokens are consumed\<close>

lemma take_token_shorter: "length (snd (take_token ts)) \<le> length ts"
  by (auto simp: take_token_def split: list.splits)

lemma take_token_word: "is_word P w ts \<Longrightarrow> length (snd (take_token ts)) < length ts"
  by (auto simp: is_word_def peek_def take_token_def split: list.splits)

lemma chain_shorter:
  assumes "\<And>ts e r. operand ts = Inr (e, r) \<Longrightarrow> length r \<le> length ts"
  shows "chain n goes j operand left ts = Inr (e, r) \<Longrightarrow> length r \<le> length ts"
proof (induction n arbitrary: left ts)
  case (Suc n)
  then show ?case
    using take_token_shorter [of ts] by (fastforce simp: result_simps split: if_splits dest: assms)
qed simp

text \<open>Any fuel from the number of tokens up gives the same result.\<close>

lemma chain_fuel:
  assumes "\<And>ts e r. operand ts = Inr (e, r) \<Longrightarrow> length r \<le> length ts"
  shows "length ts \<le> n \<Longrightarrow> chain n (is_word P w) j operand left ts = chain (length ts) (is_word P w) j operand left ts"
proof (induction "length ts" arbitrary: n ts left rule: less_induct)
  case less
  show ?case
  proof (cases "is_word P w ts")
    case True
    then obtain m k where n: "n = Suc m" and k: "length ts = Suc k"
      using take_token_word [OF True] less.prems by (cases n; cases "length ts") auto
    have "chain m (is_word P w) j operand x r = chain k (is_word P w) j operand x r"
      if "operand (snd (take_token ts)) = Inr (y, r)" for x y r
    proof -
      have "length r < length ts"
        using assms [OF that] take_token_word [OF True] by linarith
      then show ?thesis using less.hyps [of r m x] less.hyps [of r k x] n k less.prems by simp
    qed
    then show ?thesis
      unfolding n k using True
      by (auto intro!: and_then_cong)
  next
    case False
    then show ?thesis by (cases n; cases "length ts") auto
  qed
qed

lemma expect_shorter: "expect t m x = Inr (e, r) \<Longrightarrow> length r \<le> length (snd x)"
  using take_token_shorter by (auto simp: expect_def split: prod.splits if_splits)

lemma parse_comparison_shorter: "parse_comparison P a ts = Inr (e, r) \<Longrightarrow> length r \<le> length ts"
proof -
  assume "parse_comparison P a ts = Inr (e, r)"
  then obtain t u where t: "take_token ts = (t, u)" and "r = u \<or> r = snd (take_token u)"
    by (auto simp: parse_comparison_def Let_def split: prod.splits filterToken.splits if_splits option.splits)
  then show ?thesis using take_token_shorter [of ts] take_token_shorter [of u] by auto
qed

lemma parse_shorter_tokens:
  "parseOr P d ts = Inr (e, r) \<Longrightarrow> length r \<le> length ts"
  "parseAnd P d ts = Inr (e, r) \<Longrightarrow> length r \<le> length ts"
  "parseUnary P d ts = Inr (e, r) \<Longrightarrow> length r \<le> length ts"
  "parseAttribute P d ts = Inr (e, r) \<Longrightarrow> length r \<le> length ts"
proof (induction P d ts and P d ts and P d ts and P d ts arbitrary: e r and e r and e r and e r
    rule: parseOr_parseAnd_parseUnary_parseAttribute.induct)
  case (1 P d ts)
  then obtain l u where l: "parseAnd P (d + 1) ts = Inr (l, u)"
    and c: "chain (length u) (is_word P ''or'') FilterOr (parseAnd P (d + 1)) l u = Inr (e, r)"
    by (auto simp: parseOr.simps result_simps)
  have "length r \<le> length u" by (rule chain_shorter [OF _ c]) (rule 1(2) [OF l refl])
  with 1(1) [OF l] show ?case by simp
next
  case (2 P d ts)
  then obtain l u where l: "parseUnary P (d + 1) ts = Inr (l, u)"
    and c: "chain (length u) (is_word P ''and'') FilterAnd (parseUnary P (d + 1)) l u = Inr (e, r)"
    by (auto simp: parseAnd.simps result_simps)
  have "length r \<le> length u" by (rule chain_shorter [OF _ c]) (rule 2(2) [OF l refl])
  with 2(1) [OF l] show ?case by simp
next
  case (3 P d ts)
  have enclosed: "length r' \<le> length ts"
    if "or_error (and_then (parseOr P (d + 1) u) (expect t [])) x = Inr (c, r')" and "length u \<le> length ts"
      and "\<And>e v. parseOr P (d + 1) u = Inr (e, v) \<Longrightarrow> length v \<le> length u" for u t x c r'
    using that expect_shorter by (fastforce simp: result_simps)
  have drop1: "length (snd (take_token ts)) \<le> length ts" by (rule take_token_shorter)
  from "3.prems" have "\<not> maximumFilterDepth < d" by (auto simp: parseUnary.simps)
  then consider "is_word P ''not'' ts" | "\<not> is_word P ''not'' ts" "peek ts = FLeftParen"
    | "\<not> is_word P ''not'' ts" "peek ts \<noteq> FLeftParen" by blast
  then show ?case
  proof cases
    case 1
    obtain t u where t: "take_token (snd (take_token ts)) = (t, u)" by force
    then have u: "length u \<le> length ts" using drop1 take_token_shorter [of "snd (take_token ts)"] by simp
    from "3.prems" 1 t \<open>\<not> maximumFilterDepth < d\<close>
    obtain c where lp: "t = FLeftParen"
      and "or_error (and_then (parseOr P (d + 1) u) (expect FRightParen []))
            (OtherError ''SCIM not expression is invalid'') = Inr (c, r)"
      unfolding parseUnary.simps by (auto simp: and_then_Inr_iff split: if_splits)
    with enclosed [OF _ u "3.IH"(1)] 1 t \<open>\<not> maximumFilterDepth < d\<close> show ?thesis by simp
  next
    case 2
    with "3.prems" \<open>\<not> maximumFilterDepth < d\<close> enclosed [OF _ drop1 "3.IH"(2)] show ?thesis
      unfolding parseUnary.simps by simp
  next
    case 3
    with "3.prems" \<open>\<not> maximumFilterDepth < d\<close> "3.IH"(3) show ?thesis
      unfolding parseUnary.simps by simp
  qed
next
  case (4 P d ts)
  from "4.prems" obtain a u where d: "\<not> maximumFilterDepth < d" and u: "take_token ts = (FWord a, u)"
    by (auto simp: parseAttribute.simps split: if_splits prod.splits bool.splits filterToken.splits)
  have lu: "length u \<le> length ts" using take_token_shorter [of ts] u by simp
  show ?case
  proof (cases "peek u = FLeftBracket")
    case True
    from "4.prems" d u True obtain c q where c: "parseOr P (d + 1) (snd (take_token u)) = Inr (c, q)"
      and x: "expect FRightBracket [] (c, q) = Inr (c, r)"
      by (auto simp: parseAttribute.simps result_simps expect_def split: if_splits)
    have "length q \<le> length (snd (take_token u))" using "4.IH" [OF refl _ u [symmetric] refl True c] d by simp
    with expect_shorter [OF x] take_token_shorter [of u] lu show ?thesis by simp
  next
    case False
    with "4.prems" d u have "parse_comparison P a u = Inr (e, r)" by (simp add: parseAttribute.simps)
    with parse_comparison_shorter lu show ?thesis by fastforce
  qed
qed

section \<open>Printing\<close>

text \<open>The token of a value, and the printer: parentheses only where the grammar needs them.\<close>

definition value_token :: "json \<Rightarrow> filterToken" where
  "value_token v =
     (case v of JStr s \<Rightarrow> FString s | JNum s \<Rightarrow> FNumber s | JBool True \<Rightarrow> FTrue | JBool False \<Rightarrow> FFalse | _ \<Rightarrow> FNull)"

fun precedence :: "FilterExpression \<Rightarrow> nat" where
  "precedence (FilterOr l r) = 0"
| "precedence (FilterAnd l r) = 1"
| "precedence _ = 2"

definition group_if :: "bool \<Rightarrow> filterToken list \<Rightarrow> filterToken list" where
  "group_if b ts = (if b then FLeftParen # ts @ [FRightParen] else ts)"

primrec filter_tokens :: "FilterExpression \<Rightarrow> filterToken list" where
  "filter_tokens (FilterOr l r) =
     filter_tokens l @ FWord ''or'' # group_if (precedence r < 1) (filter_tokens r)"
| "filter_tokens (FilterAnd l r) =
     group_if (precedence l < 1) (filter_tokens l) @ FWord ''and'' # group_if (precedence r < 2) (filter_tokens r)"
| "filter_tokens (FilterNot c) = FWord ''not'' # FLeftParen # filter_tokens c @ [FRightParen]"
| "filter_tokens (FilterValuePath a path c) = FWord a # FLeftBracket # filter_tokens c @ [FRightBracket]"
| "filter_tokens (FilterPresent a path) = [FWord a, FWord ''pr'']"
| "filter_tokens (FilterCompare op a v contract path) = [FWord a, FWord op, value_token v]"

text \<open>
  Whether an expression stays within the depth bound when parseOr reads it at depth \<open>d\<close>; an operand in
  parentheses is read three levels deeper.
\<close>

primrec fits :: "FilterExpression \<Rightarrow> nat \<Rightarrow> bool" where
  "fits (FilterOr l r) = (\<lambda>d. fits l d
     \<and> (if precedence r < 1 then d + 2 \<le> maximumFilterDepth \<and> fits r (d + 3) else fits r d))"
| "fits (FilterAnd l r) = (\<lambda>d.
     (if precedence l < 1 then d + 2 \<le> maximumFilterDepth \<and> fits l (d + 3) else fits l d)
     \<and> (if precedence r < 2 then d + 2 \<le> maximumFilterDepth \<and> fits r (d + 3) else fits r d))"
| "fits (FilterNot c) = (\<lambda>d. d + 2 \<le> maximumFilterDepth \<and> fits c (d + 3))"
| "fits (FilterValuePath a path c) = (\<lambda>d. d + 3 \<le> maximumFilterDepth \<and> fits c (d + 4))"
| "fits (FilterPresent a path) = (\<lambda>d. d + 3 \<le> maximumFilterDepth)"
| "fits (FilterCompare op a v contract path) = (\<lambda>d. d + 3 \<le> maximumFilterDepth)"

text \<open>What the parser can produce: nothing resolved, attributes that are not \<^verbatim>\<open>not\<close>, known operators.\<close>

primrec parsable :: "platform \<Rightarrow> FilterExpression \<Rightarrow> bool" where
  "parsable P (FilterOr l r) \<longleftrightarrow> parsable P l \<and> parsable P r"
| "parsable P (FilterAnd l r) \<longleftrightarrow> parsable P l \<and> parsable P r"
| "parsable P (FilterNot c) \<longleftrightarrow> parsable P c"
| "parsable P (FilterValuePath a path c) \<longleftrightarrow> \<not> equal_fold P a ''not'' \<and> path = [] \<and> parsable P c"
| "parsable P (FilterPresent a path) \<longleftrightarrow> \<not> equal_fold P a ''not'' \<and> path = []"
| "parsable P (FilterCompare op a v contract path) \<longleftrightarrow>
     \<not> equal_fold P a ''not'' \<and> List.member comparison_operators op \<and> as_array v = None \<and> as_object v = None
     \<and> contract = None \<and> path = []"

lemma token_simps [simp]:
  "peek (t # ts) = t" "take_token (t # ts) = (t, ts)" "peek [] = FEOF"
  by (simp_all add: peek_def take_token_def)

lemma is_word_simps [simp]:
  "is_word P w (FWord x # ts) = equal_fold P x w" "is_word P w (FLeftParen # ts) = False"
  "is_word P w (FRightParen # ts) = False" "is_word P w (FRightBracket # ts) = False" "\<not> is_word P w []"
  by (simp_all add: is_word_def)

lemma keyword_distinct:
  "\<not> equal_fold P ''and'' ''or''" "\<not> equal_fold P ''or'' ''and''"
  by (simp_all add: equal_fold_ascii to_lower_ascii lower_byte_def in_range_def)

lemma operator_lower: "List.member comparison_operators op \<Longrightarrow> to_lower P op = op \<and> op \<noteq> ''pr'' \<and> oneOf op comparison_operators"
  by (auto simp: comparison_operators_def to_lower_def lower_byte_def in_range_def oneOf_def)

lemma value_token_value: "as_array v = None \<Longrightarrow> as_object v = None \<Longrightarrow> token_value (value_token v) = Some v"
  by (cases v) (auto simp: token_value_def value_token_def as_array_def as_object_def split: bool.splits)

text \<open>One round of a loop, and a loop that has nothing to do.\<close>

lemma chain_stop: "\<not> goes ts \<Longrightarrow> chain n goes j operand left ts = Inr (left, ts)"
  by (cases n) auto

lemma chain_round:
  assumes "equal_fold P x w" and "operand ts = Inr (right, r)"
    and "\<And>ts e r. operand ts = Inr (e, r) \<Longrightarrow> length r \<le> length ts"
  shows "chain (length (FWord x # ts)) (is_word P w) j operand left (FWord x # ts)
       = chain (length r) (is_word P w) j operand (j left right) r"
proof -
  have "chain (length ts) (is_word P w) j operand (j left right) r
      = chain (length r) (is_word P w) j operand (j left right) r"
    by (rule chain_fuel) (use assms(2,3) in blast)+
  moreover have "chain (length (FWord x # ts)) (is_word P w) j operand left (FWord x # ts)
      = chain (length ts) (is_word P w) j operand (j left right) r"
    using assms(1,2) by simp
  ultimately show ?thesis by simp
qed

lemma parsed_head:
  assumes "parsable P e" and "precedence e = 2"
  shows "\<exists>a ts. filter_tokens e = FWord a # ts
    \<and> (if \<exists>c. e = FilterNot c then a = ''not'' else \<not> equal_fold P a ''not'')"
  using assms by (cases e) auto

lemma group_unary:
  assumes "d + 2 \<le> maximumFilterDepth"
    and "parseOr P (d + 3) (filter_tokens e @ FRightParen # rest) = Inr (e, FRightParen # rest)"
  shows "parseUnary P (d + 2) (group_if True (filter_tokens e) @ rest) = Inr (e, rest)"
  using assms unfolding parseUnary.simps by (simp add: group_if_def expect_def numeral_3_eq_3)

text \<open>
  What each level of the grammar makes of a printed expression: an operand, a chain of \<^verbatim>\<open>and\<close>, a
  chain of \<^verbatim>\<open>or\<close>, with whatever comes after it.
\<close>

definition reads_unary :: "platform \<Rightarrow> FilterExpression \<Rightarrow> nat \<Rightarrow> bool" where
  "reads_unary P e d \<longleftrightarrow> (\<forall>rest. parseUnary P (d + 2) (filter_tokens e @ rest) = Inr (e, rest))"

definition reads_and :: "platform \<Rightarrow> FilterExpression \<Rightarrow> nat \<Rightarrow> bool" where
  "reads_and P e d \<longleftrightarrow> (\<forall>rest. parseAnd P (d + 1) (filter_tokens e @ rest)
     = chain (length rest) (is_word P ''and'') FilterAnd (parseUnary P (d + 2)) e rest)"

definition reads_or :: "platform \<Rightarrow> FilterExpression \<Rightarrow> nat \<Rightarrow> bool" where
  "reads_or P e d \<longleftrightarrow> (\<forall>rest. \<not> is_word P ''and'' rest \<longrightarrow> parseOr P d (filter_tokens e @ rest)
     = chain (length rest) (is_word P ''or'') FilterOr (parseAnd P (d + 1)) e rest)"

lemma reads_unary_and: "reads_unary P e d \<Longrightarrow> reads_and P e d"
  unfolding reads_unary_def reads_and_def parseAnd.simps by (simp add: numeral_2_eq_2)

lemma reads_and_or: "reads_and P e d \<Longrightarrow> reads_or P e d"
  unfolding reads_and_def reads_or_def parseOr.simps by (simp add: chain_stop)

lemma reads_or_end:
  assumes "reads_or P e d" and "rest = [] \<or> hd rest = FRightParen \<or> hd rest = FRightBracket"
  shows "parseOr P d (filter_tokens e @ rest) = Inr (e, rest)"
proof -
  from assms(2) have "\<not> is_word P w rest" for w by (cases rest) (auto simp: is_word_def)
  with assms(1) show ?thesis by (simp add: reads_or_def chain_stop)
qed

text \<open>An operand of \<^verbatim>\<open>and\<close> or \<^verbatim>\<open>or\<close>, in parentheses or not.\<close>

lemma reads_group:
  assumes "d + 2 \<le> maximumFilterDepth" and "reads_or P e (d + 3)"
  shows "parseUnary P (d + 2) (group_if True (filter_tokens e) @ rest) = Inr (e, rest)"
  using group_unary [OF assms(1)] reads_or_end [OF assms(2), of "FRightParen # rest"] by simp

lemma reads_all:
  "parsable P e \<Longrightarrow> fits e d \<Longrightarrow>
     (precedence e = 2 \<longrightarrow> reads_unary P e d) \<and> (1 \<le> precedence e \<longrightarrow> reads_and P e d) \<and> reads_or P e d"
proof (induction e arbitrary: d)
  case (FilterOr l r)
  have l: "reads_or P l d" using FilterOr by simp
  have right: "parseAnd P (d + 1) (group_if (precedence r < 1) (filter_tokens r) @ rest) = Inr (r, rest)"
    if "\<not> is_word P ''and'' rest" for rest
  proof (cases "precedence r < 1")
    case True
    with FilterOr have "d + 2 \<le> maximumFilterDepth" "reads_or P r (d + 3)" by simp_all
    from reads_group [OF this, of rest] that True show ?thesis
      unfolding parseAnd.simps [of P "d + 1"] by (simp add: chain_stop)
  next
    case False
    with FilterOr have "reads_and P r d" by simp
    with that False show ?thesis by (simp add: reads_and_def chain_stop group_if_def)
  qed
  have "reads_or P (FilterOr l r) d"
    unfolding reads_or_def
  proof (intro allI impI)
    fix rest assume rest: "\<not> is_word P ''and'' rest"
    let ?t = "group_if (precedence r < 1) (filter_tokens r) @ rest"
    have "parseOr P d (filter_tokens (FilterOr l r) @ rest) = parseOr P d (filter_tokens l @ FWord ''or'' # ?t)" by simp
    also have "\<dots> = chain (length (FWord ''or'' # ?t)) (is_word P ''or'') FilterOr (parseAnd P (d + 1)) l (FWord ''or'' # ?t)"
      using l unfolding reads_or_def by (simp add: keyword_distinct)
    also have "\<dots> = chain (length rest) (is_word P ''or'') FilterOr (parseAnd P (d + 1)) (FilterOr l r) rest"
      by (rule chain_round [OF equal_fold_refl]) (rule right [OF rest], erule parse_shorter_tokens)
    finally show "parseOr P d (filter_tokens (FilterOr l r) @ rest)
      = chain (length rest) (is_word P ''or'') FilterOr (parseAnd P (d + 1)) (FilterOr l r) rest" .
  qed
  then show ?case by simp
next
  case (FilterAnd l r)
  have l: "reads_and P l d \<or> precedence l < 1 \<and> reads_or P l (d + 3) \<and> d + 2 \<le> maximumFilterDepth"
    using FilterAnd by (auto split: if_splits)
  have left: "parseAnd P (d + 1) (group_if (precedence l < 1) (filter_tokens l) @ rest)
      = chain (length rest) (is_word P ''and'') FilterAnd (parseUnary P (d + 2)) l rest" for rest
  proof (cases "precedence l < 1")
    case True
    with FilterAnd have "d + 2 \<le> maximumFilterDepth" "reads_or P l (d + 3)" by simp_all
    from reads_group [OF this, of rest] True show ?thesis
      unfolding parseAnd.simps [of P "d + 1"] by (simp add: numeral_2_eq_2)
  next
    case False
    with FilterAnd have "reads_and P l d" by simp
    with False show ?thesis by (simp add: reads_and_def group_if_def)
  qed
  have right: "parseUnary P (d + 2) (group_if (precedence r < 2) (filter_tokens r) @ rest) = Inr (r, rest)" for rest
  proof (cases "precedence r < 2")
    case True
    with FilterAnd have "d + 2 \<le> maximumFilterDepth" "reads_or P r (d + 3)" by simp_all
    from reads_group [OF this, of rest] True show ?thesis by simp
  next
    case False
    then have "precedence r = 2" by (cases r) auto
    with FilterAnd False have "reads_unary P r d" by simp
    with False show ?thesis by (simp add: reads_unary_def group_if_def)
  qed
  have "reads_and P (FilterAnd l r) d"
    unfolding reads_and_def
  proof (intro allI)
    fix rest
    let ?t = "group_if (precedence r < 2) (filter_tokens r) @ rest"
    have "parseAnd P (d + 1) (filter_tokens (FilterAnd l r) @ rest)
        = parseAnd P (d + 1) (group_if (precedence l < 1) (filter_tokens l) @ FWord ''and'' # ?t)" by simp
    also have "\<dots> = chain (length (FWord ''and'' # ?t)) (is_word P ''and'') FilterAnd (parseUnary P (d + 2)) l (FWord ''and'' # ?t)"
      by (rule left)
    also have "\<dots> = chain (length rest) (is_word P ''and'') FilterAnd (parseUnary P (d + 2)) (FilterAnd l r) rest"
      by (rule chain_round [OF equal_fold_refl]) (rule right, erule parse_shorter_tokens)
    finally show "parseAnd P (d + 1) (filter_tokens (FilterAnd l r) @ rest)
      = chain (length rest) (is_word P ''and'') FilterAnd (parseUnary P (d + 2)) (FilterAnd l r) rest" .
  qed
  with reads_and_or show ?case by simp
next
  case (FilterNot c)
  then have c: "reads_or P c (d + 3)" and d: "d + 2 \<le> maximumFilterDepth" by simp_all
  have "reads_unary P (FilterNot c) d"
    unfolding reads_unary_def parseUnary.simps
    using d reads_or_end [OF c] by (simp add: expect_def numeral_3_eq_3)
  with reads_unary_and reads_and_or show ?case by blast
next
  case (FilterValuePath a path c)
  then have c: "reads_or P c (d + 4)" and d: "d + 3 \<le> maximumFilterDepth" and a: "\<not> equal_fold P a ''not''"
    and path: "path = []" by simp_all
  have "reads_unary P (FilterValuePath a path c) d"
    unfolding reads_unary_def parseUnary.simps parseAttribute.simps
    using d a path reads_or_end [OF c] by (simp add: expect_def numeral_eq_Suc)
  with reads_unary_and reads_and_or show ?case by blast
next
  case (FilterPresent a path)
  then have "reads_unary P (FilterPresent a path) d"
    unfolding reads_unary_def parseUnary.simps parseAttribute.simps
    by (simp add: parse_comparison_def to_lower_def lower_byte_def in_range_def)
  with reads_unary_and reads_and_or show ?case by blast
next
  case (FilterCompare op a v contract path)
  then have "reads_unary P (FilterCompare op a v contract path) d"
    unfolding reads_unary_def parseUnary.simps parseAttribute.simps
    by (simp add: parse_comparison_def Let_def operator_lower value_token_value)
  with reads_unary_and reads_and_or show ?case by blast
qed

lemma parse_printed:
  assumes "parsable P e" and "fits e 0"
  shows "parse_tokens P (filter_tokens e) = Inr e"
proof -
  from reads_all [OF assms] have "reads_or P e 0" by blast
  from reads_or_end [OF this, of "[]"] show ?thesis by (simp add: parse_tokens_def)
qed

section \<open>Meaning\<close>

text \<open>When one value satisfies a comparison, and when a document satisfies an expression.\<close>

definition satisfies_value :: "platform \<Rightarrow> string \<Rightarrow> json \<Rightarrow> SchemaAttribute \<Rightarrow> json \<Rightarrow> bool" where
  "satisfies_value P op expected contract actual \<longleftrightarrow>
     compareFilterValue P actual expected contract op = Inr True"

primrec satisfies :: "platform \<Rightarrow> FilterExpression \<Rightarrow> document \<Rightarrow> bool" where
  "satisfies P (FilterAnd l r) = (\<lambda>document. satisfies P l document \<and> satisfies P r document)"
| "satisfies P (FilterOr l r) = (\<lambda>document. satisfies P l document \<or> satisfies P r document)"
| "satisfies P (FilterNot c) = (\<lambda>document. \<not> satisfies P c document)"
| "satisfies P (FilterValuePath a path c) = (\<lambda>document.
     \<exists>object. JObj object \<in> set (lookupFilterValues document path) \<and> satisfies P c object)"
| "satisfies P (FilterPresent a path) = (\<lambda>document.
     \<exists>v \<in> set (lookupFilterValues document path). filterPresent v)"
| "satisfies P (FilterCompare op a expected contract path) = (\<lambda>document.
     \<exists>v \<in> set (lookupFilterValues document path). satisfies_value P op expected (contract_of contract) v)"

primrec operators_ok :: "FilterExpression \<Rightarrow> bool" where
  "operators_ok (FilterAnd l r) \<longleftrightarrow> operators_ok l \<and> operators_ok r"
| "operators_ok (FilterOr l r) \<longleftrightarrow> operators_ok l \<and> operators_ok r"
| "operators_ok (FilterNot c) \<longleftrightarrow> operators_ok c"
| "operators_ok (FilterValuePath a path c) \<longleftrightarrow> operators_ok c"
| "operators_ok (FilterPresent a path) \<longleftrightarrow> True"
| "operators_ok (FilterCompare op a v contract path) \<longleftrightarrow> List.member comparison_operators op"

lemma without_middle:
  "List.member [a, b, c, d, e, f, g, h, i] x \<Longrightarrow> \<not> (x = c \<or> x = d \<or> x = e) \<Longrightarrow>
   x = a \<or> x = b \<or> x = f \<or> x = g \<or> x = h \<or> x = i"
  by auto

lemma compare_total:
  "List.member comparison_operators op \<Longrightarrow> \<exists>b. compareFilterValue P actual expected contract op = Inr b"
proof (cases "is_text_operator op")
  case True
  then have "op \<noteq> ''eq''" "op \<noteq> ''ne''" by (auto simp: is_text_operator_def)
  moreover have "Ex Not" by (rule exI [of _ False]) simp
  ultimately show ?thesis using True by (simp add: compareFilterValue_def Let_def split: option.split)
next
  case False
  assume "List.member comparison_operators op"
  with False have "op = ''eq'' \<or> op = ''ne'' \<or> op = ''gt'' \<or> op = ''ge'' \<or> op = ''lt'' \<or> op = ''le''"
    unfolding comparison_operators_def is_text_operator_def by (intro without_middle)
  moreover have some_false: "Ex Not" by (rule exI [of _ False]) simp
  ultimately show ?thesis using False
    by (cases "orderFilterValues P actual expected contract") (elim disjE; simp add: compareFilterValue_def some_false)+
qed

lemma first_match_spec:
  assumes "\<And>x. x \<in> set xs \<Longrightarrow> f x = Inr (p x)"
  shows "first_match f xs = Inr (\<exists>x \<in> set xs. p x)"
  using assms by (induction xs) auto

lemma match_expression_sat: "operators_ok e \<Longrightarrow> match_expression P e document = Inr (satisfies P e document)"
proof (induction e arbitrary: document)
  case (FilterValuePath a path c)
  let ?p = "\<lambda>v. case as_object v of None \<Rightarrow> False | Some object \<Rightarrow> satisfies P c object"
  have "match_expression P (FilterValuePath a path c) document
      = Inr (\<exists>v \<in> set (lookupFilterValues document path). ?p v)"
    unfolding match_expression.simps
    by (rule first_match_spec) (use FilterValuePath in \<open>auto split: option.splits\<close>)
  also have "(\<exists>v \<in> set (lookupFilterValues document path). ?p v) = satisfies P (FilterValuePath a path c) document"
    by (auto split: option.splits)
  finally show ?case .
next
  case (FilterCompare op a expected contract path)
  have "compareFilterValue P v expected (contract_of contract) op
      = Inr (satisfies_value P op expected (contract_of contract) v)" for v
    using compare_total [of op P v expected "contract_of contract"] FilterCompare
    by (auto simp: satisfies_value_def)
  then show ?case by (simp add: first_match_spec)
qed (auto simp: list_ex_iff)

text \<open>The parser only builds comparisons with known operators, and validation keeps them.\<close>

lemma chain_operators:
  assumes "\<And>ts e r. operand ts = Inr (e, r) \<Longrightarrow> operators_ok e"
    and "\<And>l r. operators_ok l \<Longrightarrow> operators_ok r \<Longrightarrow> operators_ok (j l r)"
  shows "chain n goes j operand left ts = Inr (e, r) \<Longrightarrow> operators_ok left \<Longrightarrow> operators_ok e"
  by (induction n arbitrary: left ts) (auto simp: result_simps assms split: if_splits)

lemma expect_same: "expect t m x = Inr (e, r) \<Longrightarrow> e = fst x"
  by (auto simp: expect_def split: prod.splits if_splits)

lemma parse_comparison_operators: "parse_comparison P a ts = Inr (e, r) \<Longrightarrow> operators_ok e"
  by (auto simp: parse_comparison_def Let_def oneOf_def
      split: prod.splits filterToken.splits if_splits option.splits)

lemma parse_operators:
  "parseOr P d ts = Inr (e, r) \<Longrightarrow> operators_ok e"
  "parseAnd P d ts = Inr (e, r) \<Longrightarrow> operators_ok e"
  "parseUnary P d ts = Inr (e, r) \<Longrightarrow> operators_ok e"
  "parseAttribute P d ts = Inr (e, r) \<Longrightarrow> operators_ok e"
proof (induction P d ts and P d ts and P d ts and P d ts arbitrary: e r and e r and e r and e r
    rule: parseOr_parseAnd_parseUnary_parseAttribute.induct)
  case (1 P d ts)
  then obtain l u where l: "parseAnd P (d + 1) ts = Inr (l, u)"
    and c: "chain (length u) (is_word P ''or'') FilterOr (parseAnd P (d + 1)) l u = Inr (e, r)"
    by (auto simp: parseOr.simps result_simps)
  show ?case by (rule chain_operators [OF _ _ c]) (use 1(2) [OF l refl] 1(1) [OF l] in auto)
next
  case (2 P d ts)
  then obtain l u where l: "parseUnary P (d + 1) ts = Inr (l, u)"
    and c: "chain (length u) (is_word P ''and'') FilterAnd (parseUnary P (d + 1)) l u = Inr (e, r)"
    by (auto simp: parseAnd.simps result_simps)
  show ?case by (rule chain_operators [OF _ _ c]) (use 2(2) [OF l refl] 2(1) [OF l] in auto)
next
  case (3 P d ts)
  from "3.prems" have d: "\<not> maximumFilterDepth < d" by (auto simp: parseUnary.simps)
  then consider "is_word P ''not'' ts" | "\<not> is_word P ''not'' ts" "peek ts = FLeftParen"
    | "\<not> is_word P ''not'' ts" "peek ts \<noteq> FLeftParen" by blast
  then show ?case
  proof cases
    case 1
    obtain t u where t: "take_token (snd (take_token ts)) = (t, u)" by force
    from "3.prems" 1 t d obtain c q x where "t = FLeftParen" and c: "parseOr P (d + 1) u = Inr (c, q)"
      and "expect FRightParen [] (c, q) = Inr (x, r)" and "e = FilterNot x"
      unfolding parseUnary.simps by (auto simp: result_simps split: if_splits)
    with "3.IH"(1) [OF d 1 t [symmetric] _ c] expect_same show ?thesis by fastforce
  next
    case 2
    with "3.prems" d obtain c q where c: "parseOr P (d + 1) (snd (take_token ts)) = Inr (c, q)"
      and "expect FRightParen [] (c, q) = Inr (e, r)"
      unfolding parseUnary.simps by (auto simp: result_simps)
    with "3.IH"(2) [OF d 2 c] expect_same show ?thesis by fastforce
  next
    case 3
    with "3.prems" d "3.IH"(3) show ?thesis unfolding parseUnary.simps by simp
  qed
next
  case (4 P d ts)
  from "4.prems" obtain a u where d: "\<not> maximumFilterDepth < d" and u: "take_token ts = (FWord a, u)"
    by (auto simp: parseAttribute.simps split: if_splits prod.splits bool.splits filterToken.splits)
  show ?case
  proof (cases "peek u = FLeftBracket")
    case True
    from "4.prems" d u True obtain c q where c: "parseOr P (d + 1) (snd (take_token u)) = Inr (c, q)"
      and x: "e = FilterValuePath a [] c"
      by (auto simp: parseAttribute.simps result_simps expect_def split: if_splits)
    then show ?thesis using "4.IH" [OF refl _ u [symmetric] refl True c] d by simp
  next
    case False
    with "4.prems" d u have "parse_comparison P a u = Inr (e, r)" by (simp add: parseAttribute.simps)
    then show ?thesis by (rule parse_comparison_operators)
  qed
qed

lemma validate_operators:
  "validateFilterExpression P defn rel e = Inr e' \<Longrightarrow> operators_ok e \<Longrightarrow> operators_ok e'"
  by (induction P defn rel e arbitrary: e' rule: validateFilterExpression.induct)
    (auto simp: result_simps split: option.splits prod.splits if_splits)

lemma parseFilter_operators: "parseFilter P raw definition rel = Inr e \<Longrightarrow> operators_ok e"
proof -
  assume "parseFilter P raw definition rel = Inr e"
  then obtain ts e0 where "parse_tokens P ts = Inr e0" and v: "validateFilterExpression P definition rel e0 = Inr e"
    by (auto simp: parseFilter_def result_simps split: if_splits)
  then obtain q where "parseOr P 0 ts = Inr (e0, q)"
    by (auto simp: parse_tokens_def result_simps split: sum.splits if_splits prod.splits)
  then show ?thesis by (rule validate_operators [OF v parse_operators(1)])
qed

lemma parsed_filter_sat:
  assumes "parseFilter P raw definition rel = Inr e"
  shows "matchFilter P (Some e) document = Inr (satisfies P e document)"
  using match_expression_sat [OF parseFilter_operators [OF assms]] by (simp add: matchFilter_def)

section \<open>Comparison operators\<close>

text \<open>
  Two values are compared by the keys the contract gives them: folded text, instants, rational
  numbers or truth values, each in a total order.
\<close>

definition order_by :: "(json \<Rightarrow> 'a :: linorder option) \<Rightarrow> json \<Rightarrow> json \<Rightarrow> int option" where
  "order_by key x y =
     (case (key x, key y) of (Some l, Some r) \<Rightarrow> Some (compare_with (<) l r) | _ \<Rightarrow> None)"

lemma order_by_Some_iff:
  "order_by key x y = Some n \<longleftrightarrow> (\<exists>l r. key x = Some l \<and> key y = Some r \<and> n = compare_with (<) l r)"
  by (auto simp: order_by_def split: option.splits)

lemma order_by_sym: "order_by key x y = Some n \<Longrightarrow> order_by key y x = Some (- n)"
  by (auto simp: order_by_Some_iff compare_with_def)

lemma order_by_trans:
  "order_by key x y = Some m \<Longrightarrow> m \<le> 0 \<Longrightarrow> order_by key y z = Some n \<Longrightarrow> n \<le> 0 \<Longrightarrow>
   \<exists>k. order_by key x z = Some k \<and> k \<le> 0"
  by (auto simp: order_by_def compare_with_def split: if_splits option.splits)

lemma order_by_map:
  "(case (g x, g y) of (Some l, Some r) \<Rightarrow> Some (compare_with (<) (f l) (f r)) | _ \<Rightarrow> None)
    = order_by (\<lambda>v. map_option f (g v)) x y"
  by (simp add: order_by_def split: option.splits)

lemma order_by_decimal:
  "(case (number_of x, number_of y) of (Some l, Some r) \<Rightarrow> Some (compare_decimals l r) | _ \<Rightarrow> None)
    = order_by (\<lambda>v. map_option decimal_value (number_of v)) x y"
  by (simp add: order_by_def compare_decimals_value compare_with_def split: option.splits)

lemma order_cases:
  assumes "\<And>key :: json \<Rightarrow> string option. Q (order_by key)"
    and "\<And>key :: json \<Rightarrow> int option. Q (order_by key)"
    and "\<And>key :: json \<Rightarrow> rat option. Q (order_by key)"
    and "\<And>key :: json \<Rightarrow> bool option. Q (order_by key)"
    and "Q (\<lambda>x y. None)"
  shows "Q (\<lambda>x y. orderFilterValues P x y c)"
proof -
  have words: "(case (as_string x, as_string y) of
      (Some l, Some r) \<Rightarrow> Some (compare_with (<) (fold_text P c l) (fold_text P c r)) | _ \<Rightarrow> None)
    = order_by (\<lambda>v. map_option (fold_text P c) (as_string v)) x y" for x y by (rule order_by_map)
  have instant: "(case (Option.bind (as_string x) (time_parse P), Option.bind (as_string y) (time_parse P)) of
      (Some l, Some r) \<Rightarrow> Some (compare_with (<) l r) | _ \<Rightarrow> None)
    = order_by (\<lambda>v. Option.bind (as_string v) (time_parse P)) x y" for x y by (simp only: order_by_def)
  have truth: "(case (as_bool x, as_bool y) of (Some l, Some r) \<Rightarrow> Some (compare_with (<) l r) | _ \<Rightarrow> None)
    = order_by as_bool x y" for x y by (simp only: order_by_def)
  have branch: "Q (\<lambda>x y. if b then f x y else g x y)" if "Q f" and "Q g" for b f g
    using that by (cases b) simp_all
  show ?thesis
    unfolding orderFilterValues_def Let_def words instant truth order_by_decimal
    by (intro branch assms)
qed

lemma order_sym:
  "orderFilterValues P x y c = Some n \<Longrightarrow> orderFilterValues P y x c = Some (- n)"
proof -
  let ?Q = "\<lambda>order. \<forall>x y (n :: int). order x y = Some n \<longrightarrow> order y x = Some (- n)"
  have "?Q (\<lambda>x y. orderFilterValues P x y c)"
    by (rule order_cases [where Q = ?Q]; intro allI impI) (rule order_by_sym, assumption | simp)+
  then show "orderFilterValues P x y c = Some n \<Longrightarrow> orderFilterValues P y x c = Some (- n)"
    by blast
qed

lemma order_trans_values:
  "orderFilterValues P x y c = Some m \<Longrightarrow> m \<le> 0 \<Longrightarrow> orderFilterValues P y z c = Some n \<Longrightarrow> n \<le> 0 \<Longrightarrow>
   \<exists>k. orderFilterValues P x z c = Some k \<and> k \<le> 0"
proof -
  let ?Q = "\<lambda>order. \<forall>x y z (m :: int) (n :: int). order x y = Some m \<longrightarrow> m \<le> 0 \<longrightarrow> order y z = Some n \<longrightarrow> n \<le> 0 \<longrightarrow>
      (\<exists>k. order x z = Some k \<and> k \<le> 0)"
  have "?Q (\<lambda>x y. orderFilterValues P x y c)"
    by (rule order_cases [where Q = ?Q]; intro allI impI) (rule order_by_trans, assumption+ | simp)+
  then show "orderFilterValues P x y c = Some m \<Longrightarrow> m \<le> 0 \<Longrightarrow> orderFilterValues P y z c = Some n \<Longrightarrow> n \<le> 0 \<Longrightarrow>
      \<exists>k. orderFilterValues P x z c = Some k \<and> k \<le> 0"
    by blast
qed

end
