(* ===== verification/Scim_Server_Facts.thy ===== *)
theory Scim_Server_Facts
  imports Scim_Http
begin

text \<open>
  What the operations of the server do over any store that keeps the contract of Scim_Contract:
  what is created is read back, an update keeps the identity of a record and moves its time
  forward, preconditions decide whether a write happens, and a failed operation changes nothing.
  The contract is extended by what the credential adapter must leave alone.
\<close>

section \<open>Preconditions\<close>

lemma evaluate_preconditions_Inr:
  "evaluate_preconditions im inm r = Inr () \<longleftrightarrow>
     IfMatch im (rec_version r) True = Inr True \<and> IfNoneMatch inm (rec_version r) True = Inr True"
  by (auto simp: evaluate_preconditions_def result_simps)

text \<open>The tags a write may name: the current one, or any with a star, or none at all.\<close>

definition names_version :: "bool \<Rightarrow> string \<Rightarrow> string \<Rightarrow> bool" where
  "names_version wk header version \<longleftrightarrow>
     (\<exists>candidates u. parseEntityTags header = Inr candidates \<and> parseSingleStrongTag version = Inr u
        \<and> (star candidates \<or> (\<exists>c \<in> set (tags candidates). opaque c = u \<and> (weak c \<longrightarrow> wk))))"

lemma IfMatch_True: "IfMatch header version True = Inr True \<longleftrightarrow> header = [] \<or> names_version False header version"
  by (auto simp: IfMatch_def names_version_def result_simps list_ex_iff split: if_splits)

lemma IfNoneMatch_True:
  "IfNoneMatch header version True = Inr True \<Longrightarrow> header = [] \<or> \<not> names_version True header version"
  by (auto simp: IfNoneMatch_def names_version_def result_simps list_ex_iff split: if_splits)

lemma IfMatch_empty [simp]: "IfMatch [] version True = Inr True"
  by (simp add: IfMatch_def)

lemma evaluateWritePreconditions_Inr:
  assumes "evaluateWritePreconditions sv im inm r = Inr ()"
  shows "im = [] \<or> names_version (sv_weak_etags sv) im (rec_version r)"
    and "inm = [] \<or> \<not> names_version True inm (rec_version r)"
proof -
  have "(im = [] \<or> names_version (sv_weak_etags sv) im (rec_version r))
    \<and> IfNoneMatch inm (rec_version r) True = Inr True"
  proof (cases "sv_weak_etags sv \<and> im \<noteq> []")
    case True
    with assms obtain candidates u where "parseEntityTags im = Inr candidates"
      and "parseSingleStrongTag (rec_version r) = Inr u"
      and "star candidates \<or> (\<exists>c \<in> set (tags candidates). opaque c = u)"
      and "evaluate_preconditions [] inm r = Inr ()"
      by (simp add: evaluateWritePreconditions_def result_simps list_ex_iff) blast
    with True show ?thesis by (simp add: names_version_def evaluate_preconditions_Inr)
  next
    case False
    then have "evaluateWritePreconditions sv im inm r = evaluate_preconditions im inm r"
      by (auto simp: evaluateWritePreconditions_def)
    with assms False show ?thesis by (auto simp: evaluate_preconditions_Inr IfMatch_True)
  qed
  then show "im = [] \<or> names_version (sv_weak_etags sv) im (rec_version r)"
    and "inm = [] \<or> \<not> names_version True inm (rec_version r)"
    using IfNoneMatch_True by blast+
qed

section \<open>The contract with credentials\<close>

locale credential_transactions = transactions P ops inv
  for P :: platform and ops :: "'s tx_ops" and inv :: "'s \<Rightarrow> bool" +
  assumes password_inv: "tx_set_password ops = Some f \<Longrightarrow> inv s \<Longrightarrow> f sc ty i p s = Inr (revision, s') \<Longrightarrow> inv s'"
    and password_get: "tx_set_password ops = Some f \<Longrightarrow> inv s \<Longrightarrow> f sc ty i p s = Inr (revision, s') \<Longrightarrow>
      tx_get ops s' sc' ty' i' = tx_get ops s sc' ty' i'"
begin

lemma writePassword_keeps:
  assumes "inv s" and "writePassword ops sc ty i p s = Inr (v, s')"
  shows "inv s'" and "tx_get ops s' sc' ty' i' = tx_get ops s sc' ty' i'"
proof -
  have "inv s' \<and> (\<forall>sc' ty' i'. tx_get ops s' sc' ty' i' = tx_get ops s sc' ty' i')"
  proof (cases "p = []")
    case True
    with assms show ?thesis by (simp add: writePassword_def)
  next
    case False
    with assms(2) obtain f where f: "tx_set_password ops = Some f" and p: "f sc ty i p s = Inr (v, s')"
      by (auto simp: writePassword_def result_simps split: if_splits option.splits)
    show ?thesis using password_inv [OF f assms(1) p] password_get [OF f assms(1) p] by simp
  qed
  then show "inv s'" and "tx_get ops s' sc' ty' i' = tx_get ops s sc' ty' i'" by simp_all
qed

lemma create_in_effect:
  assumes "inv s" and "create_in P ops sc m d input i now s = Inr (r, s')"
  shows "inv s'" and "record_ok P r" and "rec_scope r = sc" and "rec_type r = def_name d" and "rec_id r = i"
    and "rec_manager r = m" and "rec_created r = now" and "rec_modified r = now"
    and "tx_get ops s sc' ty' i = Inl ErrNotFound"
    and "tx_get ops s' sc' ty' i' =
      (if sc' = sc \<and> ty' = def_name d \<and> i' = i then Inr r else tx_get ops s sc' ty' i')"
proof -
  obtain pw document indexes ext where input: "input = (pw, document, indexes, ext)" by (cases input)
  from assms(2) obtain cred s1 where pw: "writePassword ops sc (def_name d) i pw s = Inr (cred, s1)"
    and r: "newRecord P sc m (def_name d) i ext document indexes now (Some cred) = Inr r"
    and c: "tx_create ops r s1 = Inr s'"
    by (auto simp: create_in_def input result_simps)
  note n = newRecord_ok [OF r] and k = writePassword_keeps [OF assms(1) pw]
  show "record_ok P r" "rec_scope r = sc" "rec_type r = def_name d" "rec_id r = i"
    "rec_manager r = m" "rec_created r = now" "rec_modified r = now" by (rule n)+
  show "inv s'" by (rule create_inv [OF k(1) c])
  show "tx_get ops s sc' ty' i = Inl ErrNotFound"
    using create_fresh [OF k(1) c, of sc' ty'] k(2) n(4) by simp
  show "tx_get ops s' sc' ty' i' =
      (if sc' = sc \<and> ty' = def_name d \<and> i' = i then Inr r else tx_get ops s sc' ty' i')"
    using create_get [OF k(1) c] k(2) n(2-4) by simp
qed

lemma write_prepared_effect:
  assumes "inv s" and "tx_get ops s sc (def_name d) i = Inr current"
    and "write_prepared P ops sc d i current p prepared now s = Inr (r, s')"
  shows "inv s'" and "same_identity current r"
    and "r = current \<or> rec_modified current < rec_modified r"
    and "tx_get ops s' sc' ty' i' =
      (if sc' = sc \<and> ty' = def_name d \<and> i' = i then Inr r else tx_get ops s sc' ty' i')"
proof -
  obtain document indexes ext where prepared: "prepared = (document, indexes, ext)" by (cases prepared)
  from assms(3) obtain cred s1 changed where
    pw: "(if p = [] then Inr (rec_credential current, s) else writePassword ops sc (def_name d) i p s) = Inr (cred, s1)"
    and r: "replacementRecord P current ext document indexes now (Some cred) = Inr (r, changed)"
    and w: "if changed then tx_replace ops r (rec_version current) s1 = Inr s' else s' = s1"
    by (auto simp: write_prepared_def prepared result_simps split: prod.splits if_splits)
  have k: "inv s1" "\<And>sc' ty' i'. tx_get ops s1 sc' ty' i' = tx_get ops s sc' ty' i'"
    using pw writePassword_keeps [OF assms(1)] assms(1) by (auto split: if_splits)
  note n = replacementRecord_ok [OF r]
  have cur: "rec_scope current = sc" "rec_type current = def_name d" "rec_id current = i"
    using get_sound [OF assms(1,2)] by simp_all
  show "same_identity current r" using n(1-5) by (simp add: same_identity_def)
  show "r = current \<or> rec_modified current < rec_modified r" using n(6,7) by blast
  show "inv s'" using w k(1) replace_inv by (auto split: if_splits)
  show "tx_get ops s' sc' ty' i' =
      (if sc' = sc \<and> ty' = def_name d \<and> i' = i then Inr r else tx_get ops s sc' ty' i')"
  proof (cases changed)
    case True
    with w have "tx_replace ops r (rec_version current) s1 = Inr s'" by simp
    from replace_get [OF k(1) this] k(2) n(1-3) cur show ?thesis by simp
  next
    case False
    with w n(6) k(2) assms(2) show ?thesis by auto
  qed
qed

text \<open>What replace and patch have in common: the record they start from, and what they end with.\<close>

definition updates :: "Server \<Rightarrow> string \<Rightarrow> ResourceDefinition \<Rightarrow> string \<Rightarrow> string \<Rightarrow> string \<Rightarrow> 's \<Rightarrow> Record \<Rightarrow> 's \<Rightarrow> bool" where
  "updates sv sc d i im inm s r s' \<longleftrightarrow>
     (\<exists>current. tx_get ops s sc (def_name d) i = Inr current
        \<and> evaluateWritePreconditions sv im inm current = Inr ()
        \<and> same_identity current r \<and> (r = current \<or> rec_modified current < rec_modified r))
     \<and> inv s'
     \<and> (\<forall>sc' ty' i'. tx_get ops s' sc' ty' i' =
          (if sc' = sc \<and> ty' = def_name d \<and> i' = i then Inr r else tx_get ops s sc' ty' i'))"

lemma write_prepared_updates:
  "inv s \<Longrightarrow> tx_get ops s sc (def_name d) i = Inr current \<Longrightarrow>
   evaluateWritePreconditions sv im inm current = Inr () \<Longrightarrow>
   write_prepared P ops sc d i current p prepared now s = Inr (r, s') \<Longrightarrow> updates sv sc d i im inm s r s'"
  unfolding updates_def
  by (intro conjI allI exI [of _ current])
    (simp_all only: write_prepared_effect [of s sc d i current p prepared now r s'])

lemma replace_in_updates:
  "inv s \<Longrightarrow> replace_in P ops sv sc d i p document im inm now s = Inr (r, s') \<Longrightarrow> updates sv sc d i im inm s r s'"
  by (auto simp: replace_in_def result_simps intro: write_prepared_updates)

lemma patch_in_updates:
  "inv s \<Longrightarrow> patch_in P ops sv sc d i request im inm now s = Inr (r, s') \<Longrightarrow> updates sv sc d i im inm s r s'"
  by (auto simp: patch_in_def result_simps intro: write_prepared_updates)

lemma create_effect:
  assumes "inv s" and "create P ops sv ctx sc m d raw w s = (Inr r, w', s')"
  shows "inv s' \<and> record_ok P r \<and> rec_scope r = sc \<and> rec_type r = def_name d \<and> rec_manager r = m
    \<and> (\<forall>sc' ty'. tx_get ops s sc' ty' (rec_id r) = Inl ErrNotFound)
    \<and> (\<forall>sc' ty' i'. tx_get ops s' sc' ty' i' =
          (if sc' = sc \<and> ty' = def_name d \<and> i' = rec_id r then Inr r else tx_get ops s sc' ty' i'))"
  using assms(2) create_in_effect [OF assms(1)]
  by (auto simp: create_def Transact_def split: sum.splits prod.splits option.splits)

lemma replace_effect:
  "inv s \<Longrightarrow> replace P ops sv ctx sc d i raw im inm w s = (Inr r, w', s') \<Longrightarrow> updates sv sc d i im inm s r s'"
  by (auto simp: replace_def Transact_def split: sum.splits prod.splits option.splits intro: replace_in_updates)

lemma patch_effect:
  "inv s \<Longrightarrow> patch_resource P ops sv ctx sc d i request im inm w s = (Inr r, w', s') \<Longrightarrow> updates sv sc d i im inm s r s'"
  by (auto simp: patch_resource_def Transact_def split: sum.splits prod.splits option.splits intro: patch_in_updates)

lemma remove_effect:
  assumes "inv s" and "remove ops sv ctx sc d i im inm w s = (Inr u, w', s')"
  shows "inv s'
    \<and> (\<exists>current now. tx_get ops s sc (def_name d) i = Inr current
        \<and> evaluateWritePreconditions sv im inm current = Inr ()
        \<and> (\<forall>ts. tx_tombstones ops s sc (def_name d) = Inr ts \<longrightarrow>
             (\<exists>ts'. tx_tombstones ops s' sc (def_name d) = Inr ts' \<and> set ts' = insert (tombstone_of current now) (set ts))))
    \<and> (\<forall>sc' ty' i'. tx_get ops s' sc' ty' i' =
          (if sc' = sc \<and> ty' = def_name d \<and> i' = i then Inl ErrNotFound else tx_get ops s sc' ty' i'))"
proof -
  from assms(2) obtain now where "remove_in ops sv sc d i im inm now s = Inr ((), s')"
    by (auto simp: remove_def Transact_def split: sum.splits prod.splits option.splits)
  then obtain current where g: "tx_get ops s sc (def_name d) i = Inr current"
    and e: "evaluateWritePreconditions sv im inm current = Inr ()"
    and d: "tx_delete ops sc (def_name d) i (rec_version current) (tombstone_of current now) s = Inr s'"
    by (auto simp: remove_in_def result_simps)
  have "\<exists>ts'. tx_tombstones ops s' sc (def_name d) = Inr ts' \<and> set ts' = insert (tombstone_of current now) (set ts)"
    if "tx_tombstones ops s sc (def_name d) = Inr ts" for ts
    using graves_delete [OF assms(1) d that] by auto
  with g e show ?thesis using delete_inv [OF assms(1) d] delete_get [OF assms(1) d] by blast
qed

text \<open>A client that saw an older version and says so gets no write through.\<close>

lemma stale_update_fails:
  assumes "tx_get ops s sc (def_name d) i = Inr current" and "im \<noteq> []"
    and "\<not> names_version (sv_weak_etags sv) im (rec_version current)"
  shows "replace_in P ops sv sc d i p document im inm now s \<noteq> Inr x"
    and "patch_in P ops sv sc d i request im inm now s \<noteq> Inr x"
    and "remove_in ops sv sc d i im inm now s \<noteq> Inr y"
  using assms evaluateWritePreconditions_Inr(1) [of sv im inm current]
  by (auto simp: replace_in_def patch_in_def remove_in_def result_simps)

end

section \<open>Failures\<close>

text \<open>An operation that reports an error has not changed the store.\<close>

lemma Transact_failed: "Transact ctx fn s = (Inl e, s') \<Longrightarrow> s' = s"
  by (auto simp: Transact_def split: option.splits sum.splits)

lemma failed_operations:
  "create P ops sv ctx sc m d raw w s = (Inl e, w', s') \<Longrightarrow> s' = s"
  "replace P ops sv ctx sc d i raw im inm w s = (Inl e, w', s') \<Longrightarrow> s' = s"
  "patch_resource P ops sv ctx sc d i request im inm w s = (Inl e, w', s') \<Longrightarrow> s' = s"
  "remove ops sv ctx sc d i im inm w s = (Inl e, w', s') \<Longrightarrow> s' = s"
  by (auto simp: create_def replace_def patch_resource_def remove_def
      dest: Transact_failed split: sum.splits prod.splits)

section \<open>The memory store\<close>

interpretation memory_server: credential_transactions P "memory_ops P" "store_ok P" for P :: platform
  by unfold_locales (simp_all add: memory_ops_def)

end
