(* ===== verification/Scim_Bulk.thy ===== *)
theory Scim_Bulk
  imports Scim_Http
begin

text \<open>
  Bulk requests (bulk.go, bulk_execute.go): decoding, the references operations make to the
  results of others, and the loop that runs the operations as their references become known, each
  in a transaction of its own, until all are answered or the client's error limit is reached.

  The loop's state holds one result per operation, \<^const>\<open>None\<close> while it is not done; the code's
  counter \<^verbatim>\<open>remaining\<close> is the number of those, and a pass made progress when that number fell.
\<close>

section \<open>Requests\<close>

definition MaximumBulkOperations :: int where
  "MaximumBulkOperations = 100"

definition MaximumBulkBytes :: int where
  "MaximumBulkBytes = 1048576"

record BulkOperation =
  bo_method :: string
  bo_bulk_id :: string
  bo_path :: string
  bo_version :: string
  bo_data :: string

record BulkRequest =
  br_schemas :: "string list"
  br_fail_on_errors :: int
  br_operations :: "BulkOperation list"

definition zero_bulk_operation :: BulkOperation where
  "zero_bulk_operation = \<lparr>bo_method = [], bo_bulk_id = [], bo_path = [], bo_version = [], bo_data = []\<rparr>"

definition bulk_operation_fields :: "string list" where
  "bulk_operation_fields = [''method'', ''bulkId'', ''path'', ''version'', ''data'']"

definition assign_bulk_operation :: "string \<Rightarrow> string \<Rightarrow> BulkOperation \<Rightarrow> BulkOperation option" where
  "assign_bulk_operation name raw b =
     (if name = ''method'' then map_option (\<lambda>s. b\<lparr>bo_method := s\<rparr>) (decode_text (bo_method b) raw)
      else if name = ''bulkId'' then map_option (\<lambda>s. b\<lparr>bo_bulk_id := s\<rparr>) (decode_text (bo_bulk_id b) raw)
      else if name = ''path'' then map_option (\<lambda>s. b\<lparr>bo_path := s\<rparr>) (decode_text (bo_path b) raw)
      else if name = ''version'' then map_option (\<lambda>s. b\<lparr>bo_version := s\<rparr>) (decode_text (bo_version b) raw)
      else Some (b\<lparr>bo_data := raw\<rparr>))"

definition bulk_fields :: "string list" where
  "bulk_fields = [''schemas'', ''failOnErrors'', ''Operations'']"

definition assign_bulk :: "platform \<Rightarrow> string \<Rightarrow> string \<Rightarrow> string slice \<times> int \<times> BulkOperation slice
    \<Rightarrow> (string slice \<times> int \<times> BulkOperation slice) option" where
  "assign_bulk P name raw = (\<lambda>(schemas, limit, operations).
     if name = ''schemas'' then map_option (\<lambda>v. (v, limit, operations)) (decode_slice [] decode_text schemas raw)
     else if name = ''failOnErrors'' then map_option (\<lambda>v. (schemas, v, operations)) (decode_int limit raw)
     else map_option (\<lambda>v. (schemas, limit, v))
       (decode_slice zero_bulk_operation (decode_struct P bulk_operation_fields assign_bulk_operation) operations raw))"

definition decode_bulk_request :: "platform \<Rightarrow> string \<Rightarrow> BulkRequest option" where
  "decode_bulk_request P raw =
     map_option (\<lambda>((schemas, _), limit, (operations, _)).
         \<lparr>br_schemas = schemas, br_fail_on_errors = limit, br_operations = operations\<rparr>)
       (decode_struct P bulk_fields (assign_bulk P) (([], []), 0, ([], [])) (skip_space raw))"

text \<open>ParseBulkPath: collection, resource identifier and reference; at most one of the last two is there.\<close>

definition parse_bulk_resource :: "string \<Rightarrow> string \<Rightarrow> (string \<times> string \<times> string) result" where
  "parse_bulk_resource collection part =
     (if part = [] then Inl (OtherError ''Bulk resource path has an empty ID'')
      else (case PathUnescape part of
              None \<Rightarrow> Inl (OtherError ''Bulk resource ID is invalid'')
            | Some decoded \<Rightarrow>
                if decoded = [] \<or> List.member decoded (CHR ''/'')
                then Inl (OtherError ''Bulk resource ID is invalid'')
                else if has_prefix decoded ''bulkId:'' then
                  (let reference = trim_prefix decoded ''bulkId:'' in
                   if reference = [] then Inl (OtherError ''Bulk bulkId reference is empty'')
                   else Inr (collection, [], reference))
                else Inr (collection, decoded, [])))"

definition ParseBulkPath :: "platform \<Rightarrow> string \<Rightarrow> (string \<times> string \<times> string) result" where
  "ParseBulkPath P raw =
     (if raw = [] then Inl (OtherError ''Bulk path is empty'')
      else (case url_parse P raw of
              None \<Rightarrow> Inl (OtherError ''Bulk path is not a relative SCIM path'')
            | Some parsed \<Rightarrow>
                if url_scheme parsed \<noteq> [] \<or> url_host parsed \<noteq> [] \<or> url_raw_query parsed \<noteq> [] \<or> url_fragment parsed \<noteq> []
                then Inl (OtherError ''Bulk path is not a relative SCIM path'')
                else
                  let parts = split_on (CHR ''/'') (trim_prefix (url_escaped_path parsed) ''/'') in
                  (case PathUnescape (hd parts) of
                     None \<Rightarrow> Inl (OtherError ''Bulk path collection is invalid'')
                   | Some collection \<Rightarrow>
                       if 2 < length parts \<or> \<not> validName collection
                       then Inl (OtherError ''Bulk path collection is invalid'')
                       else if length parts = 1 then Inr (collection, [], [])
                       else parse_bulk_resource collection (parts ! 1))))"

definition is_reference :: "string \<Rightarrow> bool" where
  "is_reference s \<longleftrightarrow> 7 < length s \<and> has_prefix s ''bulkId:''"

fun collectBulkDependencies :: "json \<Rightarrow> string list" where
  "collectBulkDependencies (JStr s) = (if is_reference s then [trim_prefix s ''bulkId:''] else [])"
| "collectBulkDependencies (JObj m) = concat (map (\<lambda>(k, v). collectBulkDependencies v) m)"
| "collectBulkDependencies (JArr xs) = concat (map collectBulkDependencies xs)"
| "collectBulkDependencies _ = []"

definition bulkDependencies :: "platform \<Rightarrow> BulkOperation \<Rightarrow> string list result" where
  "bulkDependencies P b =
     and_then (ParseBulkPath P (bo_path b)) (\<lambda>(_, _, reference).
       let found = (if reference = [] then [] else [reference]) in
       if bo_data b = [] then Inr found
       else and_then (DecodeDocument P (bo_data b)) (\<lambda>document.
         Inr (found @ collectBulkDependencies (JObj document))))"

definition isJSONObject :: "string \<Rightarrow> bool" where
  "isJSONObject raw \<longleftrightarrow>
     json_valid raw \<and> (case skip_space raw of [] \<Rightarrow> False | c # _ \<Rightarrow> c = CHR 0x7B)"

fun admit_bulk_ids :: "BulkOperation list \<Rightarrow> string list \<Rightarrow> unit result" where
  "admit_bulk_ids [] seen = Inr ()"
| "admit_bulk_ids (b # rest) seen =
     (if bo_method b \<noteq> ''POST'' then admit_bulk_ids rest seen
      else if \<not> validBulkID (bo_bulk_id b) then Inl (OtherError ''Bulk POST operation is invalid'')
      else if List.member seen (bo_bulk_id b) then Inl (OtherError ''Bulk bulkId is duplicated'')
      else admit_bulk_ids rest (bo_bulk_id b # seen))"

definition admit_bulk_operation :: "platform \<Rightarrow> BulkOperation \<Rightarrow> unit result" where
  "admit_bulk_operation P b =
     and_then (ParseBulkPath P (bo_path b)) (\<lambda>(collection, resourceID, reference).
     and_then
       (if bo_method b = ''POST'' then
          check (\<not> (resourceID \<noteq> [] \<or> reference \<noteq> [] \<or> \<not> validBulkID (bo_bulk_id b) \<or> \<not> isJSONObject (bo_data b)))
            (OtherError ''Bulk POST operation is invalid'')
        else if bo_method b = ''PUT'' \<or> bo_method b = ''PATCH'' then
          check (\<not> (collection = [] \<or> (resourceID = [] \<and> reference = []) \<or> \<not> isJSONObject (bo_data b) \<or> bo_bulk_id b \<noteq> []))
            (OtherError ''Bulk mutation operation is invalid'')
        else if bo_method b = ''DELETE'' then
          check (\<not> (collection = [] \<or> (resourceID = [] \<and> reference = []) \<or> bo_data b \<noteq> [] \<or> bo_bulk_id b \<noteq> []))
            (OtherError ''Bulk DELETE operation is invalid'')
        else Inl (OtherError ''Bulk operation uses an unsupported method''))
       (\<lambda>_. and_then (or_error (bulkDependencies P b) (OtherError ''Bulk operation data is invalid'')) (\<lambda>_. Inr ())))"

definition DecodeBulk :: "platform \<Rightarrow> string \<Rightarrow> BulkRequest result" where
  "DecodeBulk P raw =
     (let bad = OtherError ''Bulk request JSON is invalid'' in
      if raw = [] \<or> MaximumBulkBytes < int (length raw) then Inl (OtherError ''Bulk request size is invalid'')
      else and_then (or_error (DecodeDocument P raw) bad) (\<lambda>_.
        and_then (of_option bad (decode_bulk_request P raw)) (\<lambda>bulk.
        and_then (ValidateSchemas P (br_schemas bulk) [BulkRequestSchema]) (\<lambda>_.
          if br_operations bulk = [] \<or> MaximumBulkOperations < int (length (br_operations bulk))
             \<or> br_fail_on_errors bulk < 0 \<or> MaximumBulkOperations < br_fail_on_errors bulk
          then Inl (OtherError ''Bulk operation boundary is invalid'')
          else
            let operations = map (\<lambda>b. b\<lparr>bo_method := to_upper P (bo_method b)\<rparr>) (br_operations bulk) in
            and_then (admit_bulk_ids operations []) (\<lambda>_.
            and_then (traverse (admit_bulk_operation P) operations) (\<lambda>_.
              Inr (bulk\<lparr>br_operations := operations\<rparr>)))))))"

section \<open>References\<close>

record bulkReference =
  ref_id :: string
  ref_location :: string

fun resolveBulkValue :: "(string \<times> bulkReference) list \<Rightarrow> string \<Rightarrow> json \<Rightarrow> json result" where
  "resolveBulkValue references field (JStr s) =
     (if \<not> is_reference s then Inr (JStr s)
      else (case map_of references (drop 7 s) of
              None \<Rightarrow> Inl (OtherError ''unknown bulkId'')
            | Some reference \<Rightarrow> Inr (JStr (if field = ''$ref'' then ref_location reference else ref_id reference))))"
| "resolveBulkValue references field (JObj m) =
     and_then (traverse (\<lambda>(key, item). and_then (resolveBulkValue references key item) (\<lambda>v. Inr (key, v))) m)
       (\<lambda>resolved. Inr (JObj resolved))"
| "resolveBulkValue references field (JArr xs) =
     and_then (traverse (resolveBulkValue references field) xs) (\<lambda>resolved. Inr (JArr resolved))"
| "resolveBulkValue references field v = Inr v"

definition resolveBulkData :: "platform \<Rightarrow> string \<Rightarrow> (string \<times> bulkReference) list \<Rightarrow> string result" where
  "resolveBulkData P raw references =
     (if raw = [] then Inr []
      else and_then (DecodeDocument P raw) (\<lambda>document.
        and_then (resolveBulkValue references [] (JObj document)) marshal))"

section \<open>Results\<close>

record BulkResponseOperation =
  bp_method :: string
  bp_bulk_id :: string
  bp_location :: string
  bp_version :: string
  bp_status :: string
  bp_response :: "error_response option"

definition safeFailure :: "scim_error \<Rightarrow> int \<times> string \<times> string" where
  "safeFailure e =
     (case e of
        ProtocolError st ty det \<Rightarrow> (st, ty, det)
      | ErrNotFound \<Rightarrow> (404, [], ''SCIM resource was not found'')
      | ErrConflict \<Rightarrow> (409, ''uniqueness'', ''SCIM resource conflicts with existing state'')
      | ErrTombstoned \<Rightarrow> (409, ''uniqueness'', ''SCIM resource conflicts with existing state'')
      | ErrPrecondition \<Rightarrow> (412, [], ''SCIM resource precondition failed'')
      | _ \<Rightarrow> (500, [], ''SCIM storage operation failed''))"

definition bulkFailure :: "BulkOperation \<Rightarrow> scim_error \<Rightarrow> BulkResponseOperation" where
  "bulkFailure b e =
     (let (st, ty, det) = safeFailure e;
          (code, body) = (case NewError st ty det of
            Inr r \<Rightarrow> (st, r)
          | Inl _ \<Rightarrow> (500, \<lparr>er_schemas = [ErrorSchema], er_status = ''500'', er_scim_type = [],
                            er_detail = ''SCIM operation failed''\<rparr>))
      in \<lparr>bp_method = bo_method b, bp_bulk_id = bo_bulk_id b, bp_location = [], bp_version = [],
          bp_status = itoa code, bp_response = Some body\<rparr>)"

definition bulkOperationLocation :: "platform \<Rightarrow> Server \<Rightarrow> BulkOperation \<Rightarrow> (string \<times> bulkReference) list \<Rightarrow> string" where
  "bulkOperationLocation P sv b references =
     (case ParseBulkPath P (bo_path b) of
        Inl _ \<Rightarrow> []
      | Inr (collection, i, reference) \<Rightarrow>
          let i = (if reference = [] then i
                   else (case map_of references reference of None \<Rightarrow> i | Some r \<Rightarrow> ref_id r))
          in (case definitionByEndpoint (Some (sv_registry sv)) collection of
                None \<Rightarrow> []
              | Some definition \<Rightarrow> if i = [] then [] else server_location sv definition i))"

definition bulk_success :: "BulkOperation \<Rightarrow> int \<Rightarrow> string \<Rightarrow> string \<Rightarrow> BulkResponseOperation" where
  "bulk_success b st location version =
     \<lparr>bp_method = bo_method b, bp_bulk_id = bo_bulk_id b, bp_location = location, bp_version = version,
      bp_status = itoa st, bp_response = None\<rparr>"

definition bulk_record :: "Server \<Rightarrow> ResourceDefinition \<Rightarrow> BulkOperation \<Rightarrow> int \<Rightarrow> Record \<Rightarrow> BulkResponseOperation" where
  "bulk_record sv definition b st r =
     bulk_success b st (server_location sv definition (rec_id r)) (server_tag sv (rec_version r))"

type_synonym 's outcome = "(BulkResponseOperation \<times> bulkReference option) result \<times> world \<times> 's"

text \<open>The target of an operation, and its data with the references replaced.\<close>

definition bulk_target :: "platform \<Rightarrow> Server \<Rightarrow> BulkOperation \<Rightarrow> (string \<times> bulkReference) list
    \<Rightarrow> (ResourceDefinition \<times> string \<times> string) result" where
  "bulk_target P sv b references =
     and_then (ParseBulkPath P (bo_path b)) (\<lambda>(collection, i, reference).
     and_then
       (if reference = [] then Inr i
        else of_option (clientError 400 ''invalidValue'' ''Bulk reference is unresolved'')
          (map_option ref_id (map_of references reference))) (\<lambda>i.
     and_then (of_option (clientError 400 ''invalidPath'' ''Bulk collection is unsupported'')
       (definitionByEndpoint (Some (sv_registry sv)) collection)) (\<lambda>definition.
     and_then (or_error (resolveBulkData P (bo_data b) references)
       (clientError 400 ''invalidValue'' ''Bulk data reference is unresolved'')) (\<lambda>data.
       Inr (definition, i, data)))))"

definition bulk_outcome :: "('a \<Rightarrow> BulkResponseOperation \<times> bulkReference option) \<Rightarrow> 'a result \<times> world \<times> 's
    \<Rightarrow> 's outcome" where
  "bulk_outcome f = (\<lambda>(r, w, s). (case r of Inl e \<Rightarrow> Inl e | Inr x \<Rightarrow> Inr (f x), w, s))"

definition executeBulkOperation :: "platform \<Rightarrow> 's tx_ops \<Rightarrow> Server \<Rightarrow> ctx \<Rightarrow> string \<Rightarrow> BulkOperation
    \<Rightarrow> (string \<times> bulkReference) list \<Rightarrow> world \<Rightarrow> 's \<Rightarrow> 's outcome" where
  "executeBulkOperation P ops sv ctx scope b references w s =
     (case bulk_target P sv b references of
        Inl e \<Rightarrow> (Inl e, w, s)
      | Inr (definition, i, data) \<Rightarrow>
          if bo_method b = ''POST'' then
            bulk_outcome (\<lambda>r. (bulk_record sv definition b 201 r,
                Some \<lparr>ref_id = rec_id r, ref_location = server_location sv definition (rec_id r)\<rparr>))
              (create P ops sv ctx scope [] definition data w s)
          else if bo_method b = ''PUT'' then
            bulk_outcome (\<lambda>r. (bulk_record sv definition b 200 r, None))
              (replace P ops sv ctx scope definition i data (bo_version b) [] w s)
          else if bo_method b = ''PATCH'' then
            (case DecodePatch P data (sv_patch_operations sv) of
               Inl _ \<Rightarrow> (Inl (clientError 400 ''invalidSyntax'' ''Bulk PATCH data is invalid''), w, s)
             | Inr patch \<Rightarrow>
                 bulk_outcome (\<lambda>r. (bulk_record sv definition b 200 r, None))
                   (patch_resource P ops sv ctx scope definition i patch (bo_version b) [] w s))
          else if bo_method b = ''DELETE'' then
            bulk_outcome (\<lambda>_. (bulk_success b 204 (server_location sv definition i) [], None))
              (remove ops sv ctx scope definition i (bo_version b) [] w s)
          else (Inl (clientError 400 ''invalidValue'' ''Bulk method is unsupported''), w, s))"

section \<open>The loop\<close>

record 's bulk_state =
  bs_results :: "BulkResponseOperation option list"
  bs_references :: "(string \<times> bulkReference) list"
  bs_failed :: "string list"
  bs_failures :: int
  bs_halted :: bool
  bs_world :: world
  bs_store :: 's

definition pending :: "'s bulk_state \<Rightarrow> nat" where
  "pending st = length (filter (\<lambda>r. r = None) (bs_results st))"

definition start_bulk :: "nat \<Rightarrow> world \<Rightarrow> 's \<Rightarrow> 's bulk_state" where
  "start_bulk n w s =
     \<lparr>bs_results = replicate n None, bs_references = [], bs_failed = [], bs_failures = 0,
      bs_halted = False, bs_world = w, bs_store = s\<rparr>"

definition dependencies_of :: "platform \<Rightarrow> BulkOperation \<Rightarrow> string list" where
  "dependencies_of P b = (case bulkDependencies P b of Inl _ \<Rightarrow> [] | Inr deps \<Rightarrow> deps)"

definition blocked :: "string list \<Rightarrow> 's bulk_state \<Rightarrow> string list \<Rightarrow> bool" where
  "blocked declared st deps \<longleftrightarrow>
     list_ex (\<lambda>d. \<not> List.member declared d \<or> List.member (bs_failed st) d) deps"

definition ready :: "'s bulk_state \<Rightarrow> string list \<Rightarrow> bool" where
  "ready st deps \<longleftrightarrow> list_all (has_key (bs_references st)) deps"

text \<open>What an operation that is tried leaves: a result, and either a reference or a failure.\<close>

definition finish :: "platform \<Rightarrow> Server \<Rightarrow> int \<Rightarrow> nat \<Rightarrow> BulkOperation \<Rightarrow> 's outcome \<Rightarrow> 's bulk_state
    \<Rightarrow> 's bulk_state" where
  "finish P sv limit index b = (\<lambda>(res, w, s) st.
     let st = st\<lparr>bs_world := w, bs_store := s\<rparr>;
         st = (case res of
             Inl e \<Rightarrow>
               st\<lparr>bs_results := (bs_results st)[index := Some ((bulkFailure b e)
                     \<lparr>bp_location := bulkOperationLocation P sv b (bs_references st)\<rparr>)],
                  bs_failures := bs_failures st + 1,
                  bs_failed := (if bo_bulk_id b = [] then bs_failed st else bo_bulk_id b # bs_failed st)\<rparr>
           | Inr (result, reference) \<Rightarrow>
               st\<lparr>bs_results := (bs_results st)[index := Some result],
                  bs_references := (if bo_bulk_id b = [] then bs_references st
                    else AList.update (bo_bulk_id b)
                      (case reference of Some r \<Rightarrow> r | None \<Rightarrow> \<lparr>ref_id = [], ref_location = []\<rparr>)
                      (bs_references st))\<rparr>)
     in st\<lparr>bs_halted := (0 < limit \<and> limit \<le> bs_failures st)\<rparr>)"

definition bulk_step :: "platform \<Rightarrow> 's tx_ops \<Rightarrow> Server \<Rightarrow> request \<Rightarrow> string \<Rightarrow> int \<Rightarrow> string list
    \<Rightarrow> nat \<times> BulkOperation \<Rightarrow> 's bulk_state \<Rightarrow> 's bulk_state" where
  "bulk_step P ops sv rq scope limit declared = (\<lambda>(index, b) st.
     if bs_halted st \<or> bs_results st ! index \<noteq> None then st
     else
       let deps = dependencies_of P b in
       if blocked declared st deps then
         finish P sv limit index b
           (Inl (clientError 400 ''invalidValue'' ''Bulk dependency is unknown or failed''), bs_world st, bs_store st) st
       else if \<not> ready st deps then st
       else
         finish P sv limit index b
           (executeBulkOperation P ops sv (rq_ctx rq index) scope b (bs_references st) (bs_world st) (bs_store st)) st)"

definition bulk_pass :: "platform \<Rightarrow> 's tx_ops \<Rightarrow> Server \<Rightarrow> request \<Rightarrow> string \<Rightarrow> int \<Rightarrow> string list
    \<Rightarrow> BulkOperation list \<Rightarrow> 's bulk_state \<Rightarrow> 's bulk_state" where
  "bulk_pass P ops sv rq scope limit declared bs st =
     foldl (\<lambda>st x. bulk_step P ops sv rq scope limit declared x st) st (List.enumerate 0 bs)"

text \<open>The operations that wait for each other, or for themselves.\<close>

definition fail_cycle :: "platform \<Rightarrow> Server \<Rightarrow> BulkOperation list \<Rightarrow> 's bulk_state \<Rightarrow> 's bulk_state" where
  "fail_cycle P sv bs st =
     st\<lparr>bs_results := map2 (\<lambda>b r. case r of
           Some x \<Rightarrow> Some x
         | None \<Rightarrow> Some ((bulkFailure b (clientError 409 ''invalidValue'' ''Bulk dependency cycle is unresolved''))
             \<lparr>bp_location := bulkOperationLocation P sv b (bs_references st)\<rparr>)) bs (bs_results st)\<rparr>"

function bulk_loop :: "platform \<Rightarrow> 's tx_ops \<Rightarrow> Server \<Rightarrow> request \<Rightarrow> string \<Rightarrow> int \<Rightarrow> string list
    \<Rightarrow> BulkOperation list \<Rightarrow> 's bulk_state \<Rightarrow> 's bulk_state" where
  "bulk_loop P ops sv rq scope limit declared bs st =
     (if bs_halted st \<or> pending st = 0 then st
      else
        let st' = bulk_pass P ops sv rq scope limit declared bs st in
        if pending st' < pending st then bulk_loop P ops sv rq scope limit declared bs st'
        else fail_cycle P sv bs st')"
  by pat_completeness auto
termination
  by (relation "measure (\<lambda>(P, ops, sv, rq, scope, limit, declared, bs, st). pending st)") auto

declare bulk_loop.simps [simp del]

definition declared_references :: "BulkOperation list \<Rightarrow> string list" where
  "declared_references bs = filter (\<lambda>i. i \<noteq> []) (map bo_bulk_id bs)"

definition run_bulk :: "platform \<Rightarrow> 's tx_ops \<Rightarrow> Server \<Rightarrow> request \<Rightarrow> string \<Rightarrow> BulkRequest \<Rightarrow> world \<Rightarrow> 's
    \<Rightarrow> 's bulk_state" where
  "run_bulk P ops sv rq scope bulk w s =
     bulk_loop P ops sv rq scope (br_fail_on_errors bulk) (declared_references (br_operations bulk))
       (br_operations bulk) (start_bulk (length (br_operations bulk)) w s)"

definition bulk_operation_text :: "BulkResponseOperation \<Rightarrow> string" where
  "bulk_operation_text p =
     (let opt = (\<lambda>name v. if v = [] then [] else [(name, quoted v)]) in
      object_text
        ([(''method'', quoted (bp_method p))] @ opt ''bulkId'' (bp_bulk_id p) @ opt ''location'' (bp_location p)
         @ opt ''version'' (bp_version p) @ [(''status'', quoted (bp_status p))]
         @ (case bp_response p of None \<Rightarrow> [] | Some r \<Rightarrow> [(''response'', error_body r)])))"

definition bulk_body :: "BulkResponseOperation list \<Rightarrow> string" where
  "bulk_body ps =
     object_text [(''schemas'', string_array [BulkResponseSchema]),
       (''Operations'', CHR 0x5B # join_with '','' (map bulk_operation_text ps) @ [CHR 0x5D])]"

definition serveBulk :: "platform \<Rightarrow> 's tx_ops \<Rightarrow> Server \<Rightarrow> request \<Rightarrow> string \<Rightarrow> world \<Rightarrow> 's \<Rightarrow> 's served" where
  "serveBulk P ops sv rq scope w s =
     (if rq_method rq \<noteq> ''POST'' then (methodNotAllowed ''POST'', w, s)
      else
        (case and_then (rejectQuery (rq_query rq) []) (\<lambda>_. readBody P rq) of
           Inl e \<Rightarrow> (writeProtocolError e, w, s)
         | Inr raw \<Rightarrow>
             (case DecodeBulk P raw of
                Inl _ \<Rightarrow> (writeProtocolError (clientError 400 ''invalidSyntax'' ''Bulk request is invalid''), w, s)
              | Inr bulk \<Rightarrow>
                  let st = run_bulk P ops sv rq scope bulk w s in
                  (writeJSON [] 200 (Inr (bulk_body (List.map_filter id (bs_results st)))), bs_world st, bs_store st))))"

end
