(* ===== verification/Scim_Bulk_Facts.thy ===== *)
theory Scim_Bulk_Facts
  imports Scim_Bulk
begin

text \<open>
  What a bulk request ends with: every operation answered in its own place and under its own
  method and bulkId unless the client's error limit stopped the loop, that limit reached exactly,
  and an operation reported as done only when everything it refers to was done.
\<close>

section \<open>One operation\<close>

lemma bulk_success_simps [simp]:
  "bp_method (bulk_success b st l v) = bo_method b"
  "bp_bulk_id (bulk_success b st l v) = bo_bulk_id b"
  "bp_response (bulk_success b st l v) = None"
  by (simp_all add: bulk_success_def)

lemma bulk_record_simps [simp]:
  "bp_method (bulk_record sv d b st r) = bo_method b"
  "bp_bulk_id (bulk_record sv d b st r) = bo_bulk_id b"
  "bp_response (bulk_record sv d b st r) = None"
  by (simp_all add: bulk_record_def)

lemma bulkFailure_simps [simp]:
  "bp_method (bulkFailure b e) = bo_method b"
  "bp_bulk_id (bulkFailure b e) = bo_bulk_id b"
  "bp_response (bulkFailure b e) \<noteq> None"
  "\<exists>r. bp_response (bulkFailure b e) = Some r"
  by (auto simp: bulkFailure_def split: prod.splits)

definition answer_for :: "BulkOperation \<Rightarrow> BulkResponseOperation \<Rightarrow> bool" where
  "answer_for b p \<longleftrightarrow> bp_method p = bo_method b \<and> bp_bulk_id p = bo_bulk_id b"

lemma bulk_outcome_Inr:
  "bulk_outcome f x = (Inr y, w, s) \<Longrightarrow> \<exists>r. y = f r"
  by (auto simp: bulk_outcome_def split: prod.splits sum.splits)

lemma executeBulkOperation_answer:
  assumes "executeBulkOperation P ops sv ctx sc b refs w s = (Inr (p, ref), w', s')"
  shows "answer_for b p \<and> bp_response p = None"
  using assms
  by (auto simp: executeBulkOperation_def answer_for_def split: sum.splits prod.splits if_splits
      dest!: bulk_outcome_Inr)

section \<open>The loop's invariant\<close>

definition is_failure :: "BulkResponseOperation option \<Rightarrow> bool" where
  "is_failure r = (case r of None \<Rightarrow> False | Some p \<Rightarrow> bp_response p \<noteq> None)"

definition is_success :: "BulkResponseOperation option \<Rightarrow> bool" where
  "is_success r = (case r of None \<Rightarrow> False | Some p \<Rightarrow> bp_response p = None)"

definition failed_answers :: "'s bulk_state \<Rightarrow> nat" where
  "failed_answers st = length (filter is_failure (bs_results st))"

text \<open>The operation at an index, its answer so far, and the references it may use.\<close>

definition answered_ok :: "platform \<Rightarrow> BulkOperation list \<Rightarrow> 's bulk_state \<Rightarrow> bool" where
  "answered_ok P bs st \<longleftrightarrow>
     length (bs_results st) = length bs
     \<and> (\<forall>i < length bs. \<forall>p. bs_results st ! i = Some p \<longrightarrow> answer_for (bs ! i) p)
     \<and> (\<forall>i < length bs. is_success (bs_results st ! i) \<longrightarrow> list_all (has_key (bs_references st)) (dependencies_of P (bs ! i)))
     \<and> (\<forall>d. has_key (bs_references st) d \<longrightarrow>
          (\<exists>j < length bs. bo_bulk_id (bs ! j) = d \<and> is_success (bs_results st ! j)))"

definition within_limit :: "int \<Rightarrow> 's bulk_state \<Rightarrow> bool" where
  "within_limit limit st \<longleftrightarrow>
     bs_failures st = int (failed_answers st)
     \<and> (if bs_halted st then 0 < limit \<and> bs_failures st = limit else 0 < limit \<longrightarrow> bs_failures st < limit)"

lemma filter_length_update:
  assumes "i < length xs" and "\<not> q (xs ! i)"
  shows "length (filter q (xs[i := x])) = length (filter q xs) + (if q x then 1 else 0)"
proof -
  have "filter q xs = filter q (take i xs) @ filter q (drop (Suc i) xs)"
    using assms by (subst id_take_nth_drop [OF assms(1)]) simp
  then show ?thesis by (simp add: upd_conv_take_nth_drop [OF assms(1)])
qed

lemma update_answered:
  assumes "answered_ok P bs st" and "i < length bs" and "bs_results st ! i = None"
    and "answer_for (bs ! i) p"
    and "bp_response p = None \<Longrightarrow> list_all (has_key (bs_references st)) (dependencies_of P (bs ! i))"
    and "bs_results st' = (bs_results st)[i := Some p]"
    and "\<And>d. has_key (bs_references st') d \<longleftrightarrow> has_key (bs_references st) d \<or> (bp_response p = None \<and> d = bo_bulk_id (bs ! i) \<and> d \<noteq> [])"
  shows "answered_ok P bs st'"
proof -
  note a = assms(1) [unfolded answered_ok_def]
  have len: "length (bs_results st) = length bs" using a by blast
  have s: "is_success (bs_results st' ! j) \<longleftrightarrow> (if j = i then bp_response p = None else is_success (bs_results st ! j))"
    if "j < length bs" for j
    using that assms(2) len by (simp add: assms(6) is_success_def nth_list_update)
  show ?thesis
    unfolding answered_ok_def
  proof (intro conjI allI impI)
    show "length (bs_results st') = length bs" using len by (simp add: assms(6))
  next
    fix j q assume "j < length bs" and "bs_results st' ! j = Some q"
    then show "answer_for (bs ! j) q"
      using a assms(2,4) len by (cases "j = i") (auto simp: assms(6) nth_list_update)
  next
    fix j assume j: "j < length bs" and "is_success (bs_results st' ! j)"
    then have "list_all (has_key (bs_references st)) (dependencies_of P (bs ! j))"
      using a assms(5) s [OF j] by (cases "j = i") simp_all
    then show "list_all (has_key (bs_references st')) (dependencies_of P (bs ! j))"
      by (rule list.pred_mono_strong) (use assms(7) in blast)
  next
    fix d assume "has_key (bs_references st') d"
    then consider "has_key (bs_references st) d" | "bp_response p = None" "d = bo_bulk_id (bs ! i)"
      unfolding assms(7) by metis
    then show "\<exists>j < length bs. bo_bulk_id (bs ! j) = d \<and> is_success (bs_results st' ! j)"
    proof cases
      case 1
      with a obtain j where j: "j < length bs" "bo_bulk_id (bs ! j) = d" "is_success (bs_results st ! j)" by blast
      with assms(3) have "j \<noteq> i" by (auto simp: is_success_def)
      with j s show ?thesis by auto
    next
      case 2
      with assms(2) s show ?thesis by auto
    qed
  qed
qed

text \<open>What is written once for an operation that had no answer.\<close>

definition admissible_outcome :: "platform \<Rightarrow> BulkOperation \<Rightarrow> 's bulk_state \<Rightarrow> 's outcome \<Rightarrow> bool" where
  "admissible_outcome P b st out \<longleftrightarrow>
     (case fst out of
        Inl e \<Rightarrow> True
      | Inr (p, ref) \<Rightarrow> answer_for b p \<and> bp_response p = None
          \<and> list_all (has_key (bs_references st)) (dependencies_of P b))"

lemma finish_ok:
  assumes "answered_ok P bs st" and "within_limit limit st" and "\<not> bs_halted st"
    and "i < length bs" and "bs_results st ! i = None" and "admissible_outcome P (bs ! i) st out"
  shows "answered_ok P bs (finish Q sv limit i (bs ! i) out st)"
    and "within_limit limit (finish Q sv limit i (bs ! i) out st)"
proof -
  let ?st = "finish Q sv limit i (bs ! i) out st"
  obtain res w s where out: "out = (res, w, s)" by (cases out)
  have len: "length (bs_results st) = length bs" using assms(1) by (simp add: answered_ok_def)
  obtain p where p: "answer_for (bs ! i) p" and r: "bs_results ?st = (bs_results st)[i := Some p]"
    and k: "\<And>d. has_key (bs_references ?st) d \<longleftrightarrow> has_key (bs_references st) d
      \<or> (bp_response p = None \<and> d = bo_bulk_id (bs ! i) \<and> d \<noteq> [])"
    and d: "bp_response p = None \<Longrightarrow> list_all (has_key (bs_references st)) (dependencies_of P (bs ! i))"
    and f: "bs_failures ?st = bs_failures st + (if bp_response p = None then 0 else 1)"
    and h: "bs_halted ?st \<longleftrightarrow> 0 < limit \<and> limit \<le> bs_failures ?st"
  proof (cases res)
    case (Inl e)
    show ?thesis
      by (rule that [of "(bulkFailure (bs ! i) e)\<lparr>bp_location := bulkOperationLocation Q sv (bs ! i) (bs_references st)\<rparr>"])
        (simp_all add: finish_def out Inl Let_def answer_for_def)
  next
    case (Inr x)
    obtain q ref where x: "x = (q, ref)" by (cases x)
    with assms(6) Inr out have "answer_for (bs ! i) q" "bp_response q = None"
      "list_all (has_key (bs_references st)) (dependencies_of P (bs ! i))" by (simp_all add: admissible_outcome_def)
    then show ?thesis
      by (intro that [of q]) (auto simp: finish_def out Inr x Let_def map_of_update split: if_splits)
  qed
  show "answered_ok P bs ?st" by (rule update_answered [OF assms(1,4,5) p d r k])
  have "failed_answers ?st = failed_answers st + (if bp_response p = None then 0 else 1)"
    using assms(4,5) len by (simp add: failed_answers_def r filter_length_update is_failure_def)
  with assms(2,3) f h show "within_limit limit ?st" by (auto simp: within_limit_def)
qed

abbreviation bulk_ok :: "platform \<Rightarrow> int \<Rightarrow> BulkOperation list \<Rightarrow> 's bulk_state \<Rightarrow> bool" where
  "bulk_ok P limit bs st \<equiv> answered_ok P bs st \<and> within_limit limit st"

lemma bulk_step_ok:
  assumes "bulk_ok P limit bs st" and "i < length bs"
  shows "bulk_ok P limit bs (bulk_step P ops sv rq sc limit declared (i, bs ! i) st)"
proof (cases "bs_halted st \<or> bs_results st ! i \<noteq> None")
  case True
  with assms(1) show ?thesis by (auto simp: bulk_step_def)
next
  case False
  then have n: "\<not> bs_halted st" "bs_results st ! i = None" by simp_all
  obtain r w s where e: "executeBulkOperation P ops sv (rq_ctx rq i) sc (bs ! i) (bs_references st) (bs_world st) (bs_store st)
    = (r, w, s)" using prod_cases3 by blast
  have "admissible_outcome P (bs ! i) st (r, w, s)" if "ready st (dependencies_of P (bs ! i))"
    using that executeBulkOperation_answer [of P ops sv "rq_ctx rq i" sc "bs ! i" "bs_references st" "bs_world st" "bs_store st"] e
    by (auto simp: admissible_outcome_def ready_def split: sum.splits)
  moreover have "admissible_outcome P (bs ! i) st (Inl x, w, s)" for x w s by (simp add: admissible_outcome_def)
  moreover note finish_ok [OF conjunct1 [OF assms(1)] conjunct2 [OF assms(1)] n(1) assms(2) n(2)]
  ultimately show ?thesis
    using False assms(1) by (auto simp: bulk_step_def Let_def e)
qed

lemma foldl_invariant: "I s \<Longrightarrow> (\<And>x s. x \<in> set xs \<Longrightarrow> I s \<Longrightarrow> I (f s x)) \<Longrightarrow> I (foldl f s xs)"
  by (induction xs arbitrary: s) auto

lemma enumerate_member:
  assumes "x \<in> set (List.enumerate 0 bs)"
  obtains i where "x = (i, bs ! i)" and "i < length bs"
  using assms that [of "fst x"] by (simp add: in_set_enumerate_eq prod_eq_iff)

lemma bulk_pass_ok:
  assumes "bulk_ok P limit bs st"
  shows "bulk_ok P limit bs (bulk_pass P ops sv rq sc limit declared bs st)"
  unfolding bulk_pass_def
proof (rule foldl_invariant [where I = "bulk_ok P limit bs", OF assms])
  fix x and u :: "'a bulk_state" assume "x \<in> set (List.enumerate 0 bs)" and u: "bulk_ok P limit bs u"
  then obtain i where "x = (i, bs ! i)" and "i < length bs"
    by (blast elim: enumerate_member)
  with u show "bulk_ok P limit bs (bulk_step P ops sv rq sc limit declared x u)"
    by (simp add: bulk_step_ok)
qed

section \<open>The end of the loop\<close>

definition bulk_done :: "platform \<Rightarrow> int \<Rightarrow> BulkOperation list \<Rightarrow> 's bulk_state \<Rightarrow> bool" where
  "bulk_done P limit bs st \<longleftrightarrow>
     answered_ok P bs st
     \<and> (if bs_halted st then 0 < limit \<and> int (failed_answers st) = limit else None \<notin> set (bs_results st))"

lemma fail_cycle_done:
  assumes "bulk_ok P limit bs st" and "\<not> bs_halted st"
  shows "bulk_done P limit bs (fail_cycle Q sv bs st)"
proof -
  let ?st = "fail_cycle Q sv bs st"
  have a: "answered_ok P bs st" using assms(1) by simp
  have len: "length (bs_results st) = length bs" using a by (simp add: answered_ok_def)
  have h: "bs_halted ?st = bs_halted st" "bs_references ?st = bs_references st" by (simp_all add: fail_cycle_def)
  have n: "\<exists>p. bs_results ?st ! i = Some p \<and> answer_for (bs ! i) p \<and> (bs_results st ! i = None \<longrightarrow> bp_response p \<noteq> None)
      \<and> (bs_results st ! i \<noteq> None \<longrightarrow> bs_results st ! i = Some p)"
    if "i < length bs" for i
    using that a len by (auto simp: fail_cycle_def answered_ok_def answer_for_def split: option.split)
  then have s: "is_success (bs_results ?st ! i) \<longleftrightarrow> is_success (bs_results st ! i)" if "i < length bs" for i
    using that n [OF that] by (fastforce simp: is_success_def split: option.split)
  have l: "length (bs_results ?st) = length bs" using len by (simp add: fail_cycle_def)
  have "answered_ok P bs ?st"
    unfolding answered_ok_def h(2)
  proof (intro conjI allI impI)
    show "length (bs_results ?st) = length bs" by (rule l)
  next
    fix i q assume "i < length bs" and "bs_results ?st ! i = Some q"
    with n show "answer_for (bs ! i) q" by fastforce
  next
    fix i assume "i < length bs" and "is_success (bs_results ?st ! i)"
    with s a show "list_all (has_key (bs_references st)) (dependencies_of P (bs ! i))" by (simp add: answered_ok_def)
  next
    fix d assume "has_key (bs_references st) d"
    with a s show "\<exists>j < length bs. bo_bulk_id (bs ! j) = d \<and> is_success (bs_results ?st ! j)"
      unfolding answered_ok_def by blast
  qed
  moreover have "None \<notin> set (bs_results ?st)" using n l by (auto simp: in_set_conv_nth)
  ultimately show ?thesis using assms(2) by (simp add: bulk_done_def h)
qed

lemma pending_zero: "pending st = 0 \<longleftrightarrow> None \<notin> set (bs_results st)"
  unfolding pending_def length_0_conv filter_empty_conv by metis

lemma bulk_stop:
  assumes "bulk_ok P limit bs st" and "bs_halted st \<or> pending st = 0"
  shows "bulk_done P limit bs st"
  using assms by (auto simp: bulk_done_def within_limit_def pending_zero)

text \<open>A step that stops the loop, or changes anything, has answered one more operation.\<close>

lemma finish_pending:
  assumes "i < length (bs_results st)" and "bs_results st ! i = None"
  shows "pending (finish Q sv limit i b out st) < pending st"
proof -
  obtain p where "bs_results (finish Q sv limit i b out st) = (bs_results st)[i := Some p]"
  proof -
    obtain res w t where out: "out = (res, w, t)" by (cases out)
    show ?thesis
    proof (cases res)
      case (Inl e)
      show ?thesis by (rule that) (simp add: finish_def out Inl Let_def)
    next
      case (Inr x)
      obtain q ref where x: "x = (q, ref)" by (cases x)
      show ?thesis by (rule that) (simp add: finish_def out Inr x Let_def)
    qed
  qed
  moreover have "(bs_results st)[i := None] = bs_results st" using assms(2) by (metis list_update_id)
  ultimately have "pending st = Suc (pending (finish Q sv limit i b out st))"
    using assms filter_length_update [of i "(bs_results st)[i := Some p]" "\<lambda>r. r = None" None]
    by (simp add: pending_def)
  then show ?thesis by simp
qed

lemma bulk_step_pending:
  assumes "i < length (bs_results st)"
  shows "bulk_step P ops sv rq sc limit declared (i, b) st = st
    \<or> pending (bulk_step P ops sv rq sc limit declared (i, b) st) < pending st"
  using finish_pending [OF assms] by (simp add: bulk_step_def Let_def)

lemma bulk_pass_pending:
  assumes "bulk_ok P limit bs st" and "\<not> bs_halted st"
  shows "bs_halted (bulk_pass P ops sv rq sc limit declared bs st) \<Longrightarrow>
    pending (bulk_pass P ops sv rq sc limit declared bs st) < pending st"
proof -
  let ?I = "\<lambda>u. bulk_ok P limit bs u \<and> pending u \<le> pending st \<and> (bs_halted u \<longrightarrow> pending u < pending st)"
  have "?I (bulk_pass P ops sv rq sc limit declared bs st)"
    unfolding bulk_pass_def
  proof (rule foldl_invariant [where I = ?I])
    fix x and u :: "'a bulk_state" assume x: "x \<in> set (List.enumerate 0 bs)" and u: "?I u"
    from x obtain i where i: "x = (i, bs ! i)" "i < length bs" by (rule enumerate_member)
    from u i have len: "i < length (bs_results u)" by (simp add: answered_ok_def)
    show "?I (bulk_step P ops sv rq sc limit declared x u)"
      using bulk_step_ok [OF conjunct1 [OF u] i(2)] bulk_step_pending [OF len] u unfolding i(1)
      by (metis (no_types, lifting) le_trans less_imp_le_nat order_less_le_trans)
  qed (use assms in simp)
  then show "bs_halted (bulk_pass P ops sv rq sc limit declared bs st) \<Longrightarrow> ?thesis" by blast
qed

lemma bulk_loop_done:
  assumes "bulk_ok P limit bs st"
  shows "bulk_done P limit bs (bulk_loop P ops sv rq sc limit declared bs st)"
  using assms
proof (induction "pending st" arbitrary: st rule: less_induct)
  case less
  let ?st = "bulk_pass P ops sv rq sc limit declared bs st"
  show ?case
  proof (cases "bs_halted st \<or> pending st = 0")
    case True
    with bulk_stop [OF less.prems] show ?thesis by (simp add: bulk_loop.simps)
  next
    case False
    note p = bulk_pass_ok [OF less.prems, of ops sv rq sc declared]
    show ?thesis
    proof (cases "pending ?st < pending st")
      case True
      from less.hyps [OF True p] True False show ?thesis by (subst bulk_loop.simps) (simp add: Let_def)
    next
      case False2: False
      with bulk_pass_pending [OF less.prems] False have "\<not> bs_halted ?st" by blast
      from fail_cycle_done [OF p this] False False2 show ?thesis by (subst bulk_loop.simps) (simp add: Let_def)
    qed
  qed
qed

lemma start_bulk_ok: "bulk_ok P limit bs (start_bulk (length bs) w s)"
  by (auto simp: start_bulk_def answered_ok_def within_limit_def failed_answers_def is_success_def is_failure_def)

lemma run_bulk_done: "bulk_done P (br_fail_on_errors bulk) (br_operations bulk) (run_bulk P ops sv rq sc bulk w s)"
  unfolding run_bulk_def by (rule bulk_loop_done) (rule start_bulk_ok)

text \<open>What an operation was waiting for is done when it is.\<close>

lemma bulk_done_dependencies:
  assumes "bulk_done P limit bs st" and "i < length bs" and "is_success (bs_results st ! i)"
    and "d \<in> set (dependencies_of P (bs ! i))"
  shows "\<exists>j < length bs. bo_bulk_id (bs ! j) = d \<and> is_success (bs_results st ! j)"
  using assms unfolding bulk_done_def answered_ok_def list_all_iff by blast

end
