(* ===== verification/Scim_Page_Facts.thy ===== *)
theory Scim_Page_Facts
  imports Scim_Search Scim_Filter_Facts
begin

text \<open>
  Counting, pages and order of a search: counts saturate, a page is a slice of the result and the
  pages give it back, and sorting is a stable rearrangement in the order the values define,
  wherever the values compare at all.
\<close>

section \<open>Counts\<close>

lemma read_nat_Cons: "read_nat (c # s) = digit_value c * 10 ^ length s + read_nat s"
proof (induction s rule: rev_induct)
  case Nil
  then show ?case by (simp add: read_nat_def)
next
  case (snoc d s)
  have "read_nat ((c # s) @ [d]) = read_nat (c # s) * 10 + digit_value d" by (rule read_nat_snoc)
  with snoc show ?case by (simp add: read_nat_snoc algebra_simps)
qed

lemma digit_value_bound: "is_digit c \<Longrightarrow> digit_value c < 10"
  by (auto simp: is_digit_def digit_value_def in_range_def)

lemma digit_value_less: "is_digit c \<Longrightarrow> is_digit d \<Longrightarrow> c < d \<longleftrightarrow> digit_value c < digit_value d"
  by (auto simp: is_digit_def digit_value_def in_range_def less_char_def)

lemma digit_value_inject: "is_digit c \<Longrightarrow> is_digit d \<Longrightarrow> digit_value c = digit_value d \<longleftrightarrow> c = d"
  using digit_value_less [of c d] digit_value_less [of d c] by (metis less_irrefl linorder_neqE)

lemma digit_value_zero: "is_digit c \<Longrightarrow> c \<noteq> CHR ''0'' \<Longrightarrow> 0 < digit_value c"
  using digit_value_inject [of c "CHR ''0''"] by (simp add: is_digit_def in_range_def digit_value_def)

lemma read_nat_bound: "list_all is_digit s \<Longrightarrow> read_nat s < 10 ^ length s"
proof (induction s)
  case Nil
  then show ?case by (simp add: read_nat_def)
next
  case (Cons c s)
  then have "digit_value c \<le> 9" using digit_value_bound [of c] by simp
  then have "digit_value c * 10 ^ length s \<le> 9 * 10 ^ length s" by (rule mult_right_mono) simp
  moreover have "read_nat s < 10 ^ length s" using Cons by simp
  ultimately have "digit_value c * 10 ^ length s + read_nat s < 10 * 10 ^ length s" by linarith
  then show ?case by (simp add: read_nat_Cons)
qed

text \<open>Strings of digits of one length are ordered as their numbers are; longer ones are larger.\<close>

lemma read_nat_less:
  "list_all is_digit s \<Longrightarrow> list_all is_digit t \<Longrightarrow> length s = length t \<Longrightarrow> s < t \<longleftrightarrow> read_nat s < read_nat t"
proof (induction s arbitrary: t)
  case Nil
  then show ?case by (simp add: read_nat_def)
next
  case (Cons c s)
  then obtain d u where t: "t = d # u" and u: "list_all is_digit u" "length s = length u" and d: "is_digit d"
    by (cases t) auto
  have c: "is_digit c" and s: "list_all is_digit s" using Cons.prems by simp_all
  note b = read_nat_bound [OF s] read_nat_bound [OF u(1)]
  have step: "a * 10 ^ k + x < b * 10 ^ k + y" if "a < b" and "x < 10 ^ k" for a b x y k :: nat
  proof -
    have "Suc a * 10 ^ k \<le> b * 10 ^ k" using that(1) by (intro mult_right_mono) simp_all
    with that(2) show ?thesis by simp
  qed
  consider "c = d" | "c < d" | "d < c" by (rule linorder_cases [of c d]) auto
  then show ?case
  proof cases
    case 1
    with Cons.IH [OF s u] show ?thesis by (simp add: t read_nat_Cons u(2))
  next
    case 2
    then have "digit_value c < digit_value d" using digit_value_less [OF c d] by simp
    from step [OF this b(1), of "read_nat u"] 2 show ?thesis by (simp add: t read_nat_Cons u(2))
  next
    case 3
    then have "digit_value d < digit_value c" using digit_value_less [OF d c] by simp
    from step [OF this b(2), of "read_nat s"] 3 show ?thesis by (auto simp: t read_nat_Cons u(2))
  qed
qed

lemma read_nat_large:
  assumes "list_all is_digit s" and "s \<noteq> []" and "hd s \<noteq> CHR ''0''"
  shows "10 ^ (length s - 1) \<le> read_nat s"
proof (cases s)
  case (Cons c r)
  with assms digit_value_zero [of c] have "1 \<le> digit_value c" by simp
  then have "1 * 10 ^ length r \<le> digit_value c * 10 ^ length r" by (rule mult_right_mono) simp
  then have "10 ^ length r \<le> digit_value c * 10 ^ length r + read_nat r" by linarith
  then show ?thesis by (simp add: Cons read_nat_Cons)
qed (use assms in simp)

lemma read_nat_zeros: "read_nat (dropWhile (\<lambda>c. c = CHR ''0'') s) = read_nat s"
  by (induction s) (auto simp: read_nat_Cons digit_value_def)

lemma maximum_text: "itoa maximum_int = ''9223372036854775807''"
  by code_simp

lemma maximum_text_value: "read_nat ''9223372036854775807'' = 9223372036854775807"
  by (simp add: read_nat_def digit_value_def)

lemma parse_int_digits:
  assumes "list_all is_digit s" and "s \<noteq> []" and "int (read_nat s) \<le> maximum_int"
  shows "parse_int s = Some (int (read_nat s))"
proof -
  have "is_digit (hd s)" using assms(1,2) by (cases s) simp_all
  then have "hd s \<noteq> CHR ''-''" and "\<not> is_sign (hd s)" by (auto simp: is_digit_def in_range_def is_sign_def)
  with assms show ?thesis by (simp add: parse_int_def maximum_int_def)
qed

lemma count_digits:
  assumes "list_all is_digit d" and "d \<noteq> [] \<Longrightarrow> hd d \<noteq> CHR ''0''"
  shows "(if d = [] then Inr 0
      else if length (itoa maximum_int) < length d \<or> (length d = length (itoa maximum_int) \<and> itoa maximum_int < d)
      then Inr maximum_int else of_option e (parse_int d))
    = Inr (min (int (read_nat d)) maximum_int)"
proof (cases "d = []")
  case True
  then show ?thesis by (simp add: read_nat_def maximum_int_def)
next
  case False
  have m: "list_all is_digit ''9223372036854775807''" by (simp add: is_digit_def in_range_def)
  consider "19 < length d" | "length d = 19" | "length d < 19" by linarith
  then show ?thesis
  proof cases
    case 1
    then have "(10::nat) ^ 19 \<le> 10 ^ (length d - 1)" by (intro power_increasing) simp_all
    with read_nat_large [OF assms(1) False assms(2) [OF False]] have "maximum_int \<le> int (read_nat d)"
      by (simp add: maximum_int_def)
    with 1 False show ?thesis by (simp add: maximum_text)
  next
    case 2
    note l = read_nat_less [OF m assms(1)] maximum_text_value
    show ?thesis
    proof (cases "''9223372036854775807'' < d")
      case True
      with l 2 have "maximum_int \<le> int (read_nat d)" by (simp add: maximum_int_def)
      with True 2 False show ?thesis by (simp add: maximum_text)
    next
      case le: False
      with l 2 have "int (read_nat d) \<le> maximum_int" by (simp add: maximum_int_def)
      with parse_int_digits [OF assms(1) False] 2 False le show ?thesis by (simp add: maximum_text)
    qed
  next
    case 3
    then have "(10::nat) ^ length d \<le> 10 ^ 18" by (intro power_increasing) simp_all
    with read_nat_bound [OF assms(1)] have "int (read_nat d) \<le> maximum_int" by (simp add: maximum_int_def)
    with parse_int_digits [OF assms(1) False] 3 False show ?thesis by (simp add: maximum_text)
  qed
qed

lemma parse_digits_count:
  assumes "list_all is_digit ds" and "ds \<noteq> []"
  shows "parseSearchCount ds = Inr (min (int (read_nat ds)) maximum_int)"
    and "parseSearchCount (CHR ''+'' # ds) = Inr (min (int (read_nat ds)) maximum_int)"
    and "parseSearchCount (CHR ''-'' # ds) = Inr 0"
proof -
  have "is_digit (hd ds)" using assms by (cases ds) simp_all
  then have sign: "hd ds \<noteq> CHR ''-''" "\<not> is_sign (hd ds)" by (auto simp: is_digit_def in_range_def is_sign_def)
  have d: "list_all is_digit (dropWhile (\<lambda>c. c = CHR ''0'') ds)"
    using assms(1) by (auto simp: list_all_iff dest: set_dropWhileD)
  note count = count_digits [OF d hd_dropWhile [of "\<lambda>c. c = CHR ''0''" ds], unfolded read_nat_zeros]
  have e: "(if is_sign (hd ds) then tl ds else ds) = ds"
    "(if is_sign (hd (CHR ''+'' # ds)) then tl (CHR ''+'' # ds) else CHR ''+'' # ds) = ds"
    using sign(2) by (simp_all add: is_sign_def)
  show "parseSearchCount ds = Inr (min (int (read_nat ds)) maximum_int)"
    unfolding parseSearchCount_def Let_def e using assms sign by (simp add: count del: dropWhile_eq_Nil_conv split del: if_split)
  show "parseSearchCount (CHR ''+'' # ds) = Inr (min (int (read_nat ds)) maximum_int)"
    unfolding parseSearchCount_def Let_def e using assms by (simp add: count del: dropWhile_eq_Nil_conv split del: if_split)
  show "parseSearchCount (CHR ''-'' # ds) = Inr 0"
    using assms by (simp add: parseSearchCount_def is_sign_def)
qed

section \<open>Plans and pages\<close>

lemma plan_count_bounds: "0 \<le> m \<Longrightarrow> 0 \<le> plan_count cnt m \<and> plan_count cnt m \<le> m"
  by (auto simp: plan_count_def Let_def split: option.split)

lemma compileSearch_bounds:
  assumes "compileSearch P request definition m = Inr plan" and "0 \<le> m"
  shows "1 \<le> sp_start plan" and "0 \<le> sp_count plan" and "sp_count plan \<le> m"
  using assms plan_count_bounds [OF assms(2)]
  by (auto simp: compileSearch_def result_simps split: if_splits prod.splits)

lemma page_slice:
  assumes "1 \<le> start" and "0 \<le> cnt"
  shows "page_of start cnt xs = take (nat cnt) (drop (nat (start - 1)) xs)"
proof (cases "int (length xs) < start - 1")
  case True
  with assms show ?thesis by (simp add: page_of_def Let_def)
next
  case False
  show ?thesis
  proof (cases "int (length xs) < start - 1 + cnt")
    case True
    with False assms show ?thesis by (simp add: page_of_def Let_def nat_diff_distrib)
  next
    case False2: False
    with False assms show ?thesis by (simp add: page_of_def Let_def)
  qed
qed

lemma pages_reassemble:
  "concat (map (\<lambda>k. page_of (1 + int k * int n) (int n) xs) [0..<m]) = take (m * n) xs"
proof (induction m)
  case (Suc m)
  have "page_of (1 + int m * int n) (int n) xs = take n (drop (m * n) xs)"
    by (subst page_slice) (simp_all add: nat_mult_distrib)
  with Suc show ?case by (simp add: add.commute [of n] take_add)
qed simp

section \<open>Stable sorting\<close>

lemma insert_stable_mset: "mset (insert_stable before x ys) = add_mset x (mset ys)"
  by (induction ys) auto

lemma sort_stable_Cons: "sort_stable before (x # xs) = insert_stable before x (sort_stable before xs)"
  by (simp add: sort_stable_def)

lemma sort_stable_mset: "mset (sort_stable before xs) = mset xs"
  by (induction xs) (simp_all add: sort_stable_Cons insert_stable_mset sort_stable_def)

lemma sort_stable_set: "set (sort_stable before xs) = set xs"
  using sort_stable_mset by (metis set_mset_mset)

text \<open>The comparison, as a relation that two elements are in when the second does not go before the first.\<close>

abbreviation (input) in_order :: "('a \<Rightarrow> 'a \<Rightarrow> bool) \<Rightarrow> 'a \<Rightarrow> 'a \<Rightarrow> bool" where
  "in_order before x y \<equiv> \<not> before y x"

definition weak_order :: "('a \<Rightarrow> 'a \<Rightarrow> bool) \<Rightarrow> 'a set \<Rightarrow> bool" where
  "weak_order before S \<longleftrightarrow>
     (\<forall>x \<in> S. \<forall>y \<in> S. before x y \<longrightarrow> \<not> before y x)
     \<and> (\<forall>x \<in> S. \<forall>y \<in> S. \<forall>z \<in> S. in_order before x y \<longrightarrow> in_order before y z \<longrightarrow> in_order before x z)"

lemma insert_stable_sorted:
  assumes "weak_order before S" and "x \<in> S" and "set ys \<subseteq> S" and "sorted_wrt (in_order before) ys"
  shows "sorted_wrt (in_order before) (insert_stable before x ys)"
  using assms(3,4)
proof (induction ys)
  case (Cons y ys)
  have y: "y \<in> S" and ys: "set ys \<subseteq> S" using Cons.prems by auto
  have s: "set (insert_stable before x ys) = insert x (set ys)"
    by (metis insert_stable_mset set_mset_add_mset_insert set_mset_mset)
  show ?case
  proof (cases "before y x")
    case True
    with assms(1,2) y have "in_order before y x" unfolding weak_order_def by blast
    with Cons True ys s show ?thesis by simp
  next
    case False
    have "in_order before x z" if "z \<in> set ys" for z
    proof -
      have "z \<in> S" and "in_order before y z" using that ys Cons.prems(2) by auto
      with False assms(1,2) y show ?thesis unfolding weak_order_def by blast
    qed
    with False Cons.prems(2) show ?thesis by simp
  qed
qed simp

lemma sort_stable_sorted:
  "weak_order before S \<Longrightarrow> set xs \<subseteq> S \<Longrightarrow> sorted_wrt (in_order before) (sort_stable before xs)"
  by (induction xs) (simp add: sort_stable_def, simp add: sort_stable_Cons insert_stable_sorted sort_stable_set)

text \<open>Elements that do not go before each other keep the order they came in.\<close>

lemma insert_stable_filter:
  assumes "\<And>y. y \<in> set ys \<Longrightarrow> q x \<Longrightarrow> q y \<Longrightarrow> \<not> before y x"
  shows "filter q (insert_stable before x ys) = filter q (x # ys)"
  using assms by (induction ys) auto

lemma sort_stable_filter:
  assumes "\<And>x y. x \<in> set xs \<Longrightarrow> y \<in> set xs \<Longrightarrow> q x \<Longrightarrow> q y \<Longrightarrow> \<not> before y x"
  shows "filter q (sort_stable before xs) = filter q xs"
  using assms
proof (induction xs)
  case (Cons x xs)
  have "filter q (insert_stable before x (sort_stable before xs)) = filter q (x # sort_stable before xs)"
    by (rule insert_stable_filter) (use Cons.prems in \<open>auto simp: sort_stable_set\<close>)
  with Cons show ?case by (simp add: sort_stable_Cons)
qed (simp add: sort_stable_def)

section \<open>The order of a search\<close>

definition comparable :: "platform \<Rightarrow> searchPlan \<Rightarrow> document \<Rightarrow> bool" where
  "comparable P plan d \<longleftrightarrow>
     (case sortValues d (sp_sort_path plan) of
        [] \<Rightarrow> True
      | v # _ \<Rightarrow> orderFilterValues P v v (sp_sort_attr plan) \<noteq> None)"

lemma order_total:
  "orderFilterValues P x x c \<noteq> None \<Longrightarrow> orderFilterValues P y y c \<noteq> None \<Longrightarrow> \<exists>n. orderFilterValues P x y c = Some n"
proof -
  let ?Q = "\<lambda>order :: json \<Rightarrow> json \<Rightarrow> int option. \<forall>x y. order x x \<noteq> None \<longrightarrow> order y y \<noteq> None \<longrightarrow> (\<exists>n. order x y = Some n)"
  have "?Q (\<lambda>x y. orderFilterValues P x y c)"
    by (rule order_cases [where Q = ?Q]) (auto simp: order_by_def split: option.splits)
  then show "orderFilterValues P x x c \<noteq> None \<Longrightarrow> orderFilterValues P y y c \<noteq> None \<Longrightarrow>
    \<exists>n. orderFilterValues P x y c = Some n" by blast
qed

abbreviation sort_values :: "platform \<Rightarrow> searchPlan \<Rightarrow> document \<Rightarrow> document \<Rightarrow> int" where
  "sort_values P plan d e \<equiv> compareSortValues P d e (sp_sort_path plan) (sp_sort_attr plan)"

lemma sort_values_sym:
  assumes "comparable P plan d" and "comparable P plan e"
  shows "sort_values P plan e d = - sort_values P plan d e"
proof (cases "sortValues d (sp_sort_path plan)")
  case Nil
  then show ?thesis by (simp add: compareSortValues_def split: list.split)
next
  case d: (Cons v vs)
  show ?thesis
  proof (cases "sortValues e (sp_sort_path plan)")
    case Nil
    with d show ?thesis by (simp add: compareSortValues_def)
  next
    case (Cons u us)
    with d assms obtain n where "orderFilterValues P v u (sp_sort_attr plan) = Some n"
      using order_total [of P v "sp_sort_attr plan" u] by (auto simp: comparable_def)
    with order_sym [OF this] d Cons show ?thesis by (simp add: compareSortValues_def)
  qed
qed

lemma sort_values_trans:
  assumes "comparable P plan d" and "comparable P plan e" and "comparable P plan f"
    and "sort_values P plan d e \<le> 0" and "sort_values P plan e f \<le> 0"
  shows "sort_values P plan d f \<le> 0"
proof (cases "sortValues d (sp_sort_path plan)")
  case Nil
  with assms(4,5) show ?thesis by (auto simp: compareSortValues_def split: list.splits)
next
  case d: (Cons v vs)
  show ?thesis
  proof (cases "sortValues f (sp_sort_path plan)")
    case Nil
    with d show ?thesis by (simp add: compareSortValues_def)
  next
    case f: (Cons w ws)
    with assms(5) obtain u us where e: "sortValues e (sp_sort_path plan) = u # us"
      by (auto simp: compareSortValues_def split: list.splits)
    from assms d e f obtain m n where o: "orderFilterValues P v u (sp_sort_attr plan) = Some m"
      "orderFilterValues P u w (sp_sort_attr plan) = Some n"
      using order_total [of P v "sp_sort_attr plan" u] order_total [of P u "sp_sort_attr plan" w]
      by (auto simp: comparable_def)
    with assms(4,5) d e f have "m \<le> 0" "n \<le> 0" by (simp_all add: compareSortValues_def)
    from order_trans_values [OF o(1) this(1) o(2) this(2)] d f show ?thesis
      by (auto simp: compareSortValues_def)
  qed
qed

lemma sort_comparison_sym:
  "comparable P plan d \<Longrightarrow> comparable P plan e \<Longrightarrow> sort_comparison P plan e d = - sort_comparison P plan d e"
  using sort_values_sym [of P plan d e] by (auto simp: sort_comparison_def Let_def compare_with_def dest: less_asym)

lemma sort_comparison_trans:
  assumes "comparable P plan d" and "comparable P plan e" and "comparable P plan f"
    and "sort_comparison P plan d e \<le> 0" and "sort_comparison P plan e f \<le> 0"
  shows "sort_comparison P plan d f \<le> 0"
proof -
  let ?v = "sort_values P plan"
  have le: "?v x y \<le> 0" if "sort_comparison P plan x y \<le> 0" for x y
    using that by (auto simp: sort_comparison_def Let_def split: if_splits)
  have df: "?v d f \<le> 0" by (rule sort_values_trans [OF assms(1-3) le [OF assms(4)] le [OF assms(5)]])
  show ?thesis
  proof (cases "?v d f = 0")
    case True
    then have fd: "?v f d \<le> 0" using sort_values_sym [OF assms(1,3)] by simp
    have "?v e d \<le> 0" by (rule sort_values_trans [OF assms(2,3,1) le [OF assms(5)] fd])
    moreover have "?v f e \<le> 0" by (rule sort_values_trans [OF assms(3,1,2) fd le [OF assms(4)]])
    ultimately have z: "?v d e = 0" "?v e f = 0"
      using sort_values_sym [OF assms(1,2)] sort_values_sym [OF assms(2,3)] le [OF assms(4)] le [OF assms(5)] by simp_all
    with assms(4,5) True show ?thesis
      by (auto simp: sort_comparison_def Let_def compare_with_def split: if_splits)
  next
    case False
    with df show ?thesis by (simp add: sort_comparison_def Let_def)
  qed
qed

lemma sorts_before_weak_order: "weak_order (sorts_before P plan) {d. comparable P plan d}"
proof -
  have le: "in_order (sorts_before P plan) d e
      \<longleftrightarrow> (if sp_descending plan then sort_comparison P plan e d \<le> 0 else sort_comparison P plan d e \<le> 0)"
    if "comparable P plan d" "comparable P plan e" for d e
    using sort_comparison_sym [OF that] by (auto simp: sorts_before_def Let_def)
  show ?thesis
    unfolding weak_order_def
  proof ((intro conjI ballI impI; elim CollectE), goal_cases)
    case (1 d e)
    then show ?case using sort_comparison_sym [of P plan d e] by (auto simp: sorts_before_def Let_def split: if_splits)
  next
    case (2 d e f)
    then show ?case using le sort_comparison_trans [of P plan d e f] sort_comparison_trans [of P plan f e d]
      by (auto split: if_splits)
  qed
qed

text \<open>The result of a search: the matching resources in order, and the page the plan asks for.\<close>

lemma matching_Inr:
  "matching P expression resources = Inr found \<Longrightarrow>
     found = filter (\<lambda>r. MatchFilter P expression r = Inr True) resources
     \<and> (\<forall>r \<in> set resources. \<exists>b. MatchFilter P expression r = Inr b)"
  by (induction resources arbitrary: found) (auto simp: result_simps split: if_splits)

lemma applySearch_spec:
  assumes "applySearch P plan resources = Inr (page, n)"
    and "1 \<le> sp_start plan" and "0 \<le> sp_count plan" and "\<forall>r \<in> set resources. comparable P plan r"
  shows "\<exists>found.
    mset found = mset (filter (\<lambda>r. MatchFilter P (sp_filter plan) r = Inr True) resources)
    \<and> n = int (length found)
    \<and> page = take (nat (sp_count plan)) (drop (nat (sp_start plan - 1)) found)
    \<and> (sp_sort_path plan \<noteq> [] \<longrightarrow> sorted_wrt (in_order (sorts_before P plan)) found)"
proof -
  obtain filtered where m: "matching P (sp_filter plan) resources = Inr filtered"
    and r: "page = page_of (sp_start plan) (sp_count plan)
        (if sp_sort_path plan = [] then filtered else sort_stable (sorts_before P plan) filtered)"
      "n = int (length (if sp_sort_path plan = [] then filtered else sort_stable (sorts_before P plan) filtered))"
    using assms(1) by (auto simp: applySearch_def result_simps Let_def)
  note f = matching_Inr [OF m]
  then have c: "set filtered \<subseteq> {d. comparable P plan d}" using assms(4) by auto
  let ?found = "if sp_sort_path plan = [] then filtered else sort_stable (sorts_before P plan) filtered"
  show ?thesis
    using f r page_slice [OF assms(2,3)] sort_stable_sorted [OF sorts_before_weak_order c]
    by (intro exI [of _ ?found]) (auto simp: sort_stable_mset)
qed

end
