(* ===== verification/Scim_Projection.thy ===== *)
theory Scim_Projection
  imports Scim_Search Scim_Clone
begin

text \<open>
  What a projected document holds. A path is in a document when following its names, into every
  object of an array on the way, ends at an attribute. Deleting a path removes it and adds
  none, copying takes paths from the source only, and cloning changes none; so an attribute that is
  never returned, or only on request, is in no response that did not ask for it.
\<close>

section \<open>Paths in a document\<close>

fun has_path :: "document \<Rightarrow> string list \<Rightarrow> bool" where
  "has_path m [] \<longleftrightarrow> False"
| "has_path m [name] \<longleftrightarrow> has_key m name"
| "has_path m (name # next # rest) \<longleftrightarrow>
     (case map_of m name of
        Some (JObj object) \<Rightarrow> has_path object (next # rest)
      | Some (JArr items) \<Rightarrow>
          list_ex (\<lambda>raw. case raw of JObj child \<Rightarrow> has_path child (next # rest) | _ \<Rightarrow> False) items
      | _ \<Rightarrow> False)"

text \<open>The rest of a path below a value.\<close>

definition below :: "json \<Rightarrow> string list \<Rightarrow> bool" where
  "below v path \<longleftrightarrow>
     (case v of
        JObj object \<Rightarrow> has_path object path
      | JArr items \<Rightarrow> (\<exists>child. JObj child \<in> set items \<and> has_path child path)
      | _ \<Rightarrow> False)"

lemma below_simps [simp]:
  "below (JObj object) path = has_path object path"
  "below (JArr items) path \<longleftrightarrow> (\<exists>child. JObj child \<in> set items \<and> has_path child path)"
  "below JNull path = False" "below (JBool b) path = False" "below (JNum n) path = False" "below (JStr s) path = False"
  by (simp_all add: below_def)

lemma list_ex_objects:
  "list_ex (\<lambda>raw. case raw of JObj child \<Rightarrow> q child | _ \<Rightarrow> False) items \<longleftrightarrow> (\<exists>child. JObj child \<in> set items \<and> q child)"
  by (induction items) (auto split: json.splits)

lemma has_path_below: "has_path m (name # next # rest) \<longleftrightarrow> (\<exists>v. map_of m name = Some v \<and> below v (next # rest))"
  by (simp add: list_ex_objects below_def split: option.split json.split)

lemma has_path_Cons: "has_path m (name # rest) \<longleftrightarrow> (\<exists>v. map_of m name = Some v \<and> (rest = [] \<or> below v rest))"
  by (cases rest) (auto simp: has_path_below simp del: has_path.simps(3))

declare has_path.simps(2,3) [simp del]

lemma has_path_map_of: "map_of m = map_of m' \<Longrightarrow> has_path m path = has_path m' path"
  by (cases path) (simp_all add: has_path_Cons)

lemma has_path_update:
  "has_path (AList.update name v m) path \<Longrightarrow> has_path m path \<or> (\<exists>rest. path = name # rest \<and> (rest = [] \<or> below v rest))"
  by (cases path) (auto simp: has_path_Cons map_of_update split: if_splits)

lemma has_path_delete: "has_path (AList.delete name m) path \<Longrightarrow> has_path m path"
  by (cases path) (auto simp: has_path_Cons map_of_delete split: if_splits)

section \<open>Deleting\<close>

definition delete_below :: "string list \<Rightarrow> json \<Rightarrow> json" where
  "delete_below path v =
     (case v of
        JObj object \<Rightarrow> JObj (deleteProjectedPath object path)
      | JArr items \<Rightarrow> JArr (map (\<lambda>raw. case raw of JObj child \<Rightarrow> JObj (deleteProjectedPath child path) | _ \<Rightarrow> raw) items)
      | _ \<Rightarrow> v)"

lemma delete_step:
  "deleteProjectedPath m (name # next # rest) =
     (case map_of m name of
        None \<Rightarrow> m
      | Some v \<Rightarrow>
          if delete_below (next # rest) v = JObj [] then AList.delete name m
          else if as_object v = None \<and> as_array v = None then m
          else AList.update name (delete_below (next # rest) v) m)"
  by (auto simp: delete_below_def Let_def as_object_def as_array_def split: option.split json.split)

declare deleteProjectedPath.simps(3) [simp del]

text \<open>Deleting a path removes it, and adds no other.\<close>

lemma delete_below_paths:
  assumes "\<And>m. \<not> has_path (deleteProjectedPath m q) q"
  shows "\<not> below (delete_below q v) q"
  using assms by (auto simp: delete_below_def split: json.splits)

lemma delete_below_frame:
  assumes "\<And>m p. has_path (deleteProjectedPath m q) p \<Longrightarrow> has_path m p"
  shows "below (delete_below q v) p \<Longrightarrow> below v p"
  using assms by (fastforce simp: delete_below_def split: json.splits)

lemma deleted_path: "\<not> has_path (deleteProjectedPath m q) q"
proof (induction q arbitrary: m)
  case (Cons name q)
  show ?case
  proof (cases q)
    case Nil
    then show ?thesis by (simp add: has_path_Cons map_of_delete)
  next
    case (Cons part rest)
    note d = delete_below_paths [OF Cons.IH]
    show ?thesis
    proof (cases "map_of m name")
      case None
      with Cons show ?thesis by (simp add: delete_step has_path_below)
    next
      case (Some v)
      have "below v q = False" if "as_object v = None" "as_array v = None"
        using that by (cases v) (auto simp: as_object_def as_array_def)
      with Some Cons d [of v] show ?thesis
        by (auto simp: delete_step has_path_below map_of_delete map_of_update)
    qed
  qed
qed simp

lemma delete_frame: "has_path (deleteProjectedPath m q) p \<Longrightarrow> has_path m p"
proof (induction q arbitrary: m p)
  case (Cons name q)
  show ?case
  proof (cases q)
    case Nil
    with Cons.prems show ?thesis by (auto dest: has_path_delete)
  next
    case q: (Cons part rest)
    show ?thesis
    proof (cases "map_of m name")
      case None
      with Cons.prems q show ?thesis by (simp add: delete_step)
    next
      case (Some v)
      have "has_path m p" if "has_path (AList.update name (delete_below q v) m) p"
        using has_path_update [OF that] delete_below_frame [OF Cons.IH] Some by (auto simp: has_path_Cons)
      with Cons.prems q Some show ?thesis
        by (auto simp: delete_step split: if_splits dest: has_path_delete)
    qed
  qed
qed simp

lemma foldl_delete_frame: "has_path (foldl deleteProjectedPath m qs) p \<Longrightarrow> has_path m p"
  by (induction qs arbitrary: m) (auto dest: delete_frame)

lemma foldl_delete_gone: "p \<in> set qs \<Longrightarrow> \<not> has_path (foldl deleteProjectedPath m qs) p"
proof (induction qs arbitrary: m)
  case (Cons q qs)
  then show ?case using deleted_path foldl_delete_frame by (cases "p = q") fastforce+
qed simp

section \<open>What deleting leaves can be encoded and decoded again\<close>

definition part_of :: "platform \<Rightarrow> json \<Rightarrow> json \<Rightarrow> bool" where
  "part_of P v w \<longleftrightarrow> nodes v \<le> nodes w \<and> height v \<le> height w \<and> (decoded_ok P w \<longrightarrow> decoded_ok P v)"

lemma part_of_refl [simp, intro]: "part_of P v v"
  and part_of_trans: "part_of P u v \<Longrightarrow> part_of P v w \<Longrightarrow> part_of P u w"
  by (auto simp: part_of_def)

lemma height_Obj: "(\<And>k v. (k, v) \<in> set m \<Longrightarrow> Suc (height v) \<le> h) \<Longrightarrow> height (JObj m) \<le> h"
  by (auto simp only: height_Obj_le split_paired_all)

lemma names_ok_sub:
  "names_ok P (keys m) \<Longrightarrow> names_ok P (filter q (keys m))"
  by (auto simp: names_ok_def list_all_iff distinct_map inj_on_def)

lemma part_of_delete: "part_of P (JObj (AList.delete k m)) (JObj m)"
proof -
  have "entries_nodes (AList.delete k m) \<le> entries_nodes m"
    by (induction m) (auto simp: entries_nodes_def)
  moreover have "height (JObj (AList.delete k m)) \<le> height (JObj m)"
    using set_delete [of k m] by (intro height_Obj height_le(1)) auto
  ultimately show ?thesis
    using set_delete [of k m] names_ok_sub [of P m]
    by (auto simp: part_of_def nodes_Obj keys_delete simp del: nodes.simps height.simps)
qed

lemma part_of_update:
  assumes "map_of m k = Some v" and "part_of P w v"
  shows "part_of P (JObj (AList.update k w m)) (JObj m)"
proof -
  have kv: "(k, v) \<in> set m" using assms(1) by (rule map_of_SomeD)
  have "entries_nodes (AList.update k w m) \<le> entries_nodes m"
    using assms by (induction m) (auto simp: entries_nodes_def part_of_def split: if_splits)
  moreover have "height (JObj (AList.update k w m)) \<le> height (JObj m)"
  proof (rule height_Obj)
    fix k' v' assume "(k', v') \<in> set (AList.update k w m)"
    then have "(k', v') \<in> set m \<or> v' = w" using set_update [of k w m] by auto
    then show "Suc (height v') \<le> height (JObj m)"
      using height_le(1) height_le(1) [OF kv] assms(2) by (fastforce simp: part_of_def simp del: height.simps)
  qed
  moreover have "keys (AList.update k w m) = keys m"
    using kv by (induction m) auto
  moreover have "decoded_ok P v'" if "(k', v') \<in> set (AList.update k w m)" and "decoded_ok P (JObj m)" for k' v'
    using that set_update [of k w m] kv assms(2) by (auto simp: part_of_def)
  ultimately show ?thesis
    by (auto simp: part_of_def nodes_Obj simp del: nodes.simps height.simps)
qed

lemma part_of_array:
  assumes "\<And>x. x \<in> set xs \<Longrightarrow> part_of P (f x) x"
  shows "part_of P (JArr (map f xs)) (JArr xs)"
proof -
  have "sum_list (map (nodes \<circ> f) xs) \<le> sum_list (map nodes xs)"
    by (rule sum_list_mono) (use assms in \<open>auto simp: part_of_def\<close>)
  moreover have "foldr max (map (Suc \<circ> (height \<circ> f)) ys) 0 \<le> foldr max (map (Suc \<circ> height) ys) 0" if "set ys \<subseteq> set xs" for ys
    using that assms by (induction ys) (fastforce simp: part_of_def)+
  ultimately show ?thesis using assms by (auto simp: part_of_def comp_assoc)
qed

lemma delete_below_part:
  assumes "\<And>m. part_of P (JObj (deleteProjectedPath m q)) (JObj m)"
  shows "part_of P (delete_below q v) v"
  using assms by (cases v) (auto simp: delete_below_def intro!: part_of_array split: json.split)

lemma delete_part: "part_of P (JObj (deleteProjectedPath m q)) (JObj m)"
proof (induction q arbitrary: m)
  case (Cons name q)
  show ?case
  proof (cases q)
    case Nil
    then show ?thesis by (simp add: part_of_delete)
  next
    case q: (Cons part rest)
    have "part_of P (JObj (AList.update name (delete_below q v) m)) (JObj m)" if "map_of m name = Some v" for v
      by (rule part_of_update [OF that delete_below_part]) (rule Cons.IH)
    then show ?thesis by (auto simp: q delete_step part_of_delete split: option.split)
  qed
qed simp

lemma foldl_part:
  assumes "\<And>m q. part_of P (JObj (f m q)) (JObj m)"
  shows "part_of P (JObj (foldl f m qs)) (JObj m)"
  using assms by (induction qs arbitrary: m) (auto intro: part_of_trans)

lemma part_of_admissible: "part_of P (JObj m') (JObj m) \<Longrightarrow> admissible P m \<Longrightarrow> admissible P m'"
  by (auto simp: part_of_def admissible_def simp del: nodes.simps height.simps decoded_ok_Obj)

section \<open>Cloning\<close>

lemma canon_entries:
  assumes "canon (JObj m) = JObj c" and "distinct (keys m)"
  shows "map_of c name = map_option canon (map_of m name)"
proof -
  have c: "c = sort_key fst (map (\<lambda>(k, v). (k, canon v)) m)" using assms(1) by (simp only: canon_Obj json.inject)
  have k: "keys (map (\<lambda>(k, v). (k, canon v)) m) = keys m" by (induction m) auto
  have "mset (keys c) = mset (keys (map (\<lambda>(k, v). (k, canon v)) m))" unfolding c by (simp only: mset_map mset_sort)
  then have "mset (keys c) = mset (keys m)" unfolding k .
  then have d: "distinct (keys c)" using assms(2) mset_eq_imp_distinct_iff by metis
  have "set c = set (map (\<lambda>(k, v). (k, canon v)) m)" by (simp add: c)
  with map_of_inject_set [OF d, of "map (\<lambda>(k, v). (k, canon v)) m"] assms(2)
  have "map_of c = map_of (map (\<lambda>(k, v). (k, canon v)) m)" by (simp only: k)
  then have "map_of c name = map_of (map (\<lambda>(k, v). (k, canon v)) m) name" by (rule fun_cong)
  also have "\<dots> = map_option canon (map_of m name)" by (induction m) auto
  finally show ?thesis .
qed


lemma names_ok_distinct: "names_ok P ks \<Longrightarrow> distinct ks"
  by (auto simp: names_ok_def distinct_map)

lemma canon_not_Obj: "canon v = JObj c \<Longrightarrow> \<exists>m. v = JObj m"
  by (cases v) auto

lemma below_canon:
  assumes "decoded_ok P v" and "below (canon v) q"
    and "\<And>m c. decoded_ok P (JObj m) \<Longrightarrow> canon (JObj m) = JObj c \<Longrightarrow> has_path c q \<Longrightarrow> has_path m q"
  shows "below v q"
proof (cases v)
  case (JObj m)
  obtain c where c: "canon (JObj m) = JObj c" using canon_Obj_shape by blast
  with assms JObj show ?thesis by (simp del: canon.simps decoded_ok_Obj)
next
  case (JArr xs)
  with assms(2) obtain c where "JObj c \<in> canon ` set xs" and p: "has_path c q" by auto
  then obtain x where x: "x \<in> set xs" "canon x = JObj c" by (metis imageE)
  from canon_not_Obj [OF x(2)] obtain m where m: "x = JObj m" by blast
  have "decoded_ok P (JObj m)" using assms(1) JArr x(1) m by (auto simp del: decoded_ok_Obj)
  from assms(3) [OF this x(2) [unfolded m] p] x(1) m JArr show ?thesis by auto
qed (use assms(2) in simp_all)

lemma has_path_canon:
  "decoded_ok P (JObj m) \<Longrightarrow> canon (JObj m) = JObj c \<Longrightarrow> has_path c p \<Longrightarrow> has_path m p"
proof (induction p arbitrary: m c)
  case (Cons name q)
  have "distinct (keys m)" using Cons.prems(1) names_ok_distinct by auto
  note e = canon_entries [OF Cons.prems(2) this, of name]
  from Cons.prems(3) e obtain v where v: "map_of m name = Some v" "q = [] \<or> below (canon v) q"
    by (auto simp: has_path_Cons)
  have "decoded_ok P v" using Cons.prems(1) map_of_SomeD [OF v(1)] by auto
  then have "q = [] \<or> below v q" using v(2) below_canon [of P v q] Cons.IH by blast
  with v(1) show ?case by (simp add: has_path_Cons)
qed simp

lemma cloned_path: "admissible P m \<Longrightarrow> cloneDocument P m = Inr m' \<Longrightarrow> has_path m' p \<Longrightarrow> has_path m p"
  using cloneDocument_admissible(1) [of P m m'] has_path_canon [of P m m' p]
  by (simp add: admissible_def del: decoded_ok_Obj)

lemma cloned_admissible: "cloneDocument P m = Inr m' \<Longrightarrow> admissible P m'"
  by (auto simp: cloneDocument_def result_simps intro: DecodeDocument_admissible)

section \<open>Copying\<close>

definition copy_below :: "string list \<Rightarrow> json option \<Rightarrow> json \<Rightarrow> json option" where
  "copy_below path old v =
     (case v of
        JObj object \<Rightarrow>
          Some (JObj (copyProjectedPath (case Option.bind old as_object of None \<Rightarrow> [] | Some m \<Rightarrow> m) object path))
      | JArr items \<Rightarrow>
          let fresh = replicate (length items) (JObj []);
              children = (case Option.bind old as_array of
                            None \<Rightarrow> fresh | Some xs \<Rightarrow> if length xs = length items then xs else fresh)
          in Some (JArr (map2 (\<lambda>child raw.
               (case (child, raw) of (JObj t, JObj s) \<Rightarrow> JObj (copyProjectedPath t s path) | _ \<Rightarrow> child)) children items))
      | _ \<Rightarrow> None)"

lemma copy_step:
  "copyProjectedPath target source (name # next # rest) =
     (case Option.bind (map_of source name) (copy_below (next # rest) (map_of target name)) of
        None \<Rightarrow> target | Some v \<Rightarrow> AList.update name v target)"
  by (auto simp: copy_below_def Let_def split: option.split json.split)

declare copyProjectedPath.simps(3) [simp del]

lemma copy_below_paths:
  assumes "copy_below q old v = Some w" and "below w p"
    and ih: "\<And>t s. has_path (copyProjectedPath t s q) p \<Longrightarrow> has_path t p \<or> has_path s p"
  shows "below v p \<or> (\<exists>u. old = Some u \<and> below u p)"
proof (cases v)
  case (JObj object)
  have "has_path [] p = False" by (cases p) (simp_all add: has_path_Cons)
  with assms(1,2) JObj ih show ?thesis
    by (fastforce simp: copy_below_def bind_eq_Some_conv split: option.splits)
next
  case (JArr items)
  let ?fresh = "replicate (length items) (JObj [])"
  obtain children where w: "w = JArr (map2 (\<lambda>child raw.
      (case (child, raw) of (JObj t, JObj s) \<Rightarrow> JObj (copyProjectedPath t s q) | _ \<Rightarrow> child)) children items)"
    and c: "children = ?fresh \<or> old = Some (JArr children)"
    using assms(1) JArr
    by (auto simp: copy_below_def Let_def bind_eq_Some_conv split: option.splits if_splits)
  from assms(2) w obtain child raw r where cr: "(child, raw) \<in> set (zip children items)"
    and r: "JObj r = (case (child, raw) of (JObj t, JObj s) \<Rightarrow> JObj (copyProjectedPath t s q) | _ \<Rightarrow> child)"
    and p: "has_path r p" by auto
  have m: "child \<in> set children" "raw \<in> set items" using cr by (auto dest: set_zip_leftD set_zip_rightD)
  from r p ih have "(\<exists>s. raw = JObj s \<and> has_path s p) \<or> (\<exists>t. child = JObj t \<and> has_path t p)"
    by (cases child; cases raw) auto
  then show ?thesis
  proof
    assume "\<exists>s. raw = JObj s \<and> has_path s p"
    with m JArr show ?thesis by auto
  next
    assume "\<exists>t. child = JObj t \<and> has_path t p"
    then obtain t where t: "child = JObj t" "has_path t p" by blast
    then have "t \<noteq> []" by (cases p) (auto simp: has_path_Cons)
    with c m t have "old = Some (JArr children)" by auto
    with m t show ?thesis by auto
  qed
qed (use assms(1) in \<open>simp_all add: copy_below_def\<close>)

lemma copied_path: "has_path (copyProjectedPath target source q) p \<Longrightarrow> has_path target p \<or> has_path source p"
proof (induction q arbitrary: target source p)
  case (Cons name q)
  show ?case
  proof (cases q)
    case Nil
    with Cons.prems show ?thesis
      by (auto split: option.splits dest!: has_path_update simp: has_path_Cons)
  next
    case q: (Cons part rest)
    show ?thesis
    proof (cases "Option.bind (map_of source name) (copy_below q (map_of target name))")
      case None
      with Cons.prems q show ?thesis by (simp add: copy_step)
    next
      case (Some w)
      then obtain v where v: "map_of source name = Some v" "copy_below q (map_of target name) v = Some w"
        by (auto simp: bind_eq_Some_conv)
      from Cons.prems q Some have "has_path (AList.update name w target) p" by (simp add: copy_step)
      from has_path_update [OF this] consider "has_path target p"
        | r where "p = name # r" "r = []" | r where "p = name # r" "below w r" by blast
      then show ?thesis
      proof cases
        case (3 r)
        from copy_below_paths [OF v(2) 3(2) Cons.IH] 3(1) v(1) show ?thesis by (auto simp: has_path_Cons)
      qed (use v(1) in \<open>auto simp: has_path_Cons\<close>)
    qed
  qed
qed simp

lemma foldl_copied: "has_path (foldl (\<lambda>m q. copyProjectedPath m source q) target qs) p \<Longrightarrow> has_path target p \<or> has_path source p"
  by (induction qs arbitrary: target) (auto dest: copied_path)

section \<open>Projection\<close>

lemma delete_unless_frame:
  "has_path (foldl (\<lambda>m q. if b q then m else deleteProjectedPath m q) m qs) p \<Longrightarrow> has_path m p"
  by (induction qs arbitrary: m) (auto dest: delete_frame split: if_splits)

lemma delete_unless_gone:
  "p \<in> set qs \<Longrightarrow> \<not> b p \<Longrightarrow> \<not> has_path (foldl (\<lambda>m q. if b q then m else deleteProjectedPath m q) m qs) p"
proof (induction qs arbitrary: m)
  case (Cons q qs)
  then show ?case using deleted_path delete_unless_frame by (cases "p = q") fastforce+
qed simp

lemma delete_unless_part:
  "part_of P (JObj (foldl (\<lambda>m q. if b q then m else deleteProjectedPath m q) m qs)) (JObj m)"
  by (rule foldl_part) (simp add: delete_part)

text \<open>What may be returned at all: everything but what is never returned or was not asked for.\<close>

abbreviation visible :: "platform \<Rightarrow> string list list \<Rightarrow> ResourceDefinition \<Rightarrow> document \<Rightarrow> document" where
  "visible P inc definition source \<equiv>
     foldl (\<lambda>m q. if pathRequested P q inc then m else deleteProjectedPath m q)
        (foldl deleteProjectedPath source (paths_returned ''never'' definition @ [[''password'']]))
        (paths_returned ''request'' definition)"

lemma projectDocument_source:
  assumes "projectDocument P document inc exc definition = Inr out"
  obtains source where "cloneDocument P document = Inr source"
    and "\<And>p. has_path out p \<Longrightarrow>
      has_path (visible P inc definition source) p"
proof -
  let ?s = "visible P inc definition"
  from assms obtain source returned where c: "cloneDocument P document = Inr source"
    and r: "cloneDocument P (?s source) = Inr returned"
    and out: "out = (if inc \<noteq> []
      then foldl (\<lambda>m path. copyProjectedPath m (?s source) path) []
             ([[''schemas''], [''id'']] @ paths_returned ''always'' definition @ inc)
      else foldl (\<lambda>m path. copyProjectedPath m returned path)
             (foldl (\<lambda>m path. if kept_path P (paths_returned ''always'' definition) path then m
                else deleteProjectedPath m path) (?s source) exc)
             (paths_returned ''always'' definition))"
    by (auto simp: projectDocument_def returnabilityPaths_def Let_def result_simps split: if_splits)
  have "part_of P (JObj (?s source)) (JObj source)"
    by (rule part_of_trans [OF delete_unless_part foldl_part]) (rule delete_part)
  then have "admissible P (?s source)" using cloned_admissible [OF c] part_of_admissible by blast
  note cl = cloned_path [OF this r]
  have e: "has_path [] p = False" for p by (cases p) (simp_all add: has_path_Cons)
  have "has_path (?s source) p" if "has_path out p" for p
  proof (cases "inc \<noteq> []")
    case True
    from foldl_copied [OF that [unfolded out if_P [OF True]]] e show ?thesis by blast
  next
    case False
    from foldl_copied [OF that [unfolded out if_not_P [OF False]]] cl delete_unless_frame show ?thesis by blast
  qed
  with c show thesis by (rule that)
qed

lemma never_visible:
  "p \<in> set (paths_returned ''never'' definition @ [[''password'']]) \<Longrightarrow> \<not> has_path (visible P inc definition source) p"
  by (rule contrapos_nn [OF foldl_delete_gone delete_unless_frame])

lemma request_visible:
  "p \<in> set (paths_returned ''request'' definition) \<Longrightarrow> \<not> pathRequested P p inc \<Longrightarrow>
    \<not> has_path (visible P inc definition source) p"
  using delete_unless_gone [where b = "\<lambda>q. pathRequested P q inc"] by simp

lemma never_projected:
  assumes "projectDocument P document inc exc definition = Inr out"
    and "p \<in> set (paths_returned ''never'' definition @ [[''password'']])"
  shows "\<not> has_path out p"
  by (rule projectDocument_source [OF assms(1)]) (use never_visible [OF assms(2)] in blast)

lemma request_projected:
  assumes "projectDocument P document inc exc definition = Inr out"
    and "p \<in> set (paths_returned ''request'' definition)" and "\<not> pathRequested P p inc"
  shows "\<not> has_path out p"
  by (rule projectDocument_source [OF assms(1)]) (use request_visible [OF assms(2,3)] in blast)

end
