(* ===== verification/Scim_Patch_Facts.thy ===== *)
theory Scim_Patch_Facts
  imports Scim_Patch Scim_Filter_Facts Scim_Clone
begin

text \<open>
  What PATCH does: a decoded request is well-formed, an operation changes the attribute its path
  names and nothing else, adding twice is adding once, a filtered removal keeps exactly the elements
  the filter rejects.
\<close>

section \<open>Requests\<close>

definition op_ok :: "PatchOp \<Rightarrow> bool" where
  "op_ok operation \<longleftrightarrow>
     (op_name operation = ''add'' \<or> op_name operation = ''replace'' \<or> op_name operation = ''remove'')
     \<and> (op_name operation \<noteq> ''remove'' \<longrightarrow> op_value operation \<noteq> [] \<and> \<not> null_text (op_value operation))
     \<and> (op_name operation = ''remove'' \<longrightarrow> op_path operation \<noteq> [] \<and> op_value operation = [])
     \<and> (op_path operation = [] \<or> validAttributePath (op_path operation))"

lemma admit_op_ok:
  assumes "admit_op P operation = Inr admitted"
  shows "op_ok admitted" and "op_name admitted = to_lower P (op_name operation)"
    and "op_path admitted = op_path operation" and "op_value admitted = op_value operation"
  using assms by (auto simp: admit_op_def op_ok_def result_simps Let_def split: if_splits)

lemma DecodePatch_ok:
  assumes "DecodePatch P raw maximum = Inr request"
  shows "length raw \<le> MaximumPatchBytes"
    and "1 \<le> length (patch_operations request)" and "int (length (patch_operations request)) \<le> maximum"
    and "maximum \<le> 1000"
    and "list_all op_ok (patch_operations request)"
    and "ValidateSchemas P (patch_schemas request) [PatchSchema] = Inr ()"
proof -
  from assms obtain decoded operations where t: "traverse (admit_op P) (patch_operations decoded) = Inr operations"
    and r: "request = decoded\<lparr>patch_operations := operations\<rparr>"
    and n: "patch_operations decoded \<noteq> []" "int (length (patch_operations decoded)) \<le> maximum"
    and b: "length raw \<le> MaximumPatchBytes" "maximum \<le> 1000"
    and s: "ValidateSchemas P (patch_schemas decoded) [PatchSchema] = Inr ()"
    by (auto simp: DecodePatch_def result_simps split: if_splits)
  have len: "length operations = length (patch_operations decoded)" by (rule traverse_length [OF t])
  show "length raw \<le> MaximumPatchBytes" and "maximum \<le> 1000" by (fact b)+
  show "1 \<le> length (patch_operations request)" and "int (length (patch_operations request)) \<le> maximum"
    using n len by (simp_all add: r Suc_le_eq)
  show "ValidateSchemas P (patch_schemas request) [PatchSchema] = Inr ()" using s by (simp add: r)
  show "list_all op_ok (patch_operations request)"
    using t admit_op_ok(1) unfolding traverse_Inr_iff r
    by (auto simp: list_all2_conv_all_nth list_all_length)
qed

section \<open>Values\<close>

lemma contains_append: "containsPatchValue xs v \<Longrightarrow> containsPatchValue (xs @ ys) v"
  by (auto simp: containsPatchValue_def)

lemma append_missing_contains: "containsPatchValue (append_missing xs v) v"
  by (simp add: append_missing_def) (simp add: containsPatchValue_def)

lemma append_missing_keeps: "containsPatchValue xs u \<Longrightarrow> containsPatchValue (append_missing xs v) u"
  by (simp add: append_missing_def contains_append)

lemma append_all_keeps: "containsPatchValue xs u \<Longrightarrow> containsPatchValue (foldl append_missing xs vs) u"
  by (induction vs arbitrary: xs) (auto intro: append_missing_keeps)

lemma append_all_contains: "v \<in> set vs \<Longrightarrow> containsPatchValue (foldl append_missing xs vs) v"
  by (induction vs arbitrary: xs) (auto intro: append_all_keeps append_missing_contains)

lemma append_all_present: "(\<And>v. v \<in> set vs \<Longrightarrow> containsPatchValue xs v) \<Longrightarrow> foldl append_missing xs vs = xs"
  by (induction vs) (auto simp: append_missing_def)

lemma append_all_prefix: "\<exists>new. foldl append_missing xs vs = xs @ new"
proof (induction vs arbitrary: xs)
  case (Cons v vs)
  from Cons [of "append_missing xs v"] show ?case by (auto simp: append_missing_def split: if_splits)
qed simp

text \<open>No two elements are deeply equal.\<close>

definition different :: "json list \<Rightarrow> bool" where
  "different xs \<longleftrightarrow> sorted_wrt (\<lambda>x y. \<not> deep_equal x y) xs"

lemma append_missing_different: "different xs \<Longrightarrow> different (append_missing xs v)"
  by (auto simp: different_def append_missing_def sorted_wrt_append containsPatchValue_def list_ex_iff)

lemma append_all_different: "different xs \<Longrightarrow> different (foldl append_missing xs vs)"
  by (induction vs arbitrary: xs) (auto intro: append_missing_different)

lemma add_frame: "k \<noteq> a \<Longrightarrow> map_of (addValue m a v) k = map_of m k"
  by (simp add: addValue_def map_of_update split: option.split)

text \<open>What add leaves in the attribute: the value, or the items that were there and then the new ones.\<close>

lemma add_value:
  "map_of (addValue m a v) a =
     (case Option.bind (map_of m a) as_array of
        None \<Rightarrow> Some v
      | Some items \<Rightarrow> Some (JArr (foldl append_missing items (case v of JArr vs \<Rightarrow> vs | _ \<Rightarrow> [v]))))"
  by (simp add: addValue_def map_of_update split: option.split json.split)

lemma add_twice:
  "map_of (addValue (addValue m a v) a v) = map_of (addValue m a v)"
proof
  fix k
  show "map_of (addValue (addValue m a v) a v) k = map_of (addValue m a v) k"
  proof (cases "k = a")
    case True
    let ?vs = "case v of JArr vs \<Rightarrow> vs | _ \<Rightarrow> [v]"
    have e: "foldl append_missing (foldl append_missing xs ?vs) ?vs = foldl append_missing xs ?vs" for xs
      by (rule append_all_present) (rule append_all_contains)
    have s: "foldl append_missing vs vs = vs" for vs
      by (rule append_all_present) (auto simp: containsPatchValue_def list_ex_iff)
    show ?thesis
      unfolding True add_value [of "addValue m a v"]
      using e s by (cases "Option.bind (map_of m a) as_array") (simp_all add: add_value as_array_def split: json.split)
  qed (simp add: add_frame)
qed

section \<open>One operation\<close>

lemma patch_attribute_frame:
  "patch_attribute m a op v = Inr m' \<Longrightarrow> k \<noteq> a \<Longrightarrow> map_of m' k = map_of m k"
  by (auto simp: patch_attribute_def map_of_update map_of_delete add_frame split: if_splits)

lemma applyDirectPatch_frame:
  "applyDirectPatch m a sub op v = Inr m' \<Longrightarrow> k \<noteq> a \<Longrightarrow> map_of m' k = map_of m k"
  by (auto simp: applyDirectPatch_def result_simps map_of_update patch_attribute_frame
      split: if_splits option.splits)

lemma applyFilteredPatch_frame:
  "applyFilteredPatch P d m path op v = Inr m' \<Longrightarrow> k \<noteq> pp_attribute path \<Longrightarrow> map_of m' k = map_of m k"
  by (auto simp: applyFilteredPatch_def result_simps map_of_update Let_def split: if_splits option.splits)

lemma patch_target_frame:
  "patch_target P d m path op v = Inr m' \<Longrightarrow> k \<noteq> pp_attribute path \<Longrightarrow> map_of m' k = map_of m k"
  by (auto simp: patch_target_def map_of_update applyDirectPatch_frame applyFilteredPatch_frame split: if_splits)

lemma ensureSchema_frame: "k \<noteq> ''schemas'' \<Longrightarrow> map_of (ensureSchema P m s) k = map_of m k"
  by (simp add: ensureSchema_def Let_def map_of_update)

text \<open>An operation with a path leaves every attribute alone but its own, that of its extension, and schemas.\<close>

lemma operation_frame:
  assumes "applyPatchOperation P d m op rawPath v = Inr m'" and "parsePatchPath P d rawPath = Inr path" and "rawPath \<noteq> []"
    and "k \<noteq> (if pp_extension path = [] then pp_attribute path else pp_extension path)"
    and "pp_extension path = [] \<or> k \<noteq> ''schemas''"
  shows "map_of m' k = map_of m k"
  using assms
  by (auto simp: applyPatchOperation_def result_simps map_of_update ensureSchema_frame patch_target_frame
      split: if_splits option.splits)

lemma direct_effect:
  assumes "patch_attribute m a op v = Inr m'"
  shows "op = ''remove'' \<Longrightarrow> map_of m' a = None"
    and "op = ''replace'' \<Longrightarrow> map_of m' a = Some v"
    and "op = ''remove'' \<or> op = ''replace'' \<Longrightarrow> has_key m a"
  using assms by (auto simp: patch_attribute_def map_of_update map_of_delete split: if_splits)

section \<open>Value filters\<close>

lemma traverse_Inr_map: "(\<And>x. x \<in> set xs \<Longrightarrow> f x = Inr (g x)) \<Longrightarrow> traverse f xs = Inr (map g xs)"
  by (induction xs) auto

definition selected :: "platform \<Rightarrow> FilterExpression \<Rightarrow> json \<Rightarrow> bool" where
  "selected P e item = (case as_object item of None \<Rightarrow> False | Some m \<Rightarrow> satisfies P e m)"

lemma filter_matches_selected:
  assumes "operators_ok e"
  shows "filter_matches P e items = Inr (map (selected P e) items)"
proof -
  have "traverse (\<lambda>item. case as_object item of None \<Rightarrow> Inr False | Some m \<Rightarrow> matchFilter P (Some e) m) items
    = (Inr (map (selected P e) items) :: bool list result)"
    by (rule traverse_Inr_map)
      (simp add: selected_def matchFilter_def match_expression_sat [OF assms] split: option.split)
  then show ?thesis by (simp add: filter_matches_def)
qed

lemma zip_map_right: "zip xs (map f xs) = map (\<lambda>x. (x, f x)) xs"
  by (induction xs) auto

lemma zip_filter: "map fst (filter (\<lambda>(x, b). \<not> b) (map (\<lambda>x. (x, f x)) xs)) = filter (\<lambda>x. \<not> f x) xs"
  by (induction xs) auto


lemma filtered_cases:
  assumes "applyFilteredPatch P d m path op v = Inr m'"
  obtains items parent resolved e where "map_of m (pp_attribute path) = Some (JArr items)"
    and "resolveAttributeContract P d None (qualifiedPatchAttribute path) = Some (resolved, parent)"
    and "attr_type parent = ''complex''" and "multi_valued parent"
    and "parseValueFilter P (pp_filter path) (sub_attributes parent) = Inr e"
    and "(if \<not> list_ex (selected P e) items then op = ''remove'' \<and> m' = m
      else if op = ''remove'' \<and> pp_sub path = []
      then m' = AList.update (pp_attribute path) (JArr (filter (\<lambda>x. \<not> selected P e x) items)) m
      else \<exists>updated. traverse (patch_element (pp_sub path) op v) (map (\<lambda>x. (x, selected P e x)) items) = Inr updated
        \<and> m' = AList.update (pp_attribute path) (JArr updated) m)"
proof -
  from assms obtain items where "Option.bind (map_of m (pp_attribute path)) as_array = Some items"
    by (auto simp: applyFilteredPatch_def split: option.splits)
  then have a: "map_of m (pp_attribute path) = Some (JArr items)"
    by (auto simp: bind_eq_Some_conv)
  from assms a obtain resolved parent e where
    r: "resolveAttributeContract P d None (qualifiedPatchAttribute path) = Some (resolved, parent)"
    and t: "attr_type parent = ''complex''" "multi_valued parent"
    and e: "parseValueFilter P (pp_filter path) (sub_attributes parent) = Inr e"
    by (auto simp: applyFilteredPatch_def as_array_def result_simps split: option.splits if_splits)
  have "operators_ok e" using e unfolding parseValueFilter_def by (rule parseFilter_operators)
  note f = filter_matches_selected [OF this, of P items]
  have n: "True \<notin> set (map (selected P e) items) \<longleftrightarrow> \<not> list_ex (selected P e) items"
    by (auto simp: list_ex_iff)
  have "if \<not> list_ex (selected P e) items then op = ''remove'' \<and> m' = m
      else if op = ''remove'' \<and> pp_sub path = []
      then m' = AList.update (pp_attribute path) (JArr (filter (\<lambda>x. \<not> selected P e x) items)) m
      else \<exists>updated. traverse (patch_element (pp_sub path) op v) (map (\<lambda>x. (x, selected P e x)) items) = Inr updated
        \<and> m' = AList.update (pp_attribute path) (JArr updated) m"
  proof (cases "list_ex (selected P e) items")
    case False
    with n have "True \<notin> set (map (selected P e) items)" by simp
    from assms [unfolded applyFilteredPatch_def] this False show ?thesis
      by (simp add: a r t e f as_array_def Let_def split: if_splits)
  next
    case True
    with n have "True \<in> set (map (selected P e) items)" by simp
    from assms [unfolded applyFilteredPatch_def] this True show ?thesis
      by (simp add: a r t e f as_array_def Let_def result_simps zip_filter zip_map_right split: if_splits) auto
  qed
  with a r t e show thesis by (rule that)
qed

text \<open>A filtered removal without a sub-attribute: exactly the elements that match are gone.\<close>

lemma filtered_remove:
  assumes "applyFilteredPatch P d m path ''remove'' v = Inr m'" and "pp_sub path = []"
  shows "\<exists>items parent resolved e. map_of m (pp_attribute path) = Some (JArr items)
    \<and> resolveAttributeContract P d None (qualifiedPatchAttribute path) = Some (resolved, parent)
    \<and> parseValueFilter P (pp_filter path) (sub_attributes parent) = Inr e
    \<and> map_of m' (pp_attribute path) = Some (JArr (filter (\<lambda>x. \<not> selected P e x) items))"
proof -
  from assms(1) obtain items parent resolved e where a: "map_of m (pp_attribute path) = Some (JArr items)"
    and r: "resolveAttributeContract P d None (qualifiedPatchAttribute path) = Some (resolved, parent)"
    and e: "parseValueFilter P (pp_filter path) (sub_attributes parent) = Inr e"
    and m: "if \<not> list_ex (selected P e) items then m' = m
      else m' = AList.update (pp_attribute path) (JArr (filter (\<lambda>x. \<not> selected P e x) items)) m"
    by (rule filtered_cases) (use assms(2) in \<open>auto split: if_splits\<close>)
  have "filter (\<lambda>x. \<not> selected P e x) items = items" if "\<not> list_ex (selected P e) items"
    using that by (auto simp: list_ex_iff filter_id_conv)
  with a m have "map_of m' (pp_attribute path) = Some (JArr (filter (\<lambda>x. \<not> selected P e x) items))"
    by (auto simp: map_of_update split: if_splits)
  with a r e show ?thesis by blast
qed

text \<open>Any other filtered operation leaves the elements that do not match as they are, in their places.\<close>

lemma patch_element_unmatched: "patch_element sub op v (x, False) = Inr x"
  by (simp add: patch_element_def split: option.split)

lemma filtered_update:
  assumes "applyFilteredPatch P d m path op v = Inr m'" and "op \<noteq> ''remove'' \<or> pp_sub path \<noteq> []"
  shows "\<exists>items updated parent resolved e. map_of m (pp_attribute path) = Some (JArr items)
    \<and> resolveAttributeContract P d None (qualifiedPatchAttribute path) = Some (resolved, parent)
    \<and> parseValueFilter P (pp_filter path) (sub_attributes parent) = Inr e
    \<and> map_of m' (pp_attribute path) = Some (JArr updated)
    \<and> list_all2 (\<lambda>x y. selected P e x \<or> y = x) items updated"
  using assms(1)
proof (rule filtered_cases)
  fix items parent resolved e
  assume a: "map_of m (pp_attribute path) = Some (JArr items)"
    and r: "resolveAttributeContract P d None (qualifiedPatchAttribute path) = Some (resolved, parent)"
    and e: "parseValueFilter P (pp_filter path) (sub_attributes parent) = Inr e"
    and m: "if \<not> list_ex (selected P e) items then op = ''remove'' \<and> m' = m
      else if op = ''remove'' \<and> pp_sub path = []
      then m' = AList.update (pp_attribute path) (JArr (filter (\<lambda>x. \<not> selected P e x) items)) m
      else \<exists>updated. traverse (patch_element (pp_sub path) op v) (map (\<lambda>x. (x, selected P e x)) items) = Inr updated
        \<and> m' = AList.update (pp_attribute path) (JArr updated) m"
  have "\<exists>updated. map_of m' (pp_attribute path) = Some (JArr updated)
      \<and> list_all2 (\<lambda>x y. selected P e x \<or> y = x) items updated"
  proof (cases "list_ex (selected P e) items")
    case False
    with m a show ?thesis by (auto intro: list_all2_refl)
  next
    case True
    with m assms(2) obtain updated
      where t: "traverse (patch_element (pp_sub path) op v) (map (\<lambda>x. (x, selected P e x)) items) = Inr updated"
        and u: "m' = AList.update (pp_attribute path) (JArr updated) m" by (auto split: if_splits)
    have "list_all2 (\<lambda>x y. selected P e x \<or> y = x) items updated"
      using t unfolding traverse_Inr_iff list_all2_map1
    proof (rule list_all2_mono)
      fix x y assume "patch_element (pp_sub path) op v (x, selected P e x) = Inr y"
      then show "selected P e x \<or> y = x" by (cases "selected P e x") (simp_all add: patch_element_unmatched)
    qed
    with u show ?thesis by (auto simp: map_of_update)
  qed
  with a r e show ?thesis by blast
qed

section \<open>Where paths surprise\<close>

text \<open>
  An empty value filter is no filter: \<^verbatim>\<open>emails[]\<close> names the whole attribute. A path that ends in a
  dot has no sub-attribute. A name that is not among the known spellings keeps the client's case, so a path
  the schema admits may find nothing.
\<close>

definition sample_definition :: ResourceDefinition where
  "sample_definition = hd DefaultDefinitions"

lemma empty_filter_path:
  "parsePatchPath plain_platform sample_definition ''emails[]''
    = Inr \<lparr>pp_extension = [], pp_attribute = ''emails'', pp_filter = [], pp_sub = []\<rparr>"
  by code_simp

lemma trailing_dot_path:
  "parsePatchPath plain_platform sample_definition ''emails.''
    = Inr \<lparr>pp_extension = [], pp_attribute = ''emails'', pp_filter = [], pp_sub = []\<rparr>"
  by code_simp

end
