(* ===== verification/Scim_Patch_Effect.thy ===== *)
theory Scim_Patch_Effect
  imports Scim_Patch_Facts
begin

text \<open>
  What one patch operation without a value filter leaves in its attribute: remove leaves nothing,
  replace the value, add the value or the items that were there followed by the new ones that were
  missing; and repeating an add or a replace changes nothing.
\<close>

section \<open>What add leaves\<close>

definition additions :: "json \<Rightarrow> json list" where
  "additions v = (case v of JArr vs \<Rightarrow> vs | _ \<Rightarrow> [v])"

lemma append_all_new:
  "\<exists>new. foldl append_missing xs vs = xs @ new \<and> set new \<subseteq> set vs
     \<and> (\<forall>v\<in>set new. \<not> containsPatchValue xs v) \<and> different new"
proof (induction vs rule: rev_induct)
  case (snoc v vs)
  then obtain new where new: "foldl append_missing xs vs = xs @ new" "set new \<subseteq> set vs"
    "\<forall>u\<in>set new. \<not> containsPatchValue xs u" "different new" by blast
  show ?case
  proof (cases "containsPatchValue (xs @ new) v")
    case True
    then have "append_missing (xs @ new) v = xs @ new" by (simp add: append_missing_def)
    with new show ?thesis by (intro exI [of _ new]) auto
  next
    case False
    then have "append_missing (xs @ new) v = xs @ new @ [v]" by (simp add: append_missing_def)
    with new have "foldl append_missing xs (vs @ [v]) = xs @ (new @ [v])" by simp
    moreover have "different (new @ [v])"
      using new(4) False by (auto simp: different_def sorted_wrt_append containsPatchValue_def list_ex_iff)
    ultimately show ?thesis using new False contains_append by (intro exI [of _ "new @ [v]"]) auto
  qed
qed (simp add: different_def)

lemma add_merges:
  assumes "map_of m a = Some (JArr items)"
  shows "\<exists>new. map_of (addValue m a v) a = Some (JArr (items @ new)) \<and> set new \<subseteq> set (additions v)
    \<and> (\<forall>u\<in>set (additions v). containsPatchValue (items @ new) u)
    \<and> (\<forall>u\<in>set new. \<not> containsPatchValue items u) \<and> different new"
proof -
  obtain new where n: "foldl append_missing items (additions v) = items @ new"
    and s: "set new \<subseteq> set (additions v)" "\<forall>u\<in>set new. \<not> containsPatchValue items u" "different new"
    using append_all_new by blast
  have "containsPatchValue (items @ new) u" if "u \<in> set (additions v)" for u
    unfolding n [symmetric] by (rule append_all_contains [OF that])
  moreover have "map_of (addValue m a v) a = Some (JArr (items @ new))"
    unfolding n [symmetric] by (simp add: add_value assms additions_def as_array_def)
  ultimately show ?thesis using s by blast
qed

lemma add_sets:
  assumes "\<nexists>items. map_of m a = Some (JArr items)"
  shows "map_of (addValue m a v) a = Some v"
proof -
  have "Option.bind (map_of m a) as_array = None"
    using assms by (cases "map_of m a") (auto simp: as_array_def split: json.split)
  then show ?thesis by (simp add: add_value)
qed

lemma addValue_again: "addValue (addValue m a v) a v = addValue m a v"
proof -
  let ?t = "addValue m a v"
  have "map_of ?t a \<noteq> None" by (simp add: add_value split: option.split)
  then obtain u where u: "map_of ?t a = Some u" by blast
  have "map_of (addValue ?t a v) a = Some u" unfolding add_twice by (fact u)
  then obtain w where w: "addValue ?t a v = AList.update a w ?t" and "map_of (AList.update a w ?t) a = Some u"
    by (auto simp: addValue_def split: option.splits)
  then have "w = u" by (simp add: map_of_update)
  with w u show ?thesis by (simp add: update_triv)
qed

section \<open>Doing it again\<close>

lemma patch_attribute_again:
  assumes "patch_attribute m a op v = Inr m'" and "op = ''add'' \<or> op = ''replace''"
  shows "patch_attribute m' a op v = Inr m'"
  using assms by (auto simp: patch_attribute_def addValue_again map_of_update update_triv split: if_splits)

lemma applyDirectPatch_again:
  assumes "applyDirectPatch m a sub op v = Inr m'" and "op = ''add'' \<or> op = ''replace''"
  shows "applyDirectPatch m' a sub op v = Inr m'"
proof (cases "sub = []")
  case True
  with assms show ?thesis by (simp add: applyDirectPatch_def patch_attribute_again)
next
  case False
  have fresh: "patch_attribute [(sub, v)] sub ''add'' v = Inr [(sub, v)]"
    by (rule patch_attribute_again [of "[]"]) (simp_all add: patch_attribute_def addValue_def)
  show ?thesis
  proof (cases "map_of m a")
    case None
    with assms False fresh show ?thesis
      by (auto simp: applyDirectPatch_def map_of_update update_triv split: if_splits)
  next
    case (Some raw)
    with assms False show ?thesis
      by (auto simp: applyDirectPatch_def result_simps patch_attribute_again map_of_update update_triv
          split: option.splits)
  qed
qed

lemma patch_target_again:
  assumes "patch_target P d m path op v = Inr m'" and "pp_filter path = []" and "op = ''add'' \<or> op = ''replace''"
  shows "patch_target P d m' path op v = Inr m'"
  using assms by (auto simp: patch_target_def applyDirectPatch_again map_of_update update_triv split: if_splits)

text \<open>An add or a replace whose path has no filter may be repeated: the second time changes nothing.\<close>

lemma operation_again:
  assumes "applyPatchOperation P d m op rawPath v = Inr m'" and "parsePatchPath P d rawPath = Inr path"
    and "rawPath \<noteq> []" and "pp_filter path = []" and "op = ''add'' \<or> op = ''replace''"
  shows "applyPatchOperation P d m' op rawPath v = Inr m'"
  using assms
  by (auto simp: applyPatchOperation_def result_simps map_of_update update_triv as_object_def
      patch_target_again split: if_splits option.splits)

lemma operation_direct:
  assumes "applyPatchOperation P d m op rawPath v = Inr m'" and "parsePatchPath P d rawPath = Inr path"
    and "rawPath \<noteq> []" and "pp_extension path = []" and "pp_filter path = []" and "pp_sub path = []"
  shows "patch_attribute m (pp_attribute path) op v = Inr m'
    \<or> pp_attribute path = ''password'' \<and> (op = ''add'' \<or> op = ''replace'')
      \<and> m' = AList.update (pp_attribute path) v m"
  using assms
  by (auto simp: applyPatchOperation_def patch_target_def applyDirectPatch_def split: if_splits)

end
