(* ===== verification/Scim_Sharing.thy ===== *)
theory Scim_Sharing
  imports Scim_Patch_Effect
begin

text \<open>
  Arrays as Go has them, for the one operation where it matters: addValue (patch_apply.go) appends to
  the array an attribute holds, and an attribute holds a slice, an address and a length over a
  backing array whose capacity may exceed the length. A store maps addresses to backing arrays.

  Here addValue agrees with the model of Scim_Patch on the array it changes, and leaves every array
  alone that does not reach beyond its end in the same backing array. A patch that puts one decoded
  array under two elements breaks that condition, and the last lemma shows what happens then.
\<close>

record slice_store =
  ss_arrays :: "(nat \<times> json list) list"
  ss_next :: nat

type_synonym slice = "nat \<times> nat"

definition backing :: "slice_store \<Rightarrow> nat \<Rightarrow> json list" where
  "backing h a = (case map_of (ss_arrays h) a of None \<Rightarrow> [] | Some xs \<Rightarrow> xs)"

definition contents :: "slice_store \<Rightarrow> slice \<Rightarrow> json list" where
  "contents h s = take (snd s) (backing h (fst s))"

definition slice_ok :: "slice_store \<Rightarrow> slice \<Rightarrow> bool" where
  "slice_ok h s \<longleftrightarrow> fst s < ss_next h \<and> snd s \<le> length (backing h (fst s))"

text \<open>
  append writes behind the end while there is capacity and moves the items to a new backing array
  otherwise; how much the new one can hold is for the runtime to choose, and \<open>spare\<close> is what it adds.
\<close>

definition slice_append :: "(nat \<Rightarrow> nat) \<Rightarrow> slice_store \<Rightarrow> slice \<Rightarrow> json \<Rightarrow> slice_store \<times> slice" where
  "slice_append spare h s x =
     (if snd s < length (backing h (fst s))
      then (h\<lparr>ss_arrays := AList.update (fst s) ((backing h (fst s))[snd s := x]) (ss_arrays h)\<rparr>, (fst s, Suc (snd s)))
      else (h\<lparr>ss_arrays := AList.update (ss_next h) (contents h s @ x # replicate (spare (snd s)) JNull) (ss_arrays h),
              ss_next := Suc (ss_next h)\<rparr>,
            (ss_next h, Suc (snd s))))"

definition slice_append_missing :: "(nat \<Rightarrow> nat) \<Rightarrow> slice_store \<times> slice \<Rightarrow> json \<Rightarrow> slice_store \<times> slice" where
  "slice_append_missing spare = (\<lambda>(h, s) x.
     if containsPatchValue (contents h s) x then (h, s) else slice_append spare h s x)"

text \<open>addValue where the attribute holds an array.\<close>

definition slice_addValue :: "(nat \<Rightarrow> nat) \<Rightarrow> slice_store \<Rightarrow> slice \<Rightarrow> json \<Rightarrow> slice_store \<times> slice" where
  "slice_addValue spare h s v = foldl (slice_append_missing spare) (h, s) (additions v)"

section \<open>One append\<close>

lemma backing_update:
  "backing (h\<lparr>ss_arrays := AList.update a xs (ss_arrays h)\<rparr>) b = (if b = a then xs else backing h b)"
  "backing (h\<lparr>ss_arrays := AList.update a xs (ss_arrays h), ss_next := n\<rparr>) b = (if b = a then xs else backing h b)"
  by (simp_all add: backing_def map_of_update)

text \<open>A slice that an append to \<open>s\<close> cannot reach: other storage, or not beyond the end of \<open>s\<close>.\<close>

definition apart :: "slice \<Rightarrow> slice \<Rightarrow> bool" where
  "apart s t \<longleftrightarrow> fst t \<noteq> fst s \<or> snd t \<le> snd s"

lemma slice_append_contents:
  assumes "slice_ok h s" and "slice_append spare h s x = (h', s')"
  shows "contents h' s' = contents h s @ [x]" and "slice_ok h' s'"
  using assms
  by (auto simp: slice_append_def slice_ok_def contents_def backing_update take_Suc_conv_app_nth min_def split: if_splits)

lemma slice_append_frame:
  assumes "slice_ok h s" "slice_ok h t" "apart s t" and "slice_append spare h s x = (h', s')"
  shows "contents h' t = contents h t" and "slice_ok h' t" and "apart s' t"
  using assms
  by (auto simp: slice_append_def slice_ok_def contents_def backing_update apart_def split: if_splits)

section \<open>addValue on slices\<close>

lemma slice_append_all:
  assumes "slice_ok h s" and "foldl (slice_append_missing spare) (h, s) vs = (h', s')"
  shows "contents h' s' = foldl append_missing (contents h s) vs \<and> slice_ok h' s'"
  using assms
proof (induction vs arbitrary: h s)
  case (Cons v vs)
  obtain h1 s1 where one: "slice_append_missing spare (h, s) v = (h1, s1)"
    by (cases "slice_append_missing spare (h, s) v") simp
  then have "contents h1 s1 = append_missing (contents h s) v" and ok: "slice_ok h1 s1"
    using slice_append_contents [OF Cons.prems(1)] Cons.prems(1)
    by (auto simp: slice_append_missing_def append_missing_def split: if_splits)
  with Cons.IH [OF ok] Cons.prems(2) one show ?case by simp
qed simp

lemma slice_append_all_frame:
  assumes "slice_ok h s" and "slice_ok h t" and "apart s t" and "foldl (slice_append_missing spare) (h, s) vs = (h', s')"
  shows "contents h' t = contents h t"
  using assms
proof (induction vs arbitrary: h s)
  case (Cons v vs)
  obtain h1 s1 where one: "slice_append_missing spare (h, s) v = (h1, s1)"
    by (cases "slice_append_missing spare (h, s) v") simp
  then have "slice_ok h1 s1" "slice_ok h1 t" "apart s1 t" "contents h1 t = contents h t"
    using slice_append_contents(2) [OF Cons.prems(1)] slice_append_frame [OF Cons.prems(1-3)] Cons.prems(1-3)
    by (auto simp: slice_append_missing_def split: if_splits)
  with Cons.IH Cons.prems(4) one show ?case by simp
qed simp

text \<open>The array that is added to: as the model of values has it.\<close>

lemma slice_addValue_refines:
  assumes "slice_ok h s" and "slice_addValue spare h s v = (h', s')" and "map_of m a = Some (JArr (contents h s))"
  shows "map_of (addValue m a v) a = Some (JArr (contents h' s'))"
  using slice_append_all [OF assms(1) assms(2) [unfolded slice_addValue_def]] assms(3)
  by (simp add: add_value additions_def as_array_def)

text \<open>Every array apart from it keeps its items.\<close>

lemma slice_addValue_frame:
  assumes "slice_ok h s" and "slice_ok h t" and "apart s t" and "slice_addValue spare h s v = (h', s')"
  shows "contents h' t = contents h t"
  using slice_append_all_frame [OF assms(1-3) assms(4) [unfolded slice_addValue_def]] .

text \<open>
  One array of three items with room for a fourth, held by two attributes: what is added under the
  first and then under the second is written to the same place, so the first holds the item that
  was added to the second.
\<close>

lemma shared_items_overwritten:
  "let h = \<lparr>ss_arrays = [(0, [JStr ''a'', JStr ''b'', JStr ''c'', JNull])], ss_next = 1\<rparr>;
       (h1, s1) = slice_addValue spare h (0, 3) (JStr ''d'');
       (h2, s2) = slice_addValue spare h1 (0, 3) (JStr ''e'')
   in contents h1 s1 = [JStr ''a'', JStr ''b'', JStr ''c'', JStr ''d'']
      \<and> contents h2 s1 = [JStr ''a'', JStr ''b'', JStr ''c'', JStr ''e'']"
  by (simp add: slice_addValue_def slice_append_missing_def slice_append_def contents_def backing_def additions_def
      containsPatchValue_def deep_equal_def)

end
