(* ===== verification/Scim_Reconcile.thy ===== *)
theory Scim_Reconcile
  imports Scim_Server
begin

text \<open>
  Reconciliation (reconcile.go): one manager's desired resources, validated before anything is
  written, then applied in one transaction over any store. Records of other managers are never
  changed, and a tombstoned identity stops the whole operation.

  The maps the transaction builds are association lists; identifiers come from the world, which keeps
  what was taken from it even when the transaction fails.
\<close>

definition MaximumReconcileResources :: int where
  "MaximumReconcileResources = 10000"

record DesiredResource =
  de_type :: string
  de_external :: string
  de_data :: string

record ReconcileRequest =
  rq_rec_scope :: string
  rq_manager :: string
  rq_resources :: "DesiredResource list"
  rq_delete_missing :: bool

record ReconcileResult =
  rr_created :: int
  rr_updated :: int
  rr_deleted :: int
  rr_unchanged :: int

definition no_changes :: ReconcileResult where
  "no_changes = \<lparr>rr_created = 0, rr_updated = 0, rr_deleted = 0, rr_unchanged = 0\<rparr>"

section \<open>Preparation\<close>

record preparedDesired =
  pd_definition :: ResourceDefinition
  pd_external :: string
  pd_document :: document
  pd_indexes :: "IndexKey list"

definition identity_key :: "string \<Rightarrow> string \<Rightarrow> string" where
  "identity_key resourceType externalID = resourceType @ CHR 0x00 # externalID"

definition prepare_desired :: "platform \<Rightarrow> ResourceDefinition \<Rightarrow> DesiredResource \<Rightarrow> preparedDesired result" where
  "prepare_desired P definition desired =
     and_then (DecodeDocument P (de_data desired)) (\<lambda>document.
     and_then (prepareResource P definition (AList.update ''externalId'' (JStr (de_external desired)) document) CreateMode [])
       (\<lambda>(normalized, indexes, externalID).
         Inr \<lparr>pd_definition = definition, pd_external = externalID, pd_document = normalized, pd_indexes = indexes\<rparr>))"

fun prepare_all :: "platform \<Rightarrow> Registry \<Rightarrow> DesiredResource list \<Rightarrow> string list \<Rightarrow> preparedDesired list result" where
  "prepare_all P registry [] seen = Inr []"
| "prepare_all P registry (desired # rest) seen =
     (case definitionByName (Some registry) (de_type desired) of
        None \<Rightarrow> Inl (OtherError ''desired resource identity is invalid'')
      | Some definition \<Rightarrow>
          if de_external desired = [] \<or> \<not> validString (de_external desired) maximumStringBytes
          then Inl (OtherError ''desired resource identity is invalid'')
          else
            let key = identity_key (de_type desired) (de_external desired) in
            if List.member seen key then Inl (OtherError ''desired external identity is duplicated'')
            else
              and_then (prepare_desired P definition desired) (\<lambda>p.
              and_then (prepare_all P registry rest (key # seen)) (\<lambda>ps. Inr (p # ps))))"

text \<open>By name of the definition, then by external identity.\<close>

definition sort_prepared :: "preparedDesired list \<Rightarrow> preparedDesired list" where
  "sort_prepared ps = sort_key (\<lambda>p. def_name (pd_definition p)) (sort_key pd_external ps)"

section \<open>The state the transaction starts from\<close>

record reconcile_maps =
  rm_live :: "(string \<times> Record) list"
  rm_managed :: "(string \<times> Record) list"
  rm_tombstoned :: "string list"

definition note_record :: "string \<Rightarrow> Record \<Rightarrow> reconcile_maps \<Rightarrow> reconcile_maps result" where
  "note_record manager r m =
     (if rec_external r = [] then Inr m
      else
        let key = identity_key (rec_type r) (rec_external r) in
        if has_key (rm_live m) key then Inl (OtherError ''store returned duplicate external identity'')
        else Inr (m\<lparr>rm_live := AList.update key r (rm_live m),
                    rm_managed := (if rec_manager r = manager then AList.update key r (rm_managed m) else rm_managed m)\<rparr>))"

definition note_tombstones :: "Tombstone list \<Rightarrow> reconcile_maps \<Rightarrow> reconcile_maps" where
  "note_tombstones ts m =
     m\<lparr>rm_tombstoned :=
       map (\<lambda>t. identity_key (tomb_type t) (tomb_external t)) (filter (\<lambda>t. tomb_external t \<noteq> []) ts) @ rm_tombstoned m\<rparr>"

definition note_definition :: "'s tx_ops \<Rightarrow> 's \<Rightarrow> string \<Rightarrow> string \<Rightarrow> ResourceDefinition \<Rightarrow> reconcile_maps
    \<Rightarrow> reconcile_maps result" where
  "note_definition ops s scope manager definition m =
     and_then (tx_list ops s \<lparr>q_scope = scope, q_type = def_name definition, q_attribute = [], q_value = [],
         q_limit = MaximumReconcileResources\<rparr>) (\<lambda>rs.
     and_then (for_each (note_record manager) rs m) (\<lambda>m.
     and_then (tx_tombstones ops s scope (def_name definition)) (\<lambda>ts.
       Inr (note_tombstones ts m))))"

definition note_all :: "'s tx_ops \<Rightarrow> 's \<Rightarrow> string \<Rightarrow> string \<Rightarrow> ResourceDefinition list \<Rightarrow> reconcile_maps result" where
  "note_all ops s scope manager definitions =
     for_each (note_definition ops s scope manager) definitions
       \<lparr>rm_live = [], rm_managed = [], rm_tombstoned = []\<rparr>"

section \<open>The changes\<close>

record 's reconcile_state =
  rs_result :: ReconcileResult
  rs_managed :: "(string \<times> Record) list"
  rs_store :: 's

definition create_desired :: "platform \<Rightarrow> 's tx_ops \<Rightarrow> string \<Rightarrow> string \<Rightarrow> int \<Rightarrow> preparedDesired \<Rightarrow> string
    \<Rightarrow> 's reconcile_state \<Rightarrow> 's reconcile_state result" where
  "create_desired P ops scope manager now p i st =
     and_then (newRecord P scope manager (def_name (pd_definition p)) i (pd_external p) (pd_document p) (pd_indexes p) now None) (\<lambda>r.
     and_then (tx_create ops r (rs_store st)) (\<lambda>s.
       Inr (st\<lparr>rs_store := s, rs_result := (rs_result st)\<lparr>rr_created := rr_created (rs_result st) + 1\<rparr>\<rparr>)))"

definition update_desired :: "platform \<Rightarrow> 's tx_ops \<Rightarrow> int \<Rightarrow> preparedDesired \<Rightarrow> string \<Rightarrow> Record
    \<Rightarrow> 's reconcile_state \<Rightarrow> 's reconcile_state result" where
  "update_desired P ops now p key existing st =
     and_then (replacementRecord P existing (pd_external p) (pd_document p) (pd_indexes p) now None) (\<lambda>(updated, changed).
       if \<not> changed then
         Inr (st\<lparr>rs_managed := AList.delete key (rs_managed st),
                 rs_result := (rs_result st)\<lparr>rr_unchanged := rr_unchanged (rs_result st) + 1\<rparr>\<rparr>)
       else
         and_then (tx_replace ops updated (rec_version existing) (rs_store st)) (\<lambda>s.
           Inr (st\<lparr>rs_store := s, rs_managed := AList.delete key (rs_managed st),
                   rs_result := (rs_result st)\<lparr>rr_updated := rr_updated (rs_result st) + 1\<rparr>\<rparr>)))"

fun apply_desired :: "platform \<Rightarrow> 's tx_ops \<Rightarrow> string \<Rightarrow> string \<Rightarrow> int \<Rightarrow> reconcile_maps \<Rightarrow> preparedDesired list
    \<Rightarrow> world \<Rightarrow> 's reconcile_state \<Rightarrow> 's reconcile_state result \<times> world" where
  "apply_desired P ops scope manager now m [] w st = (Inr st, w)"
| "apply_desired P ops scope manager now m (p # ps) w st =
     (let key = identity_key (def_name (pd_definition p)) (pd_external p) in
      if List.member (rm_tombstoned m) key then (Inl ErrTombstoned, w)
      else
        (case map_of (rm_live m) key of
           Some existing \<Rightarrow>
             if rec_manager existing \<noteq> manager then (Inl ErrConflict, w)
             else
               (case update_desired P ops now p key existing st of
                  Inl e \<Rightarrow> (Inl e, w)
                | Inr st \<Rightarrow> apply_desired P ops scope manager now m ps w st)
         | None \<Rightarrow>
             (case next_id w of
                (Inl e, w) \<Rightarrow> (Inl e, w)
              | (Inr i, w) \<Rightarrow>
                  (case create_desired P ops scope manager now p i st of
                     Inl e \<Rightarrow> (Inl e, w)
                   | Inr st \<Rightarrow> apply_desired P ops scope manager now m ps w st))))"

definition delete_managed :: "'s tx_ops \<Rightarrow> int \<Rightarrow> string \<times> Record \<Rightarrow> 's reconcile_state \<Rightarrow> 's reconcile_state result" where
  "delete_managed ops now = (\<lambda>(key, r) st.
     and_then (tx_delete ops (rec_scope r) (rec_type r) (rec_id r) (rec_version r) (tombstone_of r now) (rs_store st)) (\<lambda>s.
       Inr (st\<lparr>rs_store := s, rs_result := (rs_result st)\<lparr>rr_deleted := rr_deleted (rs_result st) + 1\<rparr>\<rparr>)))"

definition delete_missing :: "'s tx_ops \<Rightarrow> bool \<Rightarrow> int \<Rightarrow> 's reconcile_state \<Rightarrow> 's reconcile_state result" where
  "delete_missing ops wanted now st =
     (if wanted then for_each (delete_managed ops now) (rs_managed st) st else Inr st)"

definition reconcile_in :: "platform \<Rightarrow> 's tx_ops \<Rightarrow> Registry \<Rightarrow> ReconcileRequest \<Rightarrow> preparedDesired list \<Rightarrow> int
    \<Rightarrow> world \<Rightarrow> 's \<Rightarrow> (ReconcileResult \<times> 's) result \<times> world" where
  "reconcile_in P ops registry request prepared now w s =
     (case note_all ops s (rq_rec_scope request) (rq_manager request) (registry_definitions (Some registry)) of
        Inl e \<Rightarrow> (Inl e, w)
      | Inr m \<Rightarrow>
          (case apply_desired P ops (rq_rec_scope request) (rq_manager request) now m prepared w
                  \<lparr>rs_result = no_changes, rs_managed = rm_managed m, rs_store = s\<rparr> of
             (Inl e, w) \<Rightarrow> (Inl e, w)
           | (Inr st, w) \<Rightarrow>
               (and_then (delete_missing ops (rq_delete_missing request) now st) (\<lambda>st. Inr (rs_result st, rs_store st)), w)))"

definition reconcile_input :: "platform \<Rightarrow> Registry \<Rightarrow> ReconcileRequest \<Rightarrow> preparedDesired list result" where
  "reconcile_input P registry request =
     (if rq_rec_scope request = [] \<or> \<not> validString (rq_rec_scope request) 1024 \<or> rq_manager request = []
         \<or> \<not> validString (rq_manager request) 1024 \<or> MaximumReconcileResources < int (length (rq_resources request))
      then Inl (OtherError ''reconciliation boundary is invalid'')
      else and_then (prepare_all P registry (rq_resources request) []) (\<lambda>ps. Inr (sort_prepared ps)))"

definition Reconcile :: "platform \<Rightarrow> 's tx_ops \<Rightarrow> Registry \<Rightarrow> ctx \<Rightarrow> ReconcileRequest \<Rightarrow> world \<Rightarrow> 's
    \<Rightarrow> ReconcileResult result \<times> world \<times> 's" where
  "Reconcile P ops registry ctx request w s =
     (case reconcile_input P registry request of
        Inl e \<Rightarrow> (Inl e, w, s)
      | Inr prepared \<Rightarrow>
          (case currentTime w of
             (Inl _, w) \<Rightarrow> (Inl (OtherError ''reconciliation clock returned zero time''), w, s)
           | (Inr now, w) \<Rightarrow>
               (case Transact ctx (\<lambda>s. fst (reconcile_in P ops registry request prepared now w s)) s of
                  (r, s') \<Rightarrow>
                    (r, if fst ctx = None then snd (reconcile_in P ops registry request prepared now w s) else w, s'))))"

section \<open>The reconciler\<close>

text \<open>
  What NewReconciler returns: its store and registry, and the clock and entropy it draws on, those of
  the system where the caller gives none. A nil reconciler refuses every request.
\<close>

record 's Reconciler =
  rn_store :: "'s tx_ops"
  rn_registry :: Registry
  rn_world :: world

definition NewReconciler :: "world \<Rightarrow> 's tx_ops option \<Rightarrow> Registry option \<Rightarrow> (nat \<Rightarrow> int) option \<Rightarrow> string option
    \<Rightarrow> 's Reconciler result" where
  "NewReconciler system store registry clock entropy =
     (case (store, registry) of
        (Some ops, Some r) \<Rightarrow>
          Inr \<lparr>rn_store = ops, rn_registry = r,
               rn_world = system\<lparr>w_clock := case_option (w_clock system) id clock,
                                 w_entropy := (if entropy = None then w_entropy system else entropy)\<rparr>\<rparr>
      | _ \<Rightarrow> Inl (OtherError ''reconciler store and registry are required''))"

definition reconciler_Reconcile :: "platform \<Rightarrow> 's Reconciler option \<Rightarrow> ctx \<Rightarrow> ReconcileRequest \<Rightarrow> 's
    \<Rightarrow> ReconcileResult result \<times> 's Reconciler option \<times> 's" where
  "reconciler_Reconcile P reconciler ctx request s =
     (case reconciler of
        None \<Rightarrow> (Inl (OtherError ''reconciliation boundary is invalid''), None, s)
      | Some rn \<Rightarrow>
          (case Reconcile P (rn_store rn) (rn_registry rn) ctx request (rn_world rn) s of
             (r, w, s') \<Rightarrow> (r, Some (rn\<lparr>rn_world := w\<rparr>), s')))"

end
