(* ===== verification/Scim_Reconcile_Facts.thy ===== *)
theory Scim_Reconcile_Facts
  imports Scim_Reconcile
begin

text \<open>
  What a successful reconciliation leaves behind, over any store that keeps the contract: every
  desired resource is there with its data, records of other managers and of other scopes are
  as they were, and after a run that deletes what is missing the manager's external identities are
  exactly the desired ones.
\<close>

section \<open>Identities\<close>

definition record_key :: "Record \<Rightarrow> string" where
  "record_key r = identity_key (rec_type r) (rec_external r)"

definition desired_key :: "preparedDesired \<Rightarrow> string" where
  "desired_key p = identity_key (def_name (pd_definition p)) (pd_external p)"

lemma identity_key_inject:
  assumes "validName t" and "validName u"
  shows "identity_key t x = identity_key u y \<longleftrightarrow> t = u \<and> x = y"
proof
  assume k: "identity_key t x = identity_key u y"
  have take: "takeWhile (\<lambda>c. c \<noteq> CHR 0x00) (identity_key t x) = t" if "validName t" for t x
    using name_no_nul [OF that] unfolding identity_key_def
    by (subst takeWhile_append2) auto
  from take [OF assms(1), of x] take [OF assms(2), of y] k have "t = u" by metis
  with k show "t = u \<and> x = y" by (simp add: identity_key_def)
qed auto

text \<open>The resource of a desired identity, with the data asked for.\<close>

definition holds_desired :: "'s tx_ops \<Rightarrow> string \<Rightarrow> string \<Rightarrow> 's \<Rightarrow> preparedDesired \<Rightarrow> bool" where
  "holds_desired ops scope manager s p \<longleftrightarrow>
     (\<exists>r. tx_get ops s scope (rec_type r) (rec_id r) = Inr r \<and> record_key r = desired_key p
        \<and> rec_manager r = manager \<and> canonicalDocument (pd_document p) = Inr (rec_data r))"

text \<open>Records outside the scope, or of other managers, are as they were.\<close>

definition spares :: "'s tx_ops \<Rightarrow> string \<Rightarrow> string \<Rightarrow> 's \<Rightarrow> 's \<Rightarrow> bool" where
  "spares ops scope manager s t \<longleftrightarrow>
     (\<forall>sc ty i r. tx_get ops s sc ty i = Inr r \<longrightarrow> sc \<noteq> scope \<or> rec_manager r \<noteq> manager
        \<longrightarrow> tx_get ops t sc ty i = Inr r)"

text \<open>Every managed identity of the types is among the keys, or is one of the records listed.\<close>

definition accounted :: "'s tx_ops \<Rightarrow> string \<Rightarrow> string \<Rightarrow> string set \<Rightarrow> 's \<Rightarrow> string set \<Rightarrow> (string \<times> Record) set \<Rightarrow> bool" where
  "accounted ops scope manager types s ks rs \<longleftrightarrow>
     (\<forall>ty i r. ty \<in> types \<longrightarrow> tx_get ops s scope ty i = Inr r \<longrightarrow> rec_manager r = manager \<longrightarrow> rec_external r \<noteq> []
        \<longrightarrow> record_key r \<in> ks \<or> (record_key r, r) \<in> rs)"

text \<open>What the maps hold about the store they were read from.\<close>

definition noted :: "'s tx_ops \<Rightarrow> 's \<Rightarrow> string \<Rightarrow> string \<Rightarrow> string set \<Rightarrow> reconcile_maps \<Rightarrow> bool" where
  "noted ops s scope manager types m \<longleftrightarrow>
     (\<forall>k r. map_of (rm_live m) k = Some r \<longrightarrow>
        k = record_key r \<and> rec_scope r = scope \<and> tx_get ops s scope (rec_type r) (rec_id r) = Inr r)
     \<and> (\<forall>k r. map_of (rm_managed m) k = Some r \<longleftrightarrow> map_of (rm_live m) k = Some r \<and> rec_manager r = manager)
     \<and> distinct (keys (rm_managed m))
     \<and> (\<forall>ty i r. ty \<in> types \<longrightarrow> tx_get ops s scope ty i = Inr r \<longrightarrow> rec_external r \<noteq> []
          \<longrightarrow> map_of (rm_live m) (record_key r) = Some r)"

lemma note_tombstones_same [simp]:
  "rm_live (note_tombstones ts m) = rm_live m" "rm_managed (note_tombstones ts m) = rm_managed m"
  by (simp_all add: note_tombstones_def)

context transactions
begin

section \<open>Reading the state\<close>

lemma note_records:
  assumes "for_each (note_record manager) rs m = Inr m'" and "noted ops s scope manager {} m"
    and "\<And>r. r \<in> set rs \<Longrightarrow> rec_scope r = scope \<and> tx_get ops s scope (rec_type r) (rec_id r) = Inr r"
  shows "noted ops s scope manager {} m' \<and> (\<forall>k r. map_of (rm_live m) k = Some r \<longrightarrow> map_of (rm_live m') k = Some r)
    \<and> (\<forall>r \<in> set rs. rec_external r \<noteq> [] \<longrightarrow> map_of (rm_live m') (record_key r) = Some r)"
  using assms
proof (induction rs arbitrary: m)
  case (Cons r rs)
  from Cons.prems(1) obtain m1 where n: "note_record manager r m = Inr m1"
    and rest: "for_each (note_record manager) rs m1 = Inr m'" by (auto simp: result_simps)
  have m1: "noted ops s scope manager {} m1 \<and> (\<forall>k q. map_of (rm_live m) k = Some q \<longrightarrow> map_of (rm_live m1) k = Some q)
    \<and> (rec_external r \<noteq> [] \<longrightarrow> map_of (rm_live m1) (record_key r) = Some r)"
  proof (cases "rec_external r = []")
    case True
    with n Cons.prems(2) show ?thesis by (simp add: note_record_def)
  next
    case False
    with n have new: "map_of (rm_live m) (record_key r) = None"
      and m1: "m1 = m\<lparr>rm_live := AList.update (record_key r) r (rm_live m),
        rm_managed := (if rec_manager r = manager then AList.update (record_key r) r (rm_managed m) else rm_managed m)\<rparr>"
      by (auto simp: note_record_def record_key_def Let_def split: if_splits)
    have "map_of (rm_managed m) (record_key r) = None"
      using Cons.prems(2) new by (cases "map_of (rm_managed m) (record_key r)") (auto simp: noted_def)
    with new Cons.prems(2) Cons.prems(3) [of r] show ?thesis
      unfolding noted_def m1 by (auto simp: map_of_update distinct_update simp del: map_of_eq_Some_iff)
  qed
  from Cons.IH [OF rest conjunct1 [OF m1]] Cons.prems(3) m1 show ?case by auto
qed simp

lemma note_definitions:
  assumes "inv s" and "for_each (note_definition ops s scope manager) ds m = Inr m'" and "noted ops s scope manager {} m"
  shows "noted ops s scope manager {} m' \<and> (\<forall>k r. map_of (rm_live m) k = Some r \<longrightarrow> map_of (rm_live m') k = Some r)
    \<and> (\<forall>d \<in> set ds. \<forall>i r. tx_get ops s scope (def_name d) i = Inr r \<longrightarrow> rec_external r \<noteq> []
        \<longrightarrow> map_of (rm_live m') (record_key r) = Some r)"
  using assms(2,3)
proof (induction ds arbitrary: m)
  case (Cons d ds)
  let ?q = "\<lparr>q_scope = scope, q_type = def_name d, q_attribute = [], q_value = [], q_limit = MaximumReconcileResources\<rparr>"
  from Cons.prems(1) obtain m1 where d: "note_definition ops s scope manager d m = Inr m1"
    and r1: "for_each (note_definition ops s scope manager) ds m1 = Inr m'" by (auto simp: result_simps)
  from d obtain rs m0 ts where l: "tx_list ops s ?q = Inr rs"
    and n: "for_each (note_record manager) rs m = Inr m0" and m1: "m1 = note_tombstones ts m0"
    by (auto simp: note_definition_def result_simps)
  note rest = r1 [unfolded m1]
  have mem: "r \<in> set rs \<longleftrightarrow> tx_get ops s scope (def_name d) (rec_id r) = Inr r \<and> query_matches P ?q r" for r
    using list_sound [OF assms(1) l] by simp
  have sound: "rec_scope r = scope \<and> tx_get ops s scope (rec_type r) (rec_id r) = Inr r" if "r \<in> set rs" for r
    using that mem get_sound [OF assms(1), of scope "def_name d" "rec_id r" r] by auto
  note m0 = note_records [OF n Cons.prems(2) sound]
  then have "noted ops s scope manager {} (note_tombstones ts m0)" by (simp add: noted_def)
  note ih = Cons.IH [OF rest this]
  have "map_of (rm_live m0) (record_key r) = Some r"
    if "tx_get ops s scope (def_name d) i = Inr r" and "rec_external r \<noteq> []" for i r
  proof -
    from get_sound [OF assms(1) that(1)] that(1) have "r \<in> set rs" by (auto simp: mem query_matches_def)
    with m0 that(2) show ?thesis by blast
  qed
  with ih m0 show ?case by auto
qed simp

lemma note_all_noted:
  assumes "inv s" and "note_all ops s scope manager ds = Inr m"
  shows "noted ops s scope manager (def_name ` set ds) m"
proof -
  have "noted ops s scope manager {} \<lparr>rm_live = [], rm_managed = [], rm_tombstoned = []\<rparr>" by (simp add: noted_def)
  from note_definitions [OF assms(1) assms(2) [unfolded note_all_def] this] show ?thesis
    by (auto simp: noted_def)
qed

section \<open>Applying the desired resources\<close>

text \<open>The state of the loop after the resources \<open>qs\<close>, for a store it started from.\<close>

definition reconciling :: "string \<Rightarrow> string \<Rightarrow> string set \<Rightarrow> 's \<Rightarrow> reconcile_maps \<Rightarrow> preparedDesired set \<Rightarrow> 's reconcile_state \<Rightarrow> bool" where
  "reconciling scope manager types s0 m qs st \<longleftrightarrow>
     inv (rs_store st)
     \<and> (\<forall>k r. map_of (rm_live m) k = Some r \<longrightarrow> k \<notin> desired_key ` qs
          \<longrightarrow> tx_get ops (rs_store st) scope (rec_type r) (rec_id r) = Inr r)
     \<and> (\<forall>q \<in> qs. holds_desired ops scope manager (rs_store st) q)
     \<and> (\<forall>k r. map_of (rs_managed st) k = Some r \<longleftrightarrow> map_of (rm_managed m) k = Some r \<and> k \<notin> desired_key ` qs)
     \<and> distinct (keys (rs_managed st))
     \<and> accounted ops scope manager types (rs_store st) (desired_key ` qs) {(k, r). map_of (rs_managed st) k = Some r}
     \<and> spares ops scope manager s0 (rs_store st)"

text \<open>
  Storing the record of one more desired resource, at a place that is free or holds the live record of
  that identity, or leaving that record as it is.
\<close>

lemma put_desired:
  assumes "reconciling scope manager types s0 m qs st" and "noted ops s0 scope manager types m"
    and "desired_key p \<notin> desired_key ` qs"
    and r: "rec_scope r = scope" "rec_manager r = manager" "record_key r = desired_key p"
      "canonicalDocument (pd_document p) = Inr (rec_data r)"
    and "inv (rs_store st')"
    and get: "\<And>sc ty i. tx_get ops (rs_store st') sc ty i =
      (if sc = scope \<and> ty = rec_type r \<and> i = rec_id r then Inr r else tx_get ops (rs_store st) sc ty i)"
    and old: "\<And>e. tx_get ops (rs_store st) scope (rec_type r) (rec_id r) = Inr e \<Longrightarrow>
      map_of (rm_live m) (desired_key p) = Some e \<and> rec_manager e = manager"
    and managed: "map_of (rs_managed st') = (map_of (rs_managed st))(desired_key p := None)" "distinct (keys (rs_managed st'))"
  shows "reconciling scope manager types s0 m (insert p qs) st'"
proof -
  let ?k = "desired_key p"
  have key: "record_key e = ?k" if "tx_get ops (rs_store st) scope (rec_type r) (rec_id r) = Inr e" for e
    using old [OF that] assms(2) by (auto simp: noted_def)
  note a = assms(1) [unfolded reconciling_def]
  have keep: "tx_get ops (rs_store st') scope ty i = Inr x"
    if "tx_get ops (rs_store st) scope ty i = Inr x" and "record_key x \<noteq> ?k" for ty i x
    using that key by (cases "ty = rec_type r \<and> i = rec_id r") (auto simp: get)
  show ?thesis
    unfolding reconciling_def
  proof (intro conjI)
    show "inv (rs_store st')" by fact
    show "\<forall>k x. map_of (rm_live m) k = Some x \<longrightarrow> k \<notin> desired_key ` insert p qs
        \<longrightarrow> tx_get ops (rs_store st') scope (rec_type x) (rec_id x) = Inr x"
    proof (intro allI impI)
      fix k x assume x: "map_of (rm_live m) k = Some x" and "k \<notin> desired_key ` insert p qs"
      then have k: "k \<noteq> ?k" "k \<notin> desired_key ` qs" by simp_all
      with x a have "tx_get ops (rs_store st) scope (rec_type x) (rec_id x) = Inr x" by blast
      moreover have "record_key x \<noteq> ?k" using x k(1) assms(2) unfolding noted_def by blast
      ultimately show "tx_get ops (rs_store st') scope (rec_type x) (rec_id x) = Inr x" by (rule keep)
    qed
    show "\<forall>q \<in> insert p qs. holds_desired ops scope manager (rs_store st') q"
    proof
      fix q assume "q \<in> insert p qs"
      then consider "q = p" | "q \<in> qs" by blast
      then show "holds_desired ops scope manager (rs_store st') q"
      proof cases
        case 1
        with r show ?thesis by (auto simp: holds_desired_def get)
      next
        case 2
        with assms(3) have "desired_key q \<noteq> ?k" by (metis imageI)
        with 2 a keep show ?thesis unfolding holds_desired_def by metis
      qed
    qed
    show "\<forall>k x. map_of (rs_managed st') k = Some x \<longleftrightarrow> map_of (rm_managed m) k = Some x \<and> k \<notin> desired_key ` insert p qs"
      using a by (simp add: managed(1) del: map_of_eq_Some_iff)
    show "distinct (keys (rs_managed st'))" by fact
    show "accounted ops scope manager types (rs_store st') (desired_key ` insert p qs)
        {(k, r). map_of (rs_managed st') k = Some r}"
      unfolding accounted_def
    proof (intro allI impI)
      fix ty i x assume x: "ty \<in> types" "tx_get ops (rs_store st') scope ty i = Inr x" "rec_manager x = manager" "rec_external x \<noteq> []"
      show "record_key x \<in> desired_key ` insert p qs \<or> (record_key x, x) \<in> {(k, r). map_of (rs_managed st') k = Some r}"
      proof (cases "ty = rec_type r \<and> i = rec_id r")
        case True
        with x(2) r(3) show ?thesis by (simp add: get)
      next
        case False
        with x(2) have "tx_get ops (rs_store st) scope ty i = Inr x" by (simp add: get split: if_splits)
        with x a have "record_key x \<in> desired_key ` qs \<or> map_of (rs_managed st) (record_key x) = Some x"
          unfolding accounted_def by blast
        then show ?thesis by (auto simp: managed(1) simp del: map_of_eq_Some_iff)
      qed
    qed
    show "spares ops scope manager s0 (rs_store st')"
      unfolding spares_def
    proof (intro allI impI)
      fix sc ty i x assume x: "tx_get ops s0 sc ty i = Inr x" and o: "sc \<noteq> scope \<or> rec_manager x \<noteq> manager"
      then have g: "tx_get ops (rs_store st) sc ty i = Inr x" using a unfolding spares_def by blast
      show "tx_get ops (rs_store st') sc ty i = Inr x"
      proof (cases "sc = scope \<and> ty = rec_type r \<and> i = rec_id r")
        case True
        with g old o show ?thesis by auto
      next
        case False
        with g show ?thesis by (auto simp: get)
      qed
    qed
  qed
qed

lemma create_desired_step:
  assumes "reconciling scope manager types s0 m qs st" and "noted ops s0 scope manager types m"
    and "desired_key p \<notin> desired_key ` qs" and "map_of (rm_live m) (desired_key p) = None"
    and "create_desired P ops scope manager now p i st = Inr st'"
  shows "reconciling scope manager types s0 m (insert p qs) st'"
proof -
  from assms(5) obtain r s where n: "newRecord P scope manager (def_name (pd_definition p)) i (pd_external p)
      (pd_document p) (pd_indexes p) now None = Inr r"
    and c: "tx_create ops r (rs_store st) = Inr s"
    and st': "rs_store st' = s" "rs_managed st' = rs_managed st"
    by (auto simp: create_desired_def result_simps)
  have inv: "inv (rs_store st)" and d: "distinct (keys (rs_managed st))"
    using assms(1) by (simp_all add: reconciling_def)
  note r = newRecord_ok [OF n]
  have none: "map_of (rs_managed st) (desired_key p) = None"
    using assms(1,2,4) by (cases "map_of (rs_managed st) (desired_key p)") (auto simp: reconciling_def noted_def)
  show ?thesis
  proof (rule put_desired [OF assms(1-3), of r])
    show "record_key r = desired_key p" by (simp add: record_key_def desired_key_def r)
    show "inv (rs_store st')" using create_inv [OF inv c] st'(1) by simp
    show "tx_get ops (rs_store st') sc ty i =
        (if sc = scope \<and> ty = rec_type r \<and> i = rec_id r then Inr r else tx_get ops (rs_store st) sc ty i)" for sc ty i
      using create_get [OF inv c] r(2) st'(1) by simp
    show "map_of (rm_live m) (desired_key p) = Some e \<and> rec_manager e = manager"
      if "tx_get ops (rs_store st) scope (rec_type r) (rec_id r) = Inr e" for e
      using that create_fresh [OF inv c, of scope "rec_type r"] by simp
    show "map_of (rs_managed st') = (map_of (rs_managed st))(desired_key p := None)" using none st'(2) by auto
    show "distinct (keys (rs_managed st'))" using d st'(2) by simp
  qed (use r in simp_all)
qed

lemma update_desired_step:
  assumes "reconciling scope manager types s0 m qs st" and "noted ops s0 scope manager types m"
    and "desired_key p \<notin> desired_key ` qs" and "map_of (rm_live m) (desired_key p) = Some e" and "rec_manager e = manager"
    and "update_desired P ops now p (desired_key p) e st = Inr st'" and "validName (def_name (pd_definition p))"
  shows "reconciling scope manager types s0 m (insert p qs) st'"
proof -
  have e: "record_key e = desired_key p" "rec_scope e = scope"
    using assms(2,4) by (auto simp: noted_def)
  have inv: "inv (rs_store st)" and d: "distinct (keys (rs_managed st))"
    and g: "tx_get ops (rs_store st) scope (rec_type e) (rec_id e) = Inr e"
    using assms(1,3,4) by (auto simp: reconciling_def)
  from assms(6) obtain r changed where r: "replacementRecord P e (pd_external p) (pd_document p) (pd_indexes p) now None = Inr (r, changed)"
    and w: "(if \<not> changed then
         Inr (st\<lparr>rs_managed := AList.delete (desired_key p) (rs_managed st),
                 rs_result := (rs_result st)\<lparr>rr_unchanged := rr_unchanged (rs_result st) + 1\<rparr>\<rparr>)
       else
         and_then (tx_replace ops r (rec_version e) (rs_store st)) (\<lambda>s.
           Inr (st\<lparr>rs_store := s, rs_managed := AList.delete (desired_key p) (rs_managed st),
                   rs_result := (rs_result st)\<lparr>rr_updated := rr_updated (rs_result st) + 1\<rparr>\<rparr>))) = Inr st'"
    by (auto simp: update_desired_def result_simps simp del: not_True_eq_False)
  have s: "if changed then tx_replace ops r (rec_version e) (rs_store st) = Inr (rs_store st') else rs_store st' = rs_store st"
    and st': "rs_managed st' = AList.delete (desired_key p) (rs_managed st)"
    using w by (cases changed; auto simp: result_simps)+
  note n = replacementRecord_ok [OF r]
  have "validName (rec_type e)" using get_sound [OF inv g] record_ok_fields(2) by blast
  from identity_key_inject [OF this assms(7)] e(1) have ext: "rec_external e = pd_external p"
    by (simp add: record_key_def desired_key_def)
  show ?thesis
  proof (rule put_desired [OF assms(1-3), of r])
    show "record_key r = desired_key p" using e(1) n(2,8) ext by (simp add: record_key_def)
    show "inv (rs_store st')" using s replace_inv [OF inv] inv by (cases changed) auto
    show "tx_get ops (rs_store st') sc ty i =
        (if sc = scope \<and> ty = rec_type r \<and> i = rec_id r then Inr r else tx_get ops (rs_store st) sc ty i)" for sc ty i
    proof (cases changed)
      case True
      with s replace_get [OF inv] n(1) e(2) show ?thesis by simp
    next
      case False
      with s g n(6) show ?thesis by simp
    qed
    show "map_of (rm_live m) (desired_key p) = Some x \<and> rec_manager x = manager"
      if "tx_get ops (rs_store st) scope (rec_type r) (rec_id r) = Inr x" for x
      using that g n(2,3) assms(4,5) by simp
    show "map_of (rs_managed st') = (map_of (rs_managed st))(desired_key p := None)" by (simp add: st' map_of_delete)
    show "distinct (keys (rs_managed st'))" using d by (simp add: st' keys_delete)
  qed (use n e assms(5) in simp_all)
qed

lemma apply_desired_steps:
  assumes "apply_desired P ops scope manager now m ps w st = (Inr st', w')"
    and "reconciling scope manager types s0 m qs st" and "noted ops s0 scope manager types m"
    and "distinct (map desired_key ps)" and "desired_key ` set ps \<inter> desired_key ` qs = {}"
    and "\<And>p. p \<in> set ps \<Longrightarrow> validName (def_name (pd_definition p))"
  shows "reconciling scope manager types s0 m (qs \<union> set ps) st'
    \<and> (\<forall>p \<in> set ps. desired_key p \<notin> set (rm_tombstoned m))"
  using assms
proof (induction ps arbitrary: w st qs)
  case (Cons p ps)
  have key: "identity_key (def_name (pd_definition p)) (pd_external p) = desired_key p" by (simp add: desired_key_def)
  from Cons.prems(1) have t: "desired_key p \<notin> set (rm_tombstoned m)"
    by (auto simp: key Let_def split: if_splits)
  have fresh: "desired_key p \<notin> desired_key ` qs" and name: "validName (def_name (pd_definition p))"
    using Cons.prems(5,6) by auto
  obtain st1 w1 where st1: "reconciling scope manager types s0 m (insert p qs) st1"
    and rest: "apply_desired P ops scope manager now m ps w1 st1 = (Inr st', w')"
  proof (cases "map_of (rm_live m) (desired_key p)")
    case None
    with Cons.prems(1) obtain i w1 st1 where "create_desired P ops scope manager now p i st = Inr st1"
      and "apply_desired P ops scope manager now m ps w1 st1 = (Inr st', w')"
      by (auto simp: key Let_def split: if_splits sum.splits prod.splits)
    with that create_desired_step [OF Cons.prems(2,3) fresh None] show thesis by blast
  next
    case (Some e)
    with Cons.prems(1) obtain st1 where m: "rec_manager e = manager"
      and u: "update_desired P ops now p (desired_key p) e st = Inr st1"
      and "apply_desired P ops scope manager now m ps w st1 = (Inr st', w')"
      by (auto simp: key Let_def split: if_splits sum.splits prod.splits)
    with that update_desired_step [OF Cons.prems(2,3) fresh Some m u name] show thesis by blast
  qed
  have d: "distinct (map desired_key ps)" "desired_key ` set ps \<inter> desired_key ` insert p qs = {}"
    using Cons.prems(4,5) by auto
  have "reconciling scope manager types s0 m (insert p qs \<union> set ps) st'
    \<and> (\<forall>x \<in> set ps. desired_key x \<notin> set (rm_tombstoned m))"
    by (rule Cons.IH [OF rest st1 Cons.prems(3) d]) (use Cons.prems(6) in simp)
  with t show ?case by simp
qed simp_all

section \<open>Deleting what is missing\<close>

definition deleting :: "string \<Rightarrow> string \<Rightarrow> string set \<Rightarrow> 's \<Rightarrow> preparedDesired set \<Rightarrow> (string \<times> Record) list \<Rightarrow> 's \<Rightarrow> bool" where
  "deleting scope manager types s0 qs rest s \<longleftrightarrow>
     inv s \<and> distinct (keys rest)
     \<and> (\<forall>(k, r) \<in> set rest. tx_get ops s scope (rec_type r) (rec_id r) = Inr r \<and> record_key r = k
          \<and> rec_scope r = scope \<and> rec_manager r = manager \<and> k \<notin> desired_key ` qs)
     \<and> (\<forall>q \<in> qs. holds_desired ops scope manager s q)
     \<and> accounted ops scope manager types s (desired_key ` qs) (set rest)
     \<and> spares ops scope manager s0 s"

lemma delete_one:
  assumes "deleting scope manager types s0 qs ((k, r) # rest) s"
    and "tx_delete ops (rec_scope r) (rec_type r) (rec_id r) (rec_version r) (tombstone_of r now) s = Inr s'"
  shows "deleting scope manager types s0 qs rest s'"
proof -
  note a = assms(1) [unfolded deleting_def]
  have inv: "inv s" using a by blast
  have r: "tx_get ops s scope (rec_type r) (rec_id r) = Inr r" "record_key r = k" "rec_scope r = scope"
    "rec_manager r = manager" "k \<notin> desired_key ` qs" "k \<notin> set (keys rest)" using a by auto
  note get = delete_get [OF inv assms(2) [unfolded r(3)]]
  have keep: "tx_get ops s' sc ty i = Inr x" if "tx_get ops s sc ty i = Inr x" and "x \<noteq> r" for sc ty i x
    using that r(1) by (cases "sc = scope \<and> ty = rec_type r \<and> i = rec_id r") (auto simp: get)
  show ?thesis
    unfolding deleting_def
  proof (intro conjI)
    show "inv s'" by (rule delete_inv [OF inv assms(2)])
    show "distinct (keys rest)" using a by simp
    show "\<forall>(k, r) \<in> set rest. tx_get ops s' scope (rec_type r) (rec_id r) = Inr r \<and> record_key r = k
          \<and> rec_scope r = scope \<and> rec_manager r = manager \<and> k \<notin> desired_key ` qs"
    proof (clarify, goal_cases)
      case (1 k' x)
      with a have x: "tx_get ops s scope (rec_type x) (rec_id x) = Inr x" "record_key x = k'" "rec_scope x = scope"
        "rec_manager x = manager" "k' \<notin> desired_key ` qs" by auto
      have "x \<noteq> r" using x(2) r(2,6) 1 by force
      with keep x show ?case by blast
    qed
    show "\<forall>q \<in> qs. holds_desired ops scope manager s' q"
    proof
      fix q assume q: "q \<in> qs"
      with a obtain x where x: "tx_get ops s scope (rec_type x) (rec_id x) = Inr x" "record_key x = desired_key q"
        "rec_manager x = manager" "canonicalDocument (pd_document q) = Inr (rec_data x)" unfolding holds_desired_def by blast
      have "x \<noteq> r" using x(2) r(2,5) q by auto
      with keep x show "holds_desired ops scope manager s' q" unfolding holds_desired_def by blast
    qed
    show "accounted ops scope manager types s' (desired_key ` qs) (set rest)"
      unfolding accounted_def
    proof (intro allI impI)
      fix ty i x assume x: "ty \<in> types" "tx_get ops s' scope ty i = Inr x" "rec_manager x = manager" "rec_external x \<noteq> []"
      then have g: "tx_get ops s scope ty i = Inr x" and "\<not> (ty = rec_type r \<and> i = rec_id r)"
        by (auto simp: get split: if_splits)
      with get_sound [OF inv g] have n: "x \<noteq> r" by auto
      have "record_key x \<in> desired_key ` qs \<or> (record_key x, x) \<in> set ((k, r) # rest)"
        using a x(1,3,4) g unfolding accounted_def by blast
      with n show "record_key x \<in> desired_key ` qs \<or> (record_key x, x) \<in> set rest" by simp
    qed
    show "spares ops scope manager s0 s'"
      using a keep r(3,4) get_sound [OF inv] unfolding spares_def by metis
  qed
qed

lemma delete_all:
  "for_each (delete_managed ops now) rest st = Inr st' \<Longrightarrow> deleting scope manager types s0 qs rest (rs_store st) \<Longrightarrow>
    deleting scope manager types s0 qs [] (rs_store st')"
proof (induction rest arbitrary: st)
  case (Cons x rest)
  obtain k r where x: "x = (k, r)" by (cases x)
  from Cons.prems(1) obtain st1 where d: "delete_managed ops now (k, r) st = Inr st1"
    and rest: "for_each (delete_managed ops now) rest st1 = Inr st'" by (auto simp: x result_simps)
  from d have "tx_delete ops (rec_scope r) (rec_type r) (rec_id r) (rec_version r) (tombstone_of r now) (rs_store st)
    = Inr (rs_store st1)" by (auto simp: delete_managed_def result_simps)
  from delete_one [OF Cons.prems(2) [unfolded x] this] show ?case by (rule Cons.IH [OF rest])
qed simp

lemma reconciling_deleting:
  assumes "reconciling scope manager types s0 m qs st" and "noted ops s0 scope manager types m"
  shows "deleting scope manager types s0 qs (rs_managed st) (rs_store st)"
proof -
  note a = assms(1) [unfolded reconciling_def]
  have d: "distinct (keys (rs_managed st))" using a by blast
  then have set: "(k, r) \<in> set (rs_managed st) \<longleftrightarrow> map_of (rs_managed st) k = Some r" for k r
    by simp
  have one: "tx_get ops (rs_store st) scope (rec_type r) (rec_id r) = Inr r \<and> record_key r = k
      \<and> rec_scope r = scope \<and> rec_manager r = manager \<and> k \<notin> desired_key ` qs"
    if "map_of (rs_managed st) k = Some r" for k r
  proof -
    from that a have m: "map_of (rm_managed m) k = Some r" and k: "k \<notin> desired_key ` qs" by blast+
    with assms(2) have "map_of (rm_live m) k = Some r" and "rec_manager r = manager" unfolding noted_def by blast+
    moreover from this have "k = record_key r \<and> rec_scope r = scope" using assms(2) unfolding noted_def by blast
    ultimately show ?thesis using a k by blast
  qed
  have "\<forall>(k, r) \<in> set (rs_managed st). tx_get ops (rs_store st) scope (rec_type r) (rec_id r) = Inr r
      \<and> record_key r = k \<and> rec_scope r = scope \<and> rec_manager r = manager \<and> k \<notin> desired_key ` qs"
  proof
    fix x assume "x \<in> set (rs_managed st)"
    moreover obtain k r where "x = (k, r)" by (cases x)
    ultimately show "case x of (k, r) \<Rightarrow> tx_get ops (rs_store st) scope (rec_type r) (rec_id r) = Inr r
      \<and> record_key r = k \<and> rec_scope r = scope \<and> rec_manager r = manager \<and> k \<notin> desired_key ` qs"
      using one [of k r] set [of k r] by (simp del: map_of_eq_Some_iff)
  qed
  moreover have "{(k, r). map_of (rs_managed st) k = Some r} = set (rs_managed st)" using set by auto
  ultimately show ?thesis unfolding deleting_def using a d by (intro conjI) simp_all
qed

section \<open>The whole operation\<close>

lemma reconcile_in_effect:
  assumes "inv s" and "fst (reconcile_in P ops registry request prepared now w s) = Inr (res, s')"
    and "distinct (map desired_key prepared)" and "\<And>p. p \<in> set prepared \<Longrightarrow> validName (def_name (pd_definition p))"
  shows "inv s' \<and> spares ops (rq_rec_scope request) (rq_manager request) s s'
    \<and> (\<forall>p \<in> set prepared. holds_desired ops (rq_rec_scope request) (rq_manager request) s' p)
    \<and> (rq_delete_missing request \<longrightarrow>
         accounted ops (rq_rec_scope request) (rq_manager request)
           (def_name ` set (registry_definitions (Some registry))) s' (desired_key ` set prepared) {})"
proof -
  let ?sc = "rq_rec_scope request" and ?m = "rq_manager request"
  let ?types = "def_name ` set (registry_definitions (Some registry))"
  from assms(2) obtain m st w' st2 where n: "note_all ops s ?sc ?m (registry_definitions (Some registry)) = Inr m"
    and a: "apply_desired P ops ?sc ?m now m prepared w
        \<lparr>rs_result = no_changes, rs_managed = rm_managed m, rs_store = s\<rparr> = (Inr st, w')"
    and d: "delete_missing ops (rq_delete_missing request) now st = Inr st2" and s': "s' = rs_store st2"
    by (auto simp: reconcile_in_def result_simps split: sum.splits prod.splits)
  note noted = note_all_noted [OF assms(1) n]
  have "reconciling ?sc ?m ?types s m {} \<lparr>rs_result = no_changes, rs_managed = rm_managed m, rs_store = s\<rparr>"
    using assms(1) noted by (simp add: reconciling_def noted_def accounted_def spares_def del: map_of_eq_Some_iff)
  from apply_desired_steps [OF a this noted assms(3) _ assms(4)]
  have r: "reconciling ?sc ?m ?types s m (set prepared) st" by simp
  show ?thesis
  proof (cases "rq_delete_missing request")
    case True
    with d delete_all [OF _ reconciling_deleting [OF r noted]] s'
    have "deleting ?sc ?m ?types s (set prepared) [] s'" by (simp add: delete_missing_def)
    then show ?thesis by (simp add: deleting_def)
  next
    case False
    with d s' have "s' = rs_store st" by (simp add: delete_missing_def)
    with r False show ?thesis by (simp add: reconciling_def)
  qed
qed

end

text \<open>The definitions of prepared resources come from the registry.\<close>

lemma prepare_all_definitions:
  "prepare_all P registry ds seen = Inr ps \<Longrightarrow> p \<in> set ps \<Longrightarrow>
    \<exists>k. definitionByName (Some registry) k = Some (pd_definition p)"
proof (induction ds arbitrary: ps seen)
  case (Cons d ds)
  let ?k = "identity_key (de_type d) (de_external d)"
  from Cons.prems(1) obtain defn where f: "definitionByName (Some registry) (de_type d) = Some defn"
    by (auto split: option.splits)
  with Cons.prems(1) obtain q qs where q: "prepare_desired P defn d = Inr q"
    and r: "prepare_all P registry ds (?k # seen) = Inr qs" and ps: "ps = q # qs"
    by (auto simp: result_simps Let_def split: if_splits)
  have "pd_definition q = defn" using q by (auto simp: prepare_desired_def result_simps)
  with Cons.IH [OF r] Cons.prems(2) f ps show ?case by auto
qed simp

lemma reconcile_input_names:
  assumes "reconcile_input P registry request = Inr prepared" and "NewRegistry Q ds = Inr registry" and "p \<in> set prepared"
  shows "validName (def_name (pd_definition p))"
proof -
  from assms(1,3) obtain ps where "prepare_all P registry (rq_resources request) [] = Inr ps" and "p \<in> set ps"
    by (auto simp: reconcile_input_def result_simps sort_prepared_def split: if_splits)
  from prepare_all_definitions [OF this] registry_lookup(2) [OF assms(2)]
  have "pd_definition p \<in> set (registry_definitions (Some registry))" by blast
  with NewRegistry_ok(1) [OF assms(2)] show ?thesis
    by (auto simp: registry_ok_def registry_definitions_def admitted_definition_def)
qed

context transactions
begin

lemma Reconcile_effect:
  assumes "inv s" and "NewRegistry Q ds = Inr registry" and "reconcile_input P registry request = Inr prepared"
    and "distinct (map desired_key prepared)"
    and "Reconcile P ops registry ctx request w s = (Inr res, w', s')"
  shows "inv s' \<and> spares ops (rq_rec_scope request) (rq_manager request) s s'
    \<and> (\<forall>p \<in> set prepared. holds_desired ops (rq_rec_scope request) (rq_manager request) s' p)
    \<and> (rq_delete_missing request \<longrightarrow>
         accounted ops (rq_rec_scope request) (rq_manager request)
           (def_name ` set (registry_definitions (Some registry))) s' (desired_key ` set prepared) {})"
proof -
  obtain now u where t: "currentTime w = (Inr now, u)"
    using assms(5) by (cases "currentTime w") (auto simp: Reconcile_def assms(3) split: sum.splits)
  have "\<exists>u. fst (reconcile_in P ops registry request prepared now u s) = Inr (res, s')"
    using assms(5) by (auto simp: Reconcile_def assms(3) t Transact_def split: prod.splits option.splits sum.splits)
  then show ?thesis
    using reconcile_in_effect [OF assms(1) _ assms(4) reconcile_input_names [OF assms(3,2)]] by blast
qed

end

end
