(* ===== verification/Scim_Discovery.thy ===== *)
theory Scim_Discovery
  imports Scim_Bulk
begin

text \<open>
  Discovery (discovery.go) and the entry point (server.go, ServeHTTP): the service provider
  configuration, resource types and schemas a client may read, and the dispatch of a request to
  the handler of its path after its scope is known.

  A schema's attributes are written by hand as \<^verbatim>\<open>encoding/json\<close> writes the struct: fields in their
  order, the optional ones left out when empty, a nil slice of attributes as null.
\<close>

section \<open>Texts\<close>

definition ServiceProviderConfigSchema :: string where
  "ServiceProviderConfigSchema = ''urn:ietf:params:scim:schemas:core:2.0:ServiceProviderConfig''"

definition ResourceTypeSchema :: string where
  "ResourceTypeSchema = ''urn:ietf:params:scim:schemas:core:2.0:ResourceType''"

definition SchemaSchema :: string where
  "SchemaSchema = ''urn:ietf:params:scim:schemas:core:2.0:Schema''"

definition bool_text :: "bool \<Rightarrow> string" where
  "bool_text b = (if b then ''true'' else ''false'')"

definition array_text :: "string list \<Rightarrow> string" where
  "array_text xs = CHR 0x5B # join_with '','' xs @ [CHR 0x5D]"

definition optional_text :: "string \<Rightarrow> string \<Rightarrow> (string \<times> string) list" where
  "optional_text name v = (if v = [] then [] else [(name, quoted v)])"

definition optional_list :: "string \<Rightarrow> string list \<Rightarrow> (string \<times> string) list" where
  "optional_list name xs = (if xs = [] then [] else [(name, string_array xs)])"

primrec attribute_text :: "SchemaAttribute \<Rightarrow> string" where
  "attribute_text (SchemaAttribute name ty multi description req canonical exact mut ret uniq refs subs) =
     object_text
       ([(''name'', quoted name), (''type'', quoted ty), (''multiValued'', bool_text multi)]
        @ optional_text ''description'' description
        @ [(''required'', bool_text req)]
        @ optional_list ''canonicalValues'' canonical
        @ [(''caseExact'', bool_text exact), (''mutability'', quoted mut), (''returned'', quoted ret),
           (''uniqueness'', quoted uniq)]
        @ optional_list ''referenceTypes'' refs
        @ (let texts = map attribute_text subs in if texts = [] then [] else [(''subAttributes'', array_text texts)]))"

definition attributes_text :: "SchemaAttribute list \<Rightarrow> string" where
  "attributes_text attributes = (if attributes = [] then ''null'' else array_text (map attribute_text attributes))"

definition scheme_text :: "AuthenticationScheme \<Rightarrow> string" where
  "scheme_text scheme =
     object_text
       ([(''type'', quoted (as_type scheme)), (''name'', quoted (as_name scheme)),
         (''description'', quoted (as_description scheme))]
        @ optional_text ''specUri'' (as_spec_uri scheme)
        @ optional_text ''documentationUri'' (as_documentation_uri scheme))"

definition supported_text :: "bool \<Rightarrow> string" where
  "supported_text b = object_text [(''supported'', bool_text b)]"

section \<open>Discovery\<close>

definition discovery_parameters :: "string list" where
  "discovery_parameters =
     [''attributes'', ''excludedAttributes'', ''sortBy'', ''sortOrder'', ''startIndex'', ''count'', ''filter'']"

definition rejectDiscoveryQuery :: "query \<Rightarrow> unit result" where
  "rejectDiscoveryQuery q =
     (if query_get q ''filter'' \<noteq> [] then Inl (clientError 403 [] ''discovery filtering is not supported'')
      else rejectQuery q discovery_parameters)"

text \<open>The checks all three discovery endpoints begin with.\<close>

definition discovery :: "request \<Rightarrow> response \<Rightarrow> response" where
  "discovery rq found =
     (if rq_method rq \<noteq> ''GET'' then methodNotAllowed ''GET''
      else (case rejectDiscoveryQuery (rq_query rq) of Inl e \<Rightarrow> writeProtocolError e | Inr _ \<Rightarrow> found))"

definition discoveryLocation :: "Server \<Rightarrow> string \<Rightarrow> string \<Rightarrow> string" where
  "discoveryLocation sv collection i = resourceLocation (sv_external sv) collection i"

definition external_text :: "Server \<Rightarrow> string" where
  "external_text sv = url_text (sv_external sv) (url_path (sv_external sv)) (url_raw_path (sv_external sv))"

text \<open>Members in the order of their names, in which \<^verbatim>\<open>json.Marshal\<close> writes a map.\<close>

definition provider_config :: "Server \<Rightarrow> string" where
  "provider_config sv =
     object_text
       ([(''authenticationSchemes'', array_text (map scheme_text (sv_schemes sv))),
         (''bulk'', object_text [(''maxOperations'', itoa MaximumBulkOperations),
            (''maxPayloadSize'', itoa MaximumBulkBytes), (''supported'', ''true'')]),
         (''changePassword'', supported_text (sv_change_password sv))]
        @ optional_text ''documentationUri'' (sv_documentation sv)
        @ [(''etag'', supported_text True),
           (''filter'', object_text [(''maxResults'', itoa (sv_page_size sv)), (''supported'', ''true'')]),
           (''meta'', object_text
              [(''location'', quoted (trim_suffix (external_text sv) ''/'' @ ''/ServiceProviderConfig'')),
               (''resourceType'', quoted ''ServiceProviderConfig'')]),
           (''patch'', supported_text True),
           (''schemas'', string_array [ServiceProviderConfigSchema]),
           (''sort'', supported_text True)])"

definition serveServiceProviderConfig :: "Server \<Rightarrow> request \<Rightarrow> response" where
  "serveServiceProviderConfig sv rq = discovery rq (writeJSON [] 200 (Inr (provider_config sv)))"

definition resource_type_text :: "Server \<Rightarrow> ResourceDefinition \<Rightarrow> string" where
  "resource_type_text sv definition =
     object_text
       (optional_text ''description'' (def_description definition)
        @ [(''endpoint'', quoted (CHR ''/'' # endpoint definition)), (''id'', quoted (def_name definition)),
           (''meta'', object_text
              [(''location'', quoted (discoveryLocation sv ''ResourceTypes'' (def_name definition))),
               (''resourceType'', quoted ''ResourceType'')]),
           (''name'', quoted (def_name definition)), (''schema'', quoted (def_schema definition)),
           (''schemaExtensions'', array_text (map (\<lambda>extension.
              object_text [(''required'', bool_text (ext_required extension)), (''schema'', quoted (ext_schema extension))])
              (extensions definition))),
           (''schemas'', string_array [ResourceTypeSchema])])"

definition list_text :: "string list \<Rightarrow> string" where
  "list_text resources =
     object_text
       [(''Resources'', array_text resources), (''itemsPerPage'', itoa (int (length resources))),
        (''schemas'', string_array [ListResponseSchema]), (''startIndex'', ''1''),
        (''totalResults'', itoa (int (length resources)))]"

text \<open>One resource when an identifier is asked for, else the list.\<close>

definition one_or_list :: "string \<Rightarrow> string \<Rightarrow> string list \<Rightarrow> response" where
  "one_or_list i missing resources =
     (if i = [] then writeJSON [] 200 (Inr (list_text resources))
      else (case resources of
              [] \<Rightarrow> writeProtocolError (clientError 404 [] missing)
            | r # _ \<Rightarrow> writeJSON [] 200 (Inr r)))"

definition serveResourceTypes :: "Server \<Rightarrow> request \<Rightarrow> string \<Rightarrow> response" where
  "serveResourceTypes sv rq i =
     discovery rq
       (one_or_list i ''resource type was not found''
         (map (resource_type_text sv)
           (filter (\<lambda>definition. i = [] \<or> i = def_name definition) (registry_definitions (Some (sv_registry sv))))))"

definition schema_text :: "Server \<Rightarrow> string \<Rightarrow> string \<Rightarrow> string \<Rightarrow> SchemaAttribute list \<Rightarrow> string" where
  "schema_text sv schema name description attributes =
     object_text
       [(''attributes'', attributes_text attributes), (''description'', quoted description), (''id'', quoted schema),
        (''meta'', object_text [(''location'', quoted (discoveryLocation sv ''Schemas'' schema)),
           (''resourceType'', quoted ''Schema'')]),
        (''name'', quoted name), (''schemas'', string_array [SchemaSchema])]"

text \<open>Schema, name, description and attributes of a definition and of its extensions.\<close>

definition definition_schemas :: "ResourceDefinition \<Rightarrow> (string \<times> string \<times> string \<times> SchemaAttribute list) list" where
  "definition_schemas definition =
     (def_schema definition, def_name definition, def_description definition, def_attributes definition)
     # map (\<lambda>extension.
         (ext_schema extension, if ext_name extension = [] then ext_schema extension else ext_name extension,
          ext_description extension, ext_attributes extension)) (extensions definition)"

fun schema_resources :: "Server \<Rightarrow> string \<Rightarrow> (string \<times> string \<times> string \<times> SchemaAttribute list) list \<Rightarrow> string list
    \<Rightarrow> string list" where
  "schema_resources sv requested [] seen = []"
| "schema_resources sv requested ((schema, name, description, attributes) # rest) seen =
     (if requested \<noteq> [] \<and> requested \<noteq> schema then schema_resources sv requested rest seen
      else if List.member seen schema then schema_resources sv requested rest seen
      else schema_text sv schema name description attributes
           # schema_resources sv requested rest (schema # seen))"

definition serveSchemas :: "Server \<Rightarrow> request \<Rightarrow> string \<Rightarrow> response" where
  "serveSchemas sv rq i =
     discovery rq
       (one_or_list i ''schema was not found''
         (schema_resources sv i
           (concat (map definition_schemas (registry_definitions (Some (sv_registry sv))))) []))"

section \<open>Dispatch\<close>

definition not_found :: response where
  "not_found = writeProtocolError (clientError 404 [] ''SCIM endpoint was not found'')"

definition is_discovery :: "string list \<Rightarrow> bool" where
  "is_discovery segments \<longleftrightarrow>
     segments \<noteq> [] \<and> List.member [''ServiceProviderConfig'', ''ResourceTypes'', ''Schemas''] (hd segments)"

text \<open>The scope of a request: none for public discovery, else the resolver's answer when it is valid.\<close>

definition request_scope :: "Server \<Rightarrow> request \<Rightarrow> string list \<Rightarrow> string option" where
  "request_scope sv rq segments =
     (if is_discovery segments \<and> sv_public_discovery sv then Some []
      else (case rq_scope rq of
              None \<Rightarrow> None
            | Some scope \<Rightarrow> if scope = [] \<or> \<not> validString scope 1024 then None else Some scope))"

definition serveEndpoint :: "platform \<Rightarrow> 's tx_ops \<Rightarrow> Server \<Rightarrow> request \<Rightarrow> string \<Rightarrow> string \<Rightarrow> string option
    \<Rightarrow> world \<Rightarrow> 's \<Rightarrow> 's served" where
  "serveEndpoint P ops sv rq scope collection i w s =
     (case definitionByEndpoint (Some (sv_registry sv)) collection of
        None \<Rightarrow> (not_found, w, s)
      | Some definition \<Rightarrow>
          (case i of
             None \<Rightarrow> serveCollection P ops sv rq scope definition w s
           | Some i \<Rightarrow>
               if i = ''.search'' then serveSearch P ops sv rq scope (Some definition) w s
               else serveResource P ops sv rq scope definition i w s))"

definition serveRoot :: "platform \<Rightarrow> 's tx_ops \<Rightarrow> Server \<Rightarrow> request \<Rightarrow> string \<Rightarrow> world \<Rightarrow> 's \<Rightarrow> 's served" where
  "serveRoot P ops sv rq scope w s =
     (if rq_method rq \<noteq> ''GET'' then (methodNotAllowed ''GET'', w, s)
      else query_search P ops sv rq scope (registry_definitions (Some (sv_registry sv))) w s)"

definition dispatch :: "platform \<Rightarrow> 's tx_ops \<Rightarrow> Server \<Rightarrow> request \<Rightarrow> string \<Rightarrow> string list \<Rightarrow> world \<Rightarrow> 's \<Rightarrow> 's served" where
  "dispatch P ops sv rq scope segments w s =
     (case segments of
        [] \<Rightarrow> serveRoot P ops sv rq scope w s
      | [one] \<Rightarrow>
          if one = ''.search'' then serveSearch P ops sv rq scope None w s
          else if one = ''ServiceProviderConfig'' then (serveServiceProviderConfig sv rq, w, s)
          else if one = ''ResourceTypes'' then (serveResourceTypes sv rq [], w, s)
          else if one = ''Schemas'' then (serveSchemas sv rq [], w, s)
          else if one = ''Bulk'' then serveBulk P ops sv rq scope w s
          else serveEndpoint P ops sv rq scope one None w s
      | [one, two] \<Rightarrow>
          if one = ''ResourceTypes'' then (serveResourceTypes sv rq two, w, s)
          else if one = ''Schemas'' then (serveSchemas sv rq two, w, s)
          else serveEndpoint P ops sv rq scope one (Some two) w s
      | _ \<Rightarrow> (not_found, w, s))"

definition ServeHTTP :: "platform \<Rightarrow> 's tx_ops \<Rightarrow> Server \<Rightarrow> request \<Rightarrow> world \<Rightarrow> 's \<Rightarrow> 's served" where
  "ServeHTTP P ops sv rq w s =
     (case routeSegments (sv_external sv) (rq_path rq) of
        Inl _ \<Rightarrow> (not_found, w, s)
      | Inr segments \<Rightarrow>
          (case request_scope sv rq segments of
             None \<Rightarrow> (writeProtocolError (clientError 401 [] ''authentication is required''), w, s)
           | Some scope \<Rightarrow> dispatch P ops sv rq scope segments w s))"

end
