(* ===== verification/Scim_Evolution.thy ===== *)
theory Scim_Evolution
  imports Scim_Discovery Scim_Reconcile Scim_Server_Facts
begin

text \<open>
  What requests do to a store. A relation that contains the four operations of the server in one
  scope, and is reflexive and transitive, contains the effect of every request in that scope, bulk
  requests included (\<open>request_evolution\<close>): the handlers reach a store through these operations only.
  The relation is then chosen three times: the runs of the memory store, so that what holds along
  runs (Scim_Contract) holds along request histories; equality outside the scope, so that no request
  reaches the records of another scope; and equality, for the scope a request without authentication has.
\<close>

section \<open>Requests\<close>

lemma Transact_cases:
  assumes "Transact ctx fn s = (r, s')"
  obtains (failed) e where "r = Inl e" and "s' = s"
    | (committed) x where "r = Inr x" and "fn s = Inr (x, s')"
  using assms by (auto simp: Transact_def split: option.splits sum.splits)

locale request_evolution =
  fixes P :: platform and ops :: "'s tx_ops" and sv :: Server and scope :: string and R :: "'s \<Rightarrow> 's \<Rightarrow> bool"
  assumes unchanged: "R s s"
    and later: "R s t \<Longrightarrow> R t u \<Longrightarrow> R s u"
    and creates: "create P ops sv ctx scope m d raw w s = (r, w', s') \<Longrightarrow> R s s'"
    and replaces: "replace P ops sv ctx scope d i raw im inm w s = (r, w', s') \<Longrightarrow> R s s'"
    and patches: "patch_resource P ops sv ctx scope d i request im inm w s = (r, w', s') \<Longrightarrow> R s s'"
    and removes: "remove ops sv ctx scope d i im inm w s = (gone, w', s') \<Longrightarrow> R s s'"
begin

lemma write_result_evolves: "write_result P sv rq st d (r, w', s') = (resp, w'', s'') \<Longrightarrow> s'' = s'"
  by (auto simp: write_result_def split: sum.splits)

lemma createResource_evolves: "createResource P ops sv rq scope d w s = (resp, w', s') \<Longrightarrow> R s s'"
  by (cases "create P ops sv (rq_ctx rq 0) scope [] d (projr (readBody P rq)) w s")
    (auto simp: createResource_def intro: unchanged dest!: creates write_result_evolves split: sum.splits)

lemma replaceResource_evolves: "replaceResource P ops sv rq scope d i w s = (resp, w', s') \<Longrightarrow> R s s'"
  by (cases "replace P ops sv (rq_ctx rq 0) scope d i (projr (readBody P rq)) (rq_if_match rq) (rq_if_none_match rq) w s")
    (auto simp: replaceResource_def intro: unchanged dest!: replaces write_result_evolves split: sum.splits)

lemma patchResource_evolves: "patchResource P ops sv rq scope d i w s = (resp, w', s') \<Longrightarrow> R s s'"
  by (cases "patch_resource P ops sv (rq_ctx rq 0) scope d i
        (projr (DecodePatch P (projr (readBody P rq)) (sv_patch_operations sv))) (rq_if_match rq) (rq_if_none_match rq) w s")
    (auto simp: patchResource_def intro: unchanged dest!: patches write_result_evolves split: sum.splits)

lemma deleteResource_evolves: "deleteResource ops sv rq scope d i w s = (resp, w', s') \<Longrightarrow> R s s'"
  by (auto simp: deleteResource_def dest!: removes split: sum.splits prod.splits)

lemma getResource_evolves: "getResource P ops sv rq scope d i w s = (resp, w', s') \<Longrightarrow> s' = s"
  by (auto simp: getResource_def get_in_def result_simps split: sum.splits prod.splits if_splits
      elim!: Transact_cases)

lemma executeSearch_evolves: "executeSearch P ops sv rq scope ds search w s = (resp, w', s') \<Longrightarrow> s' = s"
  by (auto simp: executeSearch_def Let_def result_simps split: sum.splits prod.splits elim!: Transact_cases)

lemma query_search_evolves: "query_search P ops sv rq scope ds w s = (resp, w', s') \<Longrightarrow> s' = s"
  by (auto simp: query_search_def split: sum.splits dest: executeSearch_evolves)

lemma serveSearch_evolves: "serveSearch P ops sv rq scope one w s = (resp, w', s') \<Longrightarrow> s' = s"
  by (auto simp: serveSearch_def split: sum.splits if_splits dest: executeSearch_evolves)

lemma serveCollection_evolves: "serveCollection P ops sv rq scope d w s = (resp, w', s') \<Longrightarrow> R s s'"
  by (auto simp: serveCollection_def listResources_def split: sum.splits if_splits
      intro: unchanged createResource_evolves dest: query_search_evolves)

lemma serveResource_evolves: "serveResource P ops sv rq scope d i w s = (resp, w', s') \<Longrightarrow> R s s'"
  by (auto simp: serveResource_def split: sum.splits if_splits
      intro: unchanged replaceResource_evolves patchResource_evolves deleteResource_evolves dest: getResource_evolves)

section \<open>Bulk requests\<close>

lemma executeBulkOperation_evolves:
  "executeBulkOperation P ops sv ctx scope b refs w s = (r, w', s') \<Longrightarrow> R s s'"
  by (auto simp: executeBulkOperation_def bulk_outcome_def split: sum.splits prod.splits if_splits
      intro: unchanged dest: creates replaces patches removes)

lemma finish_store: "bs_store (finish P sv limit index b (r, w, s) st) = s"
  by (simp add: finish_def Let_def split: sum.split)

lemma bulk_step_evolves: "R (bs_store st) (bs_store (bulk_step P ops sv rq scope limit declared x st))"
proof -
  obtain index b where x: "x = (index, b)" by (cases x)
  obtain r w s where e: "executeBulkOperation P ops sv (rq_ctx rq index) scope b (bs_references st) (bs_world st) (bs_store st)
      = (r, w, s)" by (cases "executeBulkOperation P ops sv (rq_ctx rq index) scope b (bs_references st) (bs_world st) (bs_store st)")
  show ?thesis
    unfolding x bulk_step_def using executeBulkOperation_evolves [OF e]
    by (simp add: Let_def e finish_store unchanged)
qed

lemma bulk_pass_evolves: "R (bs_store st) (bs_store (bulk_pass P ops sv rq scope limit declared bs st))"
proof -
  have "R (bs_store st) (bs_store (foldl (\<lambda>st x. bulk_step P ops sv rq scope limit declared x st) st xs))" for xs
    by (induction xs arbitrary: st) (auto intro: unchanged later bulk_step_evolves)
  then show ?thesis by (simp add: bulk_pass_def)
qed

lemma bulk_loop_evolves: "R (bs_store st) (bs_store (bulk_loop P ops sv rq scope limit declared bs st))"
proof (induction "pending st" arbitrary: st rule: less_induct)
  case less
  let ?st = "bulk_pass P ops sv rq scope limit declared bs st"
  have "R (bs_store st) (bs_store ?st)" by (rule bulk_pass_evolves)
  moreover have "R (bs_store ?st) (bs_store (bulk_loop P ops sv rq scope limit declared bs ?st))"
    if "pending ?st < pending st" using less [OF that] .
  ultimately show ?case
    by (subst bulk_loop.simps) (auto simp: Let_def fail_cycle_def intro: unchanged later)
qed

lemma serveBulk_evolves: "serveBulk P ops sv rq scope w s = (resp, w', s') \<Longrightarrow> R s s'"
  using bulk_loop_evolves [where st = "start_bulk n w s" for n]
  by (auto simp: serveBulk_def run_bulk_def Let_def start_bulk_def intro: unchanged split: sum.splits if_splits)

lemma dispatch_evolves: "dispatch P ops sv rq scope segments w s = (resp, w', s') \<Longrightarrow> R s s'"
  by (auto simp: dispatch_def serveRoot_def serveEndpoint_def split: list.splits if_splits option.splits
      intro: unchanged serveBulk_evolves serveCollection_evolves serveResource_evolves
      dest: serveSearch_evolves query_search_evolves)

lemma ServeHTTP_evolves:
  assumes "ServeHTTP P ops sv rq w s = (resp, w', s')"
    and "\<And>segments. routeSegments (sv_external sv) (rq_path rq) = Inr segments \<Longrightarrow>
      request_scope sv rq segments = None \<or> request_scope sv rq segments = Some scope"
  shows "R s s'"
  using assms by (fastforce simp: ServeHTTP_def split: sum.splits option.splits intro: unchanged dispatch_evolves)

end

section \<open>Transactions\<close>

locale store_evolution =
  fixes ops :: "'s tx_ops" and R :: "'s \<Rightarrow> 's \<Rightarrow> bool"
  assumes unchanged: "R s s"
    and later: "R s t \<Longrightarrow> R t u \<Longrightarrow> R s u"
    and creates: "tx_create ops r s = Inr s' \<Longrightarrow> R s s'"
    and replaces: "tx_replace ops r v s = Inr s' \<Longrightarrow> R s s'"
    and deletes: "tx_delete ops sc ty i v grave s = Inr s' \<Longrightarrow> R s s'"
    and sets_password: "tx_set_password ops = Some f \<Longrightarrow> f sc ty i p s = Inr (revision, s') \<Longrightarrow> R s s'"
begin

lemma transacts:
  "Transact ctx fn s = (r, s') \<Longrightarrow> (\<And>x t. fn s = Inr (x, t) \<Longrightarrow> R s t) \<Longrightarrow> R s s'"
  by (erule Transact_cases) (auto intro: unchanged)

lemma writePassword_evolves: "writePassword ops sc ty i p s = Inr (v, s') \<Longrightarrow> R s s'"
  by (auto simp: writePassword_def result_simps intro: unchanged sets_password split: if_splits option.splits)

lemma create_in_evolves: "create_in P ops sc m d input i now s = Inr (r, s') \<Longrightarrow> R s s'"
  by (auto simp: create_in_def result_simps split: prod.splits
      dest!: writePassword_evolves creates intro: later)

lemma create_evolves: "create P ops sv ctx sc m d raw w s = (r, w', s') \<Longrightarrow> R s s'"
  by (auto simp: create_def intro: unchanged create_in_evolves transacts split: sum.splits prod.splits)

lemma write_prepared_evolves: "write_prepared P ops sc d i current p prepared now s = Inr (r, s') \<Longrightarrow> R s s'"
  by (auto simp: write_prepared_def result_simps split: prod.splits if_splits
      dest!: writePassword_evolves replaces intro: later unchanged)

lemma replace_evolves: "replace P ops sv ctx sc d i raw im inm w s = (r, w', s') \<Longrightarrow> R s s'"
  by (auto simp: replace_def replace_in_def result_simps split: sum.splits prod.splits
      intro: unchanged elim!: transacts write_prepared_evolves)

lemma patch_evolves: "patch_resource P ops sv ctx sc d i request im inm w s = (r, w', s') \<Longrightarrow> R s s'"
  by (auto simp: patch_resource_def patch_in_def result_simps split: sum.splits prod.splits
      intro: unchanged elim!: transacts write_prepared_evolves)

lemma remove_evolves: "remove ops sv ctx sc d i im inm w s = (r, w', s') \<Longrightarrow> R s s'"
  by (auto simp: remove_def remove_in_def result_simps split: sum.splits prod.splits
      intro: unchanged elim!: transacts dest: deletes)

lemma create_desired_evolves: "create_desired P ops sc m now p i st = Inr st' \<Longrightarrow> R (rs_store st) (rs_store st')"
  by (auto simp: create_desired_def result_simps dest: creates)

lemma update_desired_evolves: "update_desired P ops now p key r st = Inr st' \<Longrightarrow> R (rs_store st) (rs_store st')"
  by (auto simp: update_desired_def result_simps unchanged split: prod.splits if_splits dest: replaces)

lemma apply_desired_evolves:
  "apply_desired P ops sc m now maps ps w st = (Inr st', w') \<Longrightarrow> R (rs_store st) (rs_store st')"
proof (induction ps arbitrary: w st)
  case (Cons p ps)
  from Cons.prems obtain st1 w1 where "R (rs_store st) (rs_store st1)"
    and "apply_desired P ops sc m now maps ps w1 st1 = (Inr st', w')"
    by (auto simp: Let_def split: if_splits option.splits sum.splits prod.splits
        dest!: create_desired_evolves update_desired_evolves)
  with Cons.IH show ?case by (blast intro: later)
qed (simp add: unchanged)

lemma delete_managed_evolves: "delete_managed ops now x st = Inr st' \<Longrightarrow> R (rs_store st) (rs_store st')"
  by (auto simp: delete_managed_def result_simps split: prod.splits dest: deletes)

lemma delete_missing_evolves: "delete_missing ops wanted now st = Inr st' \<Longrightarrow> R (rs_store st) (rs_store st')"
  by (auto simp: delete_missing_def unchanged split: if_splits
      elim!: for_each_invariant [where I = "\<lambda>u. R (rs_store st) (rs_store u)"] intro: delete_managed_evolves later)

lemma reconcile_in_evolves: "fst (reconcile_in P ops registry request prepared now w s) = Inr (r, s') \<Longrightarrow> R s s'"
  by (auto simp: reconcile_in_def result_simps split: sum.splits prod.splits
      dest!: apply_desired_evolves delete_missing_evolves intro: later)

lemma Reconcile_evolves: "Reconcile P ops registry ctx request w s = (r, w', s') \<Longrightarrow> R s s'"
  by (auto simp: Reconcile_def intro: unchanged split: sum.splits prod.splits
      elim!: transacts reconcile_in_evolves)

end

sublocale store_evolution \<subseteq> requests: request_evolution P ops sv scope R for P sv scope
  by unfold_locales
    (rule unchanged later create_evolves replace_evolves patch_evolves remove_evolves; assumption)+

section \<open>Scopes\<close>

text \<open>Nothing of another scope is seen to change, neither records nor tombstones.\<close>

definition isolates :: "'s tx_ops \<Rightarrow> ('s \<Rightarrow> bool) \<Rightarrow> string \<Rightarrow> 's \<Rightarrow> 's \<Rightarrow> bool" where
  "isolates ops I scope s s' \<longleftrightarrow>
     (I s \<longrightarrow> I s' \<and> (\<forall>sc ty i. sc \<noteq> scope \<longrightarrow> tx_get ops s' sc ty i = tx_get ops s sc ty i))"

lemma isolates_refl: "isolates ops I scope s s"
  and isolates_trans: "isolates ops I scope s t \<Longrightarrow> isolates ops I scope t u \<Longrightarrow> isolates ops I scope s u"
  by (auto simp: isolates_def)

context credential_transactions
begin

lemma create_isolates: "create P ops sv ctx scope m d raw w s = (r, w', s') \<Longrightarrow> isolates ops inv scope s s'"
  by (cases r) (auto simp: isolates_def dest: failed_operations(1) create_effect)

lemma replace_isolates: "replace P ops sv ctx scope d i raw im inm w s = (r, w', s') \<Longrightarrow> isolates ops inv scope s s'"
  by (cases r) (auto simp: isolates_def updates_def dest: failed_operations(2) replace_effect)

lemma patch_isolates: "patch_resource P ops sv ctx scope d i request im inm w s = (r, w', s') \<Longrightarrow> isolates ops inv scope s s'"
  by (cases r) (auto simp: isolates_def updates_def dest: failed_operations(3) patch_effect)

lemma remove_isolates: "remove ops sv ctx scope d i im inm w s = (r, w', s') \<Longrightarrow> isolates ops inv scope s s'"
  by (cases r) (auto simp: isolates_def dest: failed_operations(4) remove_effect)

text \<open>There is no record in the empty scope, and none can be made.\<close>

lemma no_scope_get: "inv s \<Longrightarrow> tx_get ops s [] ty i \<noteq> Inr r"
  using get_sound record_ok_fields(1) by blast

lemma no_scope_updates: "updates sv [] d i im inm s r s' \<Longrightarrow> inv s \<Longrightarrow> False"
  using no_scope_get unfolding updates_def by blast

lemma no_scope_create: "create P ops sv ctx [] m d raw w s = (r, w', s') \<Longrightarrow> inv s \<Longrightarrow> s' = s"
  by (cases r) (auto dest: failed_operations(1) create_effect record_ok_fields(1))

lemma no_scope_replace: "replace P ops sv ctx [] d i raw im inm w s = (r, w', s') \<Longrightarrow> inv s \<Longrightarrow> s' = s"
  by (cases r) (auto dest: failed_operations(2) replace_effect no_scope_updates)

lemma no_scope_patch: "patch_resource P ops sv ctx [] d i request im inm w s = (r, w', s') \<Longrightarrow> inv s \<Longrightarrow> s' = s"
  by (cases r) (auto dest: failed_operations(3) patch_effect no_scope_updates)

lemma no_scope_remove:
  assumes "remove ops sv ctx [] d i im inm w s = (r, w', s')" and "inv s"
  shows "s' = s"
proof (cases r)
  case (Inr u)
  with assms remove_effect [of s sv ctx "[]" d i im inm w u w' s'] no_scope_get show ?thesis by blast
next
  case (Inl e)
  show ?thesis by (rule failed_operations(4) [OF assms(1) [unfolded Inl]])
qed

end

sublocale credential_transactions \<subseteq> isolated: request_evolution P ops sv scope "isolates ops inv scope" for sv scope
  by unfold_locales
    (rule isolates_refl isolates_trans create_isolates replace_isolates patch_isolates remove_isolates; assumption)+

sublocale credential_transactions \<subseteq> unscoped: request_evolution P ops sv "[]" "\<lambda>s s'. inv s \<longrightarrow> s' = s" for sv
  by unfold_locales
    (auto dest: no_scope_create no_scope_replace no_scope_patch no_scope_remove)

context credential_transactions
begin

lemma request_isolated:
  assumes "ServeHTTP P ops sv rq w s = (resp, w', s')" and "inv s" and "rq_scope rq = Some scope" and "sc \<noteq> scope"
  shows "tx_get ops s' sc ty i = tx_get ops s sc ty i"
proof (cases "\<exists>segments. routeSegments (sv_external sv) (rq_path rq) = Inr segments \<and> request_scope sv rq segments = Some []")
  case True
  then have "s' = s"
    using unscoped.ServeHTTP_evolves [OF assms(1)] assms(2) by auto
  then show ?thesis by simp
next
  case False
  with assms(3) have "isolates ops inv scope s s'"
    by (intro isolated.ServeHTTP_evolves [OF assms(1)]) (auto simp: request_scope_def split: if_splits)
  with assms(2,4) show ?thesis by (simp add: isolates_def)
qed

text \<open>A request to which the resolver gives no scope changes nothing, discovery being public or not.\<close>

lemma unauthenticated_unchanged:
  assumes "ServeHTTP P ops sv rq w s = (resp, w', s')" and "inv s" and "rq_scope rq = None"
  shows "s' = s"
  using unscoped.ServeHTTP_evolves [OF assms(1)] assms(2,3) by (auto simp: request_scope_def)

end

section \<open>Histories of the memory store\<close>

interpretation memory_runs: store_evolution "memory_ops P" "store_run P" for P :: platform
proof (unfold_locales, goal_cases)
  case (3 r s s')
  then show ?case by (auto simp: memory_ops_def intro: step_create)
next
  case (4 r v s s')
  then show ?case by (auto simp: memory_ops_def intro: step_replace)
next
  case (5 sc ty i v grave s s')
  then show ?case by (auto simp: memory_ops_def intro: step_delete)
qed (auto simp: memory_ops_def)

text \<open>
  A history: whole requests, operations of a bulk request that other requests come between, and
  reconciliations, with any clock readings, entropy and contexts. The mutex of the store makes what
  runs concurrently such a sequence of transactions.
\<close>

inductive history :: "platform \<Rightarrow> Server \<Rightarrow> memoryState \<Rightarrow> memoryState \<Rightarrow> bool" for P sv where
  history_start: "history P sv s s"
| history_request: "history P sv s t \<Longrightarrow> ServeHTTP P (memory_ops P) sv rq w t = (resp, w', u) \<Longrightarrow> history P sv s u"
| history_bulk: "history P sv s t \<Longrightarrow>
    executeBulkOperation P (memory_ops P) sv ctx scope b refs w t = (r, w', u) \<Longrightarrow> history P sv s u"
| history_reconcile: "history P sv s t \<Longrightarrow>
    Reconcile P (memory_ops P) (sv_registry sv) ctx request w t = (r', w', u) \<Longrightarrow> history P sv s u"

lemma memory_ServeHTTP: "ServeHTTP P (memory_ops P) sv rq w s = (resp, w', s') \<Longrightarrow> store_run P s s'"
proof (cases "routeSegments (sv_external sv) (rq_path rq)")
  case (Inr segments)
  assume "ServeHTTP P (memory_ops P) sv rq w s = (resp, w', s')"
  then show ?thesis
    by (rule memory_runs.requests.ServeHTTP_evolves [where scope = "the (request_scope sv rq segments)"])
      (cases "request_scope sv rq segments"; simp add: Inr)
qed (auto simp: ServeHTTP_def)

lemma history_run: "history P sv s t \<Longrightarrow> store_run P s t"
  by (induction rule: history.induct)
    (auto intro: rtranclp_trans memory_ServeHTTP memory_runs.requests.executeBulkOperation_evolves
      memory_runs.Reconcile_evolves)

lemma history_ok: "history P sv newMemoryState s \<Longrightarrow> store_ok P s"
  using history_run store_run_ok store_ok_empty by blast

end
