(* ===== verification/Scim_Abstract.thy ===== *)
theory Scim_Abstract
  imports Scim_Contract
begin

text \<open>
  The memory store as an abstract machine: a partial function from resource type and identifier to
  the live record, and the set of identifiers that are gone for good. Each successful write of
  memory.go is a step of the machine; the keys, association lists and checks are refinements of it.
\<close>

record abstract_store =
  live :: "string \<times> string \<Rightarrow> Record option"
  dead :: "string set"

inductive abstract_step :: "abstract_store \<Rightarrow> abstract_store \<Rightarrow> bool" where
  abstract_create: "(\<forall>ty. live a (ty, rec_id r) = None) \<Longrightarrow> rec_id r \<notin> dead a \<Longrightarrow>
    abstract_step a (a\<lparr>live := (live a)((rec_type r, rec_id r) \<mapsto> r)\<rparr>)"
| abstract_replace: "live a (rec_type r, rec_id r) = Some old \<Longrightarrow> same_identity old r \<Longrightarrow>
    abstract_step a (a\<lparr>live := (live a)((rec_type r, rec_id r) \<mapsto> r)\<rparr>)"
| abstract_delete: "live a (ty, i) = Some old \<Longrightarrow>
    abstract_step a (a\<lparr>live := (live a)((ty, i) := None), dead := insert i (dead a)\<rparr>)"

inductive_cases abstract_stepE: "abstract_step a b"
inductive_simps abstract_step_iff: "abstract_step a b"

definition live_record :: "memoryState \<Rightarrow> string \<times> string \<Rightarrow> Record option" where
  "live_record s = (\<lambda>(ty, i).
     (case map_of (mem_records s) (recordKey ty i) of
        None \<Rightarrow> None | Some r \<Rightarrow> if rec_type r = ty \<and> rec_id r = i then Some r else None))"

definition abstraction :: "memoryState \<Rightarrow> abstract_store" where
  "abstraction s = \<lparr>live = live_record s, dead = tomb_id ` snd ` set (mem_tombstones s)\<rparr>"

text \<open>Under the invariant the abstraction is what get answers in the scope of the record.\<close>

lemma live_record_get:
  assumes "store_ok P s"
  shows "live_record s (ty, i) = Some r \<longleftrightarrow> memory_get s (rec_scope r) ty i = Inr r"
  using store_ok_lookup [OF assms, of ty i]
  by (auto simp: live_record_def memory_get_Inr split: option.splits)

lemma live_record_update:
  assumes "record_ok P r" and "store_ok P s"
  shows "live_record (s\<lparr>mem_records := AList.update (recordKey (rec_type r) (rec_id r)) r (mem_records s)\<rparr>)
    = (live_record s)((rec_type r, rec_id r) \<mapsto> r)"
proof
  fix x :: "string \<times> string"
  obtain ty i where x: "x = (ty, i)" by (cases x)
  have "recordKey ty i = recordKey (rec_type r) (rec_id r) \<longleftrightarrow> ty = rec_type r \<and> i = rec_id r"
    using recordKey_inject [OF record_ok_fields(2,3) [OF assms(1)], of ty i] by auto
  then show "live_record (s\<lparr>mem_records := AList.update (recordKey (rec_type r) (rec_id r)) r (mem_records s)\<rparr>) x
      = ((live_record s)((rec_type r, rec_id r) \<mapsto> r)) x"
    by (auto simp: x live_record_def map_of_update)
qed

lemma abstract_simulation:
  assumes "store_ok P s" and "store_step P s s'"
  shows "abstract_step (abstraction s) (abstraction s')"
  using assms(2)
proof cases
  case (step_create r)
  note c = memory_create_Inr [OF step_create]
  have "live_record s (ty, rec_id r) = None" for ty
  proof (cases "live_record s (ty, rec_id r)")
    case (Some q)
    then have "(recordKey ty (rec_id r), q) \<in> set (mem_records s) \<and> rec_id q = rec_id r"
      by (auto simp: live_record_def dest: map_of_SomeD split: option.splits if_splits)
    with c(2) show ?thesis by blast
  qed
  moreover have "rec_id r \<notin> tomb_id ` snd ` set (mem_tombstones s)"
    using c(3) by (force simp: reserved_by_def)
  ultimately have "abstract_step (abstraction s)
      ((abstraction s)\<lparr>live := (live (abstraction s))((rec_type r, rec_id r) \<mapsto> r)\<rparr>)"
    by (intro abstract_create) (simp_all add: abstraction_def)
  then show ?thesis
    unfolding c(4) using live_record_update [OF c(1) assms(1)] by (simp add: abstraction_def)
next
  case (step_replace r v)
  then obtain old where ok: "record_ok P r" and old: "map_of (mem_records s) (recordKey (rec_type r) (rec_id r)) = Some old"
    "rec_scope old = rec_scope r" "rec_created r = rec_created old" "rec_manager r = rec_manager old"
    and s': "s' = s\<lparr>mem_records := AList.update (recordKey (rec_type r) (rec_id r)) r (mem_records s)\<rparr>"
    by (rule memory_replace_Inr)
  note o = store_ok_lookup [OF assms(1) old(1)]
  have "live_record s (rec_type r, rec_id r) = Some old" using old(1) o by (simp add: live_record_def)
  moreover have "same_identity old r" using old o by (simp add: same_identity_def)
  ultimately have "abstract_step (abstraction s)
      ((abstraction s)\<lparr>live := (live (abstraction s))((rec_type r, rec_id r) \<mapsto> r)\<rparr>)"
    by (intro abstract_replace) (simp_all add: abstraction_def)
  then show ?thesis
    unfolding s' using live_record_update [OF ok assms(1)] by (simp add: abstraction_def)
next
  case (step_delete sc ty i v t)
  then obtain r where r: "map_of (mem_records s) (recordKey ty i) = Some r" and t: "tombstone_matches sc ty i r t"
    and none: "map_of (mem_tombstones s) (recordKey ty i) = None"
    and s': "s' = s\<lparr>mem_records := AList.delete (recordKey ty i) (mem_records s),
                 mem_tombstones := AList.update (recordKey ty i) t (mem_tombstones s)\<rparr>"
    by (rule memory_delete_Inr)
  note k = store_ok_lookup [OF assms(1) r]
  have l: "live_record s (ty, i) = Some r" using r k by (simp add: live_record_def)
  have "validName ty" "validResourceID i" using record_ok_fields(2,3) [OF k(3)] k(1,2) by simp_all
  then have key: "recordKey ty' i' = recordKey ty i \<longleftrightarrow> ty' = ty \<and> i' = i" for ty' i' using recordKey_inject by blast
  have "live_record s' = (live_record s)((ty, i) := None)"
    by (rule ext) (auto simp: s' live_record_def map_of_delete key split: if_splits)
  moreover have "recordKey ty i \<notin> set (keys (mem_tombstones s))" using none by (simp add: map_of_eq_None_iff)
  moreover have "tomb_id t = i" using t by (simp add: tombstone_matches_def)
  ultimately have "abstraction s' = (abstraction s)\<lparr>live := (live (abstraction s))((ty, i) := None),
      dead := insert i (dead (abstraction s))\<rparr>"
    by (auto simp: abstraction_def s' update_fresh)
  moreover have "live (abstraction s) (ty, i) = Some r" using l by (simp add: abstraction_def)
  ultimately show ?thesis by (simp only: abstract_delete)
qed

lemma abstract_run:
  "store_run P s s' \<Longrightarrow> store_ok P s \<Longrightarrow> abstract_step\<^sup>*\<^sup>* (abstraction s) (abstraction s')"
proof (induction rule: rtranclp_induct)
  case (step t u)
  from step.hyps(1) step.prems have "store_ok P t" by (rule store_run_ok)
  from abstract_simulation [OF this step.hyps(2)] step.IH [OF step.prems] show ?case by simp
qed simp

text \<open>What the machine promises: an identifier is live at most once, and the dead stay dead.\<close>

definition abstract_ok :: "abstract_store \<Rightarrow> bool" where
  "abstract_ok a \<longleftrightarrow>
     (\<forall>ty i r. live a (ty, i) = Some r \<longrightarrow> rec_type r = ty \<and> rec_id r = i \<and> i \<notin> dead a)
     \<and> (\<forall>ty ty' i. live a (ty, i) \<noteq> None \<longrightarrow> live a (ty', i) \<noteq> None \<longrightarrow> ty = ty')"

lemma abstract_unique:
  "abstract_ok a \<Longrightarrow> live a (ty, i) = Some x \<Longrightarrow> live a (ty', i) = Some y \<Longrightarrow> ty = ty'"
  unfolding abstract_ok_def by (metis option.distinct(1))

lemma abstract_step_ok: "abstract_step a b \<Longrightarrow> abstract_ok a \<Longrightarrow> abstract_ok b \<and> dead a \<subseteq> dead b"
proof (erule abstract_stepE, goal_cases)
  case (1 r)
  then show ?case unfolding abstract_ok_def by (auto split: if_splits)
next
  case (2 r old)
  then have "rec_id r \<notin> dead a" unfolding abstract_ok_def by blast
  moreover have "live a (ty, rec_id r) = None" if "ty \<noteq> rec_type r" for ty
    using 2 that abstract_unique [of a "rec_type r" "rec_id r" old ty] by (cases "live a (ty, rec_id r)") auto
  ultimately show ?case using 2 unfolding abstract_ok_def by (auto split: if_splits)
next
  case (3 ty i old)
  then have "live a (ty', i) = None" if "ty' \<noteq> ty" for ty'
    using that abstract_unique [of a ty i old ty'] by (cases "live a (ty', i)") auto
  with 3 show ?case unfolding abstract_ok_def by (auto split: if_splits)
qed

lemma abstract_run_ok: "abstract_step\<^sup>*\<^sup>* a b \<Longrightarrow> abstract_ok a \<Longrightarrow> abstract_ok b \<and> dead a \<subseteq> dead b"
  by (induction rule: rtranclp_induct) (use abstract_step_ok in blast)+

lemma abstraction_ok: "abstract_ok (abstraction newMemoryState)"
  by (simp add: abstract_ok_def abstraction_def live_record_def newMemoryState_def)

end
