(* ===== verification/Scim_Examples.thy ===== *)
theory Scim_Examples
  imports Scim_Evolution
begin

text \<open>
  Concrete data for the witnesses, on the ASCII platform of Scim_Clone: a resource type of one
  attribute, one stored resource, a server, a clock and a supply of entropy, and requests.
\<close>

definition sample_type :: ResourceDefinition where
  "sample_type = empty_definition\<lparr>def_name := ''Thing'', endpoint := ''Things'', def_schema := ''urn:x'',
     def_attributes := [stringAttribute ''tag''], unique_attribute := ''tag'', filter_attributes := [''tag''],
     def_validate := Some (\<lambda>document mode. Inr document)\<rparr>"

lemma sample_type_name: "def_name sample_type = ''Thing''"
  by (simp add: sample_type_def)

text \<open>
  Stored records are written out, with the version their data have under the hash of the platform:
  a thing with an identifier, an external identity and a tag of one letter, whose byte is \<open>hex\<close>.
\<close>

definition thing_record :: "string \<Rightarrow> string \<Rightarrow> string \<Rightarrow> string \<Rightarrow> Record" where
  "thing_record i external tag hex =
     \<lparr>rec_scope = ''scope-a'', rec_type = ''Thing'', rec_id = i, rec_external = external, rec_manager = ''manager'',
      rec_version = CHR 0x22 # ''7d7d22'' @ hex @ ''223a22676174222c5d22783a6e7275225b3a2273616d65686373222c'' @ [CHR 0x22],
      rec_credential = [], rec_created = 5, rec_modified = 5,
      rec_data = object_text [(''externalId'', quoted external), (''schemas'', string_array [''urn:x'']), (''tag'', quoted tag)],
      rec_indexes = [index_key plain_platform sample_type ''tag'' tag]\<rparr>"

definition sample_record :: Record where
  "sample_record = thing_record ''id-one'' ''e1'' ''a'' ''61''"

definition sample_store :: memoryState where
  "sample_store = newMemoryState\<lparr>mem_records := [(recordKey ''Thing'' ''id-one'', sample_record)]\<rparr>"

lemma sample_created: "memory_create plain_platform sample_record newMemoryState = Inr sample_store"
  by code_simp

lemma sample_store_ok: "store_ok plain_platform sample_store"
  by (rule store_ok_create [OF store_ok_empty sample_created])

definition sample_registry :: Registry where
  "sample_registry = \<lparr>byEndpoint = [(''Things'', sample_type)], byName = [(''Thing'', sample_type)], ordered = [sample_type]\<rparr>"

lemma sample_registry_made: "NewRegistry plain_platform [sample_type] = Inr sample_registry"
proof -
  have "isl (NewRegistry plain_platform [sample_type]) = False" by code_simp
  then obtain r where r: "register plain_platform sample_type \<lparr>byEndpoint = [], byName = [], ordered = []\<rparr> = Inr r"
    by (auto simp: NewRegistry_def and_then_def split: sum.splits)
  have "r = sample_registry"
    using r by (auto simp: register_def sample_registry_def sample_type_def result_simps split: if_splits)
  with r show ?thesis by (simp add: NewRegistry_def sample_registry_def)
qed

definition sample_url :: url where
  "sample_url =
     \<lparr>url_scheme = ''https'', url_opaque = [], url_has_user = False, url_host = ''host'', url_path = ''/scim'',
      url_escaped_path = ''/scim'', url_raw_path = [], url_raw_query = [], url_force_query = False, url_fragment = []\<rparr>"

definition sample_server :: Server where
  "sample_server =
     \<lparr>sv_registry = sample_registry, sv_external = sample_url, sv_page_size = 100, sv_patch_operations = 100,
      sv_search_candidates = 1000, sv_schemes = [], sv_documentation = [], sv_public_discovery = True,
      sv_weak_etags = False, sv_change_password = False\<rparr>"

definition sample_world :: world where
  "sample_world = \<lparr>w_entropy = Some (replicate 64 (CHR ''A'')), w_clock = (\<lambda>n. 10 + int n), w_ticks = 0\<rparr>"

definition sample_body :: string where
  "sample_body = object_text [(''schemas'', string_array [''urn:x'']), (''tag'', quoted ''b'')]"

definition sample_request :: "string \<Rightarrow> string \<Rightarrow> string option \<Rightarrow> string option \<Rightarrow> request" where
  "sample_request m path body scope =
     \<lparr>rq_method = m, rq_path = path, rq_query = [], rq_content_type = ''application/scim+json'', rq_if_match = [],
      rq_if_none_match = [], rq_body = body, rq_scope = scope, rq_ctx = (\<lambda>_. live_ctx)\<rparr>"


section \<open>Reads and writes of the sample\<close>

lemma sample_get: "memory_get sample_store ''scope-a'' ''Thing'' ''id-one'' = Inr sample_record"
  by (simp add: memory_get_def sample_store_def sample_record_def thing_record_def)

lemma succeeded: "isl (fst x) = False \<Longrightarrow> \<exists>r w s. x = (Inr r, w, s)"
  by (cases x; cases "fst x") auto

lemma sample_create:
  "\<exists>r w s. create plain_platform (memory_ops plain_platform) sample_server live_ctx ''scope-a'' ''manager''
    sample_type sample_body sample_world sample_store = (Inr r, w, s)"
  by (rule succeeded) code_simp

lemma sample_replace:
  "\<exists>r w s. replace plain_platform (memory_ops plain_platform) sample_server live_ctx ''scope-a''
    sample_type ''id-one'' sample_body [] [] sample_world sample_store = (Inr r, w, s)"
  by (rule succeeded) code_simp

definition sample_patch :: PatchRequest where
  "sample_patch = \<lparr>patch_schemas = [PatchSchema],
     patch_operations = [\<lparr>op_name = ''replace'', op_path = ''tag'', op_value = quoted ''c''\<rparr>]\<rparr>"

lemma sample_patched:
  "\<exists>r w s. patch_resource plain_platform (memory_ops plain_platform) sample_server live_ctx ''scope-a''
    sample_type ''id-one'' sample_patch [] [] sample_world sample_store = (Inr r, w, s)"
  by (rule succeeded) code_simp

lemma sample_remove:
  "\<exists>r w s. remove (memory_ops plain_platform) sample_server live_ctx ''scope-a''
    sample_type ''id-one'' [] [] sample_world sample_store = (Inr r, w, s)"
  by (rule succeeded) code_simp

definition sample_grave :: Tombstone where
  "sample_grave = tombstone_of sample_record 7"

definition sample_deleted :: memoryState where
  "sample_deleted = newMemoryState\<lparr>mem_tombstones := [(recordKey ''Thing'' ''id-one'', sample_grave)]\<rparr>"

lemma sample_delete:
  "memory_delete ''scope-a'' ''Thing'' ''id-one'' (rec_version sample_record) sample_grave sample_store = Inr sample_deleted"
  by code_simp

lemma sample_deleted_ok: "store_ok plain_platform sample_deleted"
  by (rule store_ok_delete [OF sample_store_ok sample_delete])

lemma sample_grave_there: "(recordKey ''Thing'' ''id-one'', sample_grave) \<in> set (mem_tombstones sample_deleted)"
  by (simp add: sample_deleted_def newMemoryState_def)

section \<open>Reconciling the sample\<close>

definition sample_reconcile :: ReconcileRequest where
  "sample_reconcile = \<lparr>rq_rec_scope = ''scope-a'', rq_manager = ''manager'',
     rq_resources = [\<lparr>de_type = ''Thing'', de_external = ''e2'', de_data = sample_body\<rparr>], rq_delete_missing = True\<rparr>"

lemma sample_reconciled:
  "\<exists>r w s. Reconcile plain_platform (memory_ops plain_platform) sample_registry live_ctx sample_reconcile
    sample_world sample_store = (Inr r, w, s)"
  by (rule succeeded) code_simp

definition sample_prepared :: "preparedDesired list" where
  "sample_prepared = projr (reconcile_input plain_platform sample_registry sample_reconcile)"

lemma sample_prepare: "reconcile_input plain_platform sample_registry sample_reconcile = Inr sample_prepared"
  and sample_distinct: "distinct (map pd_external sample_prepared)"
proof -
  have "(case reconcile_input plain_platform sample_registry sample_reconcile of
      Inl e \<Rightarrow> False | Inr ps \<Rightarrow> map pd_external ps = [''e2''])" by code_simp
  then show "reconcile_input plain_platform sample_registry sample_reconcile = Inr sample_prepared"
    and "distinct (map pd_external sample_prepared)"
    by (auto simp: sample_prepared_def split: sum.splits)
qed

section \<open>A bulk request of the sample\<close>

text \<open>Its first operation refers to the second.\<close>

definition sample_bulk :: BulkRequest where
  "sample_bulk = \<lparr>br_schemas = [BulkRequestSchema], br_fail_on_errors = 0,
     br_operations =
       [\<lparr>bo_method = ''POST'', bo_bulk_id = ''a'', bo_path = ''/Things'', bo_version = [],
         bo_data = object_text [(''schemas'', string_array [''urn:x'']), (''tag'', quoted ''bulkId:b'')]\<rparr>,
        \<lparr>bo_method = ''POST'', bo_bulk_id = ''b'', bo_path = ''/Things'', bo_version = [], bo_data = sample_body\<rparr>]\<rparr>"

text \<open>A world that can name two resources.\<close>

definition bulk_world :: world where
  "bulk_world = sample_world\<lparr>w_entropy := Some (replicate 16 (CHR ''A'') @ replicate 16 (CHR ''B''))\<rparr>"

section \<open>Patches and searches of the sample\<close>

definition sample_patch_body :: string where
  "sample_patch_body = object_text [(''schemas'', string_array [PatchSchema]),
     (''Operations'', array_text [object_text [(''op'', quoted ''Replace''), (''path'', quoted ''tag''), (''value'', quoted ''c'')]])]"

definition sample_user :: document where
  "sample_user = [(''emails'', JArr [JObj [(''value'', JStr ''a''), (''type'', JStr ''work'')],
     JObj [(''value'', JStr ''b''), (''type'', JStr ''home'')]])]"

definition work_emails :: patchPath where
  "work_emails = \<lparr>pp_extension = [], pp_attribute = ''emails'',
     pp_filter = concat [''type eq '', [CHR 0x22], ''work'', [CHR 0x22]], pp_sub = []\<rparr>"

definition sample_plan :: searchPlan where
  "sample_plan = \<lparr>sp_filter = Some (FilterPresent ''tag'' [''tag'']), sp_sort_path = [''tag''],
     sp_sort_attr = stringAttribute ''tag'', sp_descending = False, sp_start = 1, sp_count = 10,
     sp_include = [], sp_exclude = []\<rparr>"

definition sample_resources :: "document list" where
  "sample_resources = [[(''tag'', JStr ''b'')], [(''tag'', JStr ''a'')]]"

end
