(* ===== verification/Scim_Boundaries.thy ===== *)
theory Scim_Boundaries
  imports Scim_Examples Scim_Patch_Facts Scim_Registry Scim_Projection
begin

text \<open>
  Behaviour at the boundaries of the components, on the sample data: where two parts of the code
  disagree about a case that each of them handles. The universal statements come first, the
  concrete runs through the whole server after them.
\<close>

section \<open>Resources without indexes\<close>

text \<open>A record without indexes is never rendered, whatever its data.\<close>

lemma unindexed_not_rendered: "rec_indexes r = [] \<Longrightarrow> isl (renderRecord P sv d r)"
  by (auto simp: renderRecord_def same_indexes_def and_then_def or_error_def split: sum.splits)

definition untagged_body :: string where
  "untagged_body = object_text [(''schemas'', string_array [''urn:x''])]"

text \<open>So a resource with none of the filter attributes is stored and no read of it succeeds.\<close>

lemma untagged_stored_unreadable:
  "\<exists>r w s. create plain_platform (memory_ops plain_platform) sample_server live_ctx ''scope-a'' ''manager''
       sample_type untagged_body sample_world newMemoryState = (Inr r, w, s)
     \<and> memory_get s ''scope-a'' ''Thing'' (rec_id r) = Inr r
     \<and> isl (renderRecord plain_platform sample_server sample_type r)"
proof -
  have "(case create plain_platform (memory_ops plain_platform) sample_server live_ctx ''scope-a'' ''manager''
       sample_type untagged_body sample_world newMemoryState of
     (Inr r, w, s) \<Rightarrow> rec_indexes r = [] | _ \<Rightarrow> False)" by code_simp
  then obtain r w s where c: "create plain_platform (memory_ops plain_platform) sample_server live_ctx ''scope-a'' ''manager''
       sample_type untagged_body sample_world newMemoryState = (Inr r, w, s)" and "rec_indexes r = []"
    by (auto split: prod.splits sum.splits)
  with memory_server.create_effect [OF store_ok_empty c] unindexed_not_rendered sample_type_name
  show ?thesis by (auto simp: memory_ops_def)
qed

section \<open>External identifiers\<close>

definition buried :: memoryState where
  "buried = sample_store\<lparr>mem_tombstones := [(recordKey ''Thing'' ''id-two'', sample_grave\<lparr>tomb_id := ''id-two'', tomb_external := ''e2''\<rparr>)]\<rparr>"

definition renamed_record :: Record where
  "renamed_record = thing_record ''id-one'' ''e2'' ''a'' ''61''"

text \<open>The external identity of a tombstone is refused to a new record and granted to a replaced one.\<close>

lemma tombstoned_external_by_replace:
  "memory_create plain_platform (renamed_record\<lparr>rec_id := ''id-three''\<rparr>) buried = Inl ErrTombstoned
   \<and> isl (memory_replace plain_platform renamed_record (rec_version sample_record) buried) = False"
  by code_simp

text \<open>
  Two records of a scope may share an external identity, since only indexes are unique; a reconciliation of the
  scope then fails, even one that asks for nothing.
\<close>

definition twin_record :: Record where
  "twin_record = thing_record ''id-two'' ''e1'' ''b'' ''62''"

definition twin_store :: memoryState where
  "twin_store = sample_store\<lparr>mem_records := mem_records sample_store @ [(recordKey ''Thing'' ''id-two'', twin_record)]\<rparr>"

lemma twins_stop_reconciliation:
  "memory_create plain_platform twin_record sample_store = Inr twin_store
   \<and> isl (fst (Reconcile plain_platform (memory_ops plain_platform) sample_registry live_ctx
       (sample_reconcile\<lparr>rq_resources := []\<rparr>) sample_world twin_store))"
proof
  show "memory_create plain_platform twin_record sample_store = Inr twin_store" by code_simp
  show "isl (fst (Reconcile plain_platform (memory_ops plain_platform) sample_registry live_ctx
       (sample_reconcile\<lparr>rq_resources := []\<rparr>) sample_world twin_store))" by code_simp
qed

section \<open>Endpoints with the names of the protocol\<close>

text \<open>A resource type may take the endpoint of bulk requests, and is then out of reach.\<close>

lemma bulk_endpoint_shadowed:
  "isl (NewRegistry plain_platform [sample_type\<lparr>endpoint := ''Bulk''\<rparr>]) = False
   \<and> dispatch P ops sv rq scope [''Bulk''] w s = serveBulk P ops sv rq scope w s"
proof
  show "isl (NewRegistry plain_platform [sample_type\<lparr>endpoint := ''Bulk''\<rparr>]) = False" by code_simp
qed (simp add: dispatch_def)

section \<open>Names in paths\<close>

text \<open>A patch keeps the client's spelling of an attribute that is not among the core ones, and so adds a second one.\<close>

lemma patch_adds_second_spelling:
  "applyPatchOperation plain_platform sample_type [(''tag'', JStr ''a'')] ''add'' ''TAG'' (JStr ''b'')
    = Inr [(''tag'', JStr ''a''), (''TAG'', JStr ''b'')]"
  by code_simp

section \<open>Searches over several types\<close>

definition vault_type :: ResourceDefinition where
  "vault_type = sample_type\<lparr>def_name := ''Vault'', endpoint := ''Vaults'', def_schema := ''urn:y'',
     def_attributes := [SchemaAttribute ''tag'' ''string'' False [] False [] False ''readWrite'' ''never'' ''none'' [] []]\<rparr>"

text \<open>
  An attribute that one type never returns is returned by a search over several types when a type with an earlier
  name has an attribute of the same name: the registry orders definitions by name, and the combined definition
  takes the first contract.
\<close>

lemma never_returned_in_combined_search:
  "isl (NewRegistry plain_platform [sample_type, vault_type]) = False
   \<and> [''tag''] \<in> set (paths_returned ''never'' vault_type)
   \<and> [''tag''] \<notin> set (paths_returned ''never'' (combinedSearchDefinition plain_platform [sample_type, vault_type]))
   \<and> (case projectDocument plain_platform [(''tag'', JStr ''x'')] [] []
         (combinedSearchDefinition plain_platform [sample_type, vault_type]) of
        Inl e \<Rightarrow> False | Inr out \<Rightarrow> has_path out [''tag''])"
proof (intro conjI)
  show "isl (NewRegistry plain_platform [sample_type, vault_type]) = False" by code_simp
  show "[''tag''] \<in> set (paths_returned ''never'' vault_type)" by code_simp
  show "[''tag''] \<notin> set (paths_returned ''never'' (combinedSearchDefinition plain_platform [sample_type, vault_type]))"
    by code_simp
  show "case projectDocument plain_platform [(''tag'', JStr ''x'')] [] []
         (combinedSearchDefinition plain_platform [sample_type, vault_type]) of
        Inl e \<Rightarrow> False | Inr out \<Rightarrow> has_path out [''tag'']" by code_simp
qed

end
