(* ===== verification/Scim_Responses.thy ===== *)
theory Scim_Responses
  imports Scim_Discovery Scim_Server_Facts
begin

text \<open>
  What the status of a response says about the store: a request that is refused leaves it as it was.
  Only an answer of success, or the failure to render a record after it was written, comes with a
  new state.
\<close>

section \<open>Statuses\<close>

definition settled :: "int set" where
  "settled = {200, 201, 204, 500}"

text \<open>A response that may come with a change.\<close>

definition justified :: "'s \<Rightarrow> 's served \<Rightarrow> bool" where
  "justified s = (\<lambda>(resp, w, s'). s' = s \<or> rs_status resp \<in> settled)"

lemma justified_same [simp, intro]: "justified s (resp, w, s)"
  by (simp add: justified_def)

lemma writeJSON_status: "rs_status (writeJSON headers st encoded) \<in> {st, 500}"
  by (simp add: writeJSON_def split: sum.split)

lemma server_error_status: "rs_status (writeProtocolError (clientError 500 [] d)) = 500"
  by (auto simp: writeProtocolError_def protocol_error_def client_failure_def clientError_def writeJSON_def
      NewError_def Let_def check_def and_then_def split: sum.split)

text \<open>
  The projection a handler admits before it acts is the one the response needs afterwards, so the
  response of a write is its own status or 500.
\<close>

lemma record_status:
  assumes "validateResourceProjection P q d (sv_page_size sv) = Inr plan"
  shows "rs_status (writeRecordProjected P sv st d r q) \<in> {st, 500}"
proof (cases "record_document P sv d r q")
  case (Inl e)
  then have "e = clientError 500 [] ''stored resource is invalid'' \<or> e = clientError 500 [] ''resource projection failed''"
    using assms by (auto simp: record_document_def and_then_def or_error_def split: sum.splits)
  with Inl show ?thesis by (auto simp: writeRecordProjected_def server_error_status)
next
  case (Inr document)
  then show ?thesis using writeJSON_status by (auto simp: writeRecordProjected_def Let_def)
qed

lemma write_result_justified:
  assumes "validateResourceProjection P (rq_query rq) d (sv_page_size sv) = Inr plan" and "st \<in> settled"
    and "\<And>e w' s'. out = (Inl e, w', s') \<Longrightarrow> s' = s"
  shows "justified s (write_result P sv rq st d out)"
proof -
  obtain res w' s' where out: "out = (res, w', s')" by (cases out)
  show ?thesis
  proof (cases res)
    case (Inl e)
    with assms(3) out show ?thesis by (simp add: write_result_def)
  next
    case (Inr r)
    with out record_status [OF assms(1)] assms(2) show ?thesis
      by (auto simp: write_result_def justified_def settled_def)
  qed
qed

section \<open>Handlers\<close>

lemma reading_same: "Transact ctx (\<lambda>s. and_then (f s) (\<lambda>x. Inr (x, s))) s = (r, s') \<Longrightarrow> s' = s"
  by (auto simp: Transact_def and_then_def split: option.splits sum.splits)

lemma executeSearch_same: "snd (snd (executeSearch P ops sv rq scope ds search w s)) = s"
  by (auto simp: executeSearch_def Let_def split: sum.split prod.split dest: reading_same)

lemma search_same:
  "snd (snd (serveSearch P ops sv rq scope one w s)) = s"
  "snd (snd (query_search P ops sv rq scope ds w s)) = s"
  by (simp_all add: serveSearch_def query_search_def executeSearch_same split: sum.split)

lemma justified_if_same: "snd (snd x) = s \<Longrightarrow> justified s x"
  by (cases x) (simp add: justified_def)

lemma admitted_plan:
  "admit_projection P sv rq d = Inr plan \<Longrightarrow> validateResourceProjection P (rq_query rq) d (sv_page_size sv) = Inr plan"
  by (simp add: admit_projection_def result_simps)

lemma getResource_same: "snd (snd (getResource P ops sv rq scope d i w s)) = s"
  using reading_same [of "rq_ctx rq 0" "\<lambda>s. tx_get ops s scope (def_name d) i" s]
  by (auto simp: getResource_def get_in_def [abs_def] split: sum.split prod.split)

lemma createResource_justified:
  assumes "admit_projection P sv rq d = Inr plan"
  shows "justified s (createResource P ops sv rq scope d w s)"
  by (auto simp: createResource_def settled_def intro!: write_result_justified [OF admitted_plan [OF assms]]
      dest: failed_operations(1) split: sum.split)

lemma replaceResource_justified:
  assumes "admit_projection P sv rq d = Inr plan"
  shows "justified s (replaceResource P ops sv rq scope d i w s)"
  by (auto simp: replaceResource_def settled_def intro!: write_result_justified [OF admitted_plan [OF assms]]
      dest: failed_operations(2) split: sum.split)

lemma patchResource_justified:
  assumes "admit_projection P sv rq d = Inr plan"
  shows "justified s (patchResource P ops sv rq scope d i w s)"
  by (auto simp: patchResource_def settled_def intro!: write_result_justified [OF admitted_plan [OF assms]]
      dest: failed_operations(3) split: sum.split)

lemma deleteResource_justified: "justified s (deleteResource ops sv rq scope d i w s)"
  by (auto simp: deleteResource_def justified_def settled_def dest: failed_operations(4) split: prod.split sum.split)

lemma serveCollection_justified: "justified s (serveCollection P ops sv rq scope d w s)"
  by (auto simp: serveCollection_def listResources_def search_same createResource_justified
      intro: justified_if_same split: sum.split)

lemma serveResource_justified: "justified s (serveResource P ops sv rq scope d i w s)"
  by (auto simp: serveResource_def getResource_same replaceResource_justified patchResource_justified
      deleteResource_justified intro: justified_if_same split: sum.split)

lemma serveBulk_justified: "justified s (serveBulk P ops sv rq scope w s)"
  using writeJSON_status [of "[]" 200]
  by (auto simp: serveBulk_def Let_def justified_def settled_def split: sum.split)

lemma serveEndpoint_justified: "justified s (serveEndpoint P ops sv rq scope collection i w s)"
  by (auto simp: serveEndpoint_def serveCollection_justified serveResource_justified search_same
      intro: justified_if_same split: option.split)

lemma dispatch_justified: "justified s (dispatch P ops sv rq scope segments w s)"
proof -
  consider "segments = []" | one where "segments = [one]" | one two where "segments = [one, two]"
    | one two three rest where "segments = one # two # three # rest" by (metis list.exhaust)
  then show ?thesis
    by cases (simp_all add: dispatch_def serveRoot_def justified_if_same search_same serveBulk_justified serveEndpoint_justified)
qed

lemma ServeHTTP_justified: "justified s (ServeHTTP P ops sv rq w s)"
  by (auto simp: ServeHTTP_def dispatch_justified split: sum.split option.split)

end
