(* ===== verification/Scim_Stripping.thy ===== *)
theory Scim_Stripping
  imports Scim_Projection Scim_Mutability
begin

text \<open>
  What stripping removes, at every depth: the paths of the read-only attributes of a schema, through
  objects and through the elements of arrays. Stripping only ever takes paths away, so a later round
  cannot undo an earlier one, whatever the names of the attributes.
\<close>

function (sequential) read_only_paths :: "SchemaAttribute list \<Rightarrow> string list list" where
  "read_only_paths [] = []"
| "read_only_paths (attribute # rest) =
     (if attr_mutability attribute = ''readOnly'' then [[attr_name attribute]]
      else if attr_type attribute = ''complex''
      then map (Cons (attr_name attribute)) (read_only_paths (sub_attributes attribute)) else [])
     @ read_only_paths rest"
  by pat_completeness auto
termination
  by (relation "measure (size_list size)") (auto simp: sub_attributes_size trans_less_add1 less_SucI)

lemma read_only_paths_nonempty: "p \<in> set (read_only_paths attributes) \<Longrightarrow> p \<noteq> []"
  by (induction attributes rule: read_only_paths.induct) (auto split: if_splits)

text \<open>Paths below a value whose objects were changed.\<close>

lemma mapped_objects:
  "JObj y \<in> set (map (\<lambda>x. case x of JObj m \<Rightarrow> JObj (f m) | _ \<Rightarrow> x) xs) \<longleftrightarrow> (\<exists>m. JObj m \<in> set xs \<and> y = f m)"
  by (induction xs) (auto split: json.splits)

lemma below_map_objects: "below (map_objects f v) q \<longleftrightarrow>
    (case v of JObj m \<Rightarrow> has_path (f m) q | JArr xs \<Rightarrow> (\<exists>m. JObj m \<in> set xs \<and> has_path (f m) q) | _ \<Rightarrow> False)"
proof (cases v)
  case (JArr xs)
  then show ?thesis by (simp add: map_objects_def mapped_objects del: set_map) blast
qed (simp_all add: map_objects_def)

lemma below_map_objects_frame:
  "below (map_objects f v) q \<Longrightarrow> (\<And>m. has_path (f m) q \<Longrightarrow> has_path m q) \<Longrightarrow> below v q"
  by (auto simp: below_map_objects split: json.splits)

lemma below_map_objects_gone: "(\<And>m. \<not> has_path (f m) q) \<Longrightarrow> \<not> below (map_objects f v) q"
  by (auto simp: below_map_objects split: json.splits)

text \<open>Replacing a value by one with fewer paths.\<close>

lemma update_nested_frame:
  assumes "has_path (AList.update name (map_objects f nested) m) p" and "map_of m name = Some nested"
    and "\<And>m q. has_path (f m) q \<Longrightarrow> has_path m q"
  shows "has_path m p"
proof (cases p)
  case (Cons n q)
  with assms(1) obtain v where v: "map_of (AList.update name (map_objects f nested) m) n = Some v" "q = [] \<or> below v q"
    by (auto simp: has_path_Cons)
  show ?thesis
  proof (cases "n = name")
    case True
    with v have "q = [] \<or> below nested q" using below_map_objects_frame assms(3) by (auto simp: map_of_update)
    with True assms(2) Cons show ?thesis by (auto simp: has_path_Cons)
  next
    case False
    with v Cons show ?thesis by (auto simp: has_path_Cons map_of_update)
  qed
qed (use assms(1) in simp)

text \<open>One round of the loop.\<close>

lemma strip_round:
  obtains (read_only) "attr_mutability a = ''readOnly''"
      "stripReadOnlyAttributes object (a # rest) None = stripReadOnlyAttributes (AList.delete (attr_name a) object) rest None"
  | (nested) nested where "attr_mutability a \<noteq> ''readOnly''" "attr_type a = ''complex''"
      "map_of object (attr_name a) = Some nested"
      "stripReadOnlyAttributes object (a # rest) None = stripReadOnlyAttributes (AList.update (attr_name a)
         (map_objects (\<lambda>m. stripReadOnlyAttributes m (sub_attributes a) None) nested) object) rest None"
  | (other) "attr_mutability a \<noteq> ''readOnly''" "attr_type a = ''complex'' \<Longrightarrow> map_of object (attr_name a) = None"
      "stripReadOnlyAttributes object (a # rest) None = stripReadOnlyAttributes object rest None"
  by (cases "map_of object (attr_name a)"; cases "attr_mutability a = ''readOnly''"; cases "attr_type a = ''complex''")
    (simp_all add: stripReadOnlyAttributes.simps)

lemma strip_paths_frame: "has_path (stripReadOnlyAttributes object attributes None) p \<Longrightarrow> has_path object p"
proof (induction attributes arbitrary: object p rule: read_only_paths.induct)
  case (2 a rest)
  show ?case
  proof (cases rule: strip_round [of a object rest])
    case read_only
    with "2.IH"(2) "2.prems" show ?thesis by (metis has_path_delete)
  next
    case (nested v)
    with "2.IH"(2) "2.prems" have "has_path (AList.update (attr_name a)
         (map_objects (\<lambda>m. stripReadOnlyAttributes m (sub_attributes a) None) v) object) p" by simp
    then show ?thesis using nested "2.IH"(1) by (elim update_nested_frame) simp_all
  next
    case other
    with "2.IH"(2) "2.prems" show ?thesis by simp
  qed
qed simp

text \<open>The paths of the read-only attributes are gone.\<close>

lemma strip_paths_gone:
  "p \<in> set (read_only_paths attributes) \<Longrightarrow> \<not> has_path (stripReadOnlyAttributes object attributes None) p"
proof (induction attributes arbitrary: object p rule: read_only_paths.induct)
  case (2 a rest)
  note rest = "2.IH"(2)
  show ?case
  proof (cases rule: strip_round [of a object rest])
    case read_only
    have "\<not> has_path (AList.delete (attr_name a) object) [attr_name a]" by (simp add: has_path_Cons map_of_delete)
    with "2.prems" read_only rest show ?thesis by (auto dest: strip_paths_frame)
  next
    case (nested v)
    have "\<not> has_path (AList.update (attr_name a)
         (map_objects (\<lambda>m. stripReadOnlyAttributes m (sub_attributes a) None) v) object) (attr_name a # q)"
      if q: "q \<in> set (read_only_paths (sub_attributes a))" for q
      using below_map_objects_gone [OF "2.IH"(1)] nested q read_only_paths_nonempty [OF q]
      by (simp add: has_path_Cons map_of_update)
    with "2.prems" nested rest show ?thesis by (auto dest: strip_paths_frame)
  next
    case other
    have "\<not> has_path object (attr_name a # q)" if "attr_type a = ''complex''" for q
      using other that by (simp add: has_path_Cons)
    with "2.prems" other rest show ?thesis by (auto dest: strip_paths_frame split: if_splits)
  qed
qed simp

section \<open>Whole resources\<close>

lemma strip_extension_frame: "has_path (strip_extension extension document) p \<Longrightarrow> has_path document p"
proof (cases "object_at document (ext_schema extension)")
  case (Some object)
  assume "has_path (strip_extension extension document) p"
  with Some have "has_path (AList.update (ext_schema extension)
      (map_objects (\<lambda>m. stripReadOnlyAttributes m (ext_attributes extension) None) (JObj object)) document) p"
    by (simp add: strip_extension_def map_objects_def)
  then show ?thesis
    by (rule update_nested_frame) (use Some in \<open>auto simp: object_at_def as_values strip_paths_frame split: bind_splits\<close>)
qed (simp add: strip_extension_def)

lemma strip_extensions_frame: "has_path (fold strip_extension es document) p \<Longrightarrow> has_path document p"
  by (induction es arbitrary: document) (auto dest: strip_extension_frame)

lemma read_only_stripped:
  "p \<in> set (read_only_paths (def_attributes d)) \<Longrightarrow> \<not> has_path (stripReadOnly d document) p"
  using strip_extensions_frame strip_paths_gone by (fastforce simp: stripReadOnly_def)

text \<open>And those of an extension, in the object of the extension.\<close>

lemma strip_extension_keeps_gone:
  assumes "\<And>object. object_at document k = Some object \<Longrightarrow> \<not> has_path object p"
    and "object_at (strip_extension extension document) k = Some object"
  shows "\<not> has_path object p"
  using assms
  by (auto simp: strip_extension_def object_at_def map_of_update as_values split: option.splits if_splits bind_splits
      dest: strip_paths_frame)

lemma strip_extension_gone:
  assumes "p \<in> set (read_only_paths (ext_attributes e))"
    and "object_at (strip_extension e document) (ext_schema e) = Some object"
  shows "\<not> has_path object p"
  using assms strip_paths_gone
  by (auto simp: strip_extension_def object_at_def map_of_update as_values split: option.splits bind_splits)

lemma strip_extensions_gone:
  assumes "e \<in> set es" and "p \<in> set (read_only_paths (ext_attributes e))"
    and "object_at (fold strip_extension es document) (ext_schema e) = Some object"
  shows "\<not> has_path object p"
proof -
  have kept: "\<not> has_path object p"
    if "\<And>object. object_at document (ext_schema e) = Some object \<Longrightarrow> \<not> has_path object p"
      and "object_at (fold strip_extension es document) (ext_schema e) = Some object" for es document object
    using that
  proof (induction es arbitrary: document)
    case (Cons e' es)
    show ?case by (rule Cons.IH [OF strip_extension_keeps_gone]) (use Cons.prems in auto)
  qed simp
  show ?thesis using assms(1,3)
  proof (induction es arbitrary: document)
    case (Cons e' es)
    show ?case
    proof (cases "e = e'")
      case True
      with Cons.prems kept [OF strip_extension_gone [OF assms(2)]] show ?thesis by simp
    next
      case False
      with Cons show ?thesis by simp
    qed
  qed simp
qed

end
