(* ===== verification/Spec2Isabelle.thy ===== *)
theory Spec2Isabelle
  imports Scim_Conformance Scim_Registry Scim_Prepare Scim_Filter_Facts Scim_Server_Facts Scim_Bulk_Facts
    Scim_Page_Facts Scim_Projection Scim_Sharing Scim_Reconcile_Facts Scim_Evolution Scim_Abstract Scim_Examples
    Scim_Boundaries Scim_Responses Scim_Stripping
begin

text \<open>
  The Go package \<^verbatim>\<open>pkg/scim\<close> is a SCIM 2.0 service provider: an HTTP handler over a transactional store,
  a reconciler that drives the same store from a list of desired resources, and a reference
  store in memory. This development translates the package function by function and proves what
  its documents promise: requests of one scope never touch another, identifiers and tombstones are
  permanent, writes are conditional and all-or-nothing, answers hide what the schema hides, and
  the parsers and printers agree with each other.

  \<^bold>\<open>Parts and theories.\<close> Theories are listed in the order of their imports; the Go files are those under
  \<^verbatim>\<open>src/pkg/scim\<close>.

    \<^item> Values and text. Scim_Prelude has the errors (\<open>scim_error\<close>), results (\<open>scim_error + 'a\<close>), the loop shapes
      and Go maps as association lists. Scim_Strings models Go strings as byte lists, with UTF-8, case mapping and
      decimal numbers; what Unicode tables decide is a field of \<open>platform\<close>, as is everything taken from
      other packages (\<^verbatim>\<open>url.Parse\<close>, the precis profile, time formats, SHA-256).
    \<^item> Documents (json.go, normalize.go). Scim_Json, Scim_Codec and Scim_Raw hold the decoder, the canonical encoder and raw
      JSON text, Scim_Struct the decoding of request structs. Scim_Lexing, Scim_Roundtrip, Scim_Tokens,
      Scim_Decoding and Scim_Clone prove the bounds of what is decoded and the round trip.
    \<^item> Names and envelopes (schemas.go, protocol_error.go, id.go): Scim_Names. Entity tags (etag.go): Scim_Etag.
    \<^item> Schemas and resources (resource.go). Scim_Schema has attributes, extensions and definitions, Scim_Resource and
      Scim_Prepare the validation, normalisation and indexes of a resource, Scim_Registry the registry, Scim_Url the external
      URL, locations and routing. Scim_Mutability is mutability.go, Scim_Stripping what it removes at every depth.
    \<^item> Filters (filter_expression.go, filter.go): Scim_Numbers, Scim_Filter, Scim_Filter_Facts.
    \<^item> PATCH (patch.go, patch_apply.go): Scim_Patch, Scim_Patch_Facts, Scim_Patch_Effect,
      Scim_Sharing (arrays as slices over shared storage).
    \<^item> Searches (search.go): Scim_Search for requests, plans, order, pages and projection; Scim_Page_Facts and Scim_Projection for
      what they guarantee.
    \<^item> Storage (store.go, record.go, memory.go, conformance.go). Scim_Records has records and their versions, Scim_Store the
      \<^verbatim>\<open>Transaction\<close> interface as the record \<open>tx_ops\<close> and the memory store, Scim_Contract the contract as the
      locale \<open>transactions\<close> with the memory store as its interpretation, Scim_Conformance the suite CheckStore.
    \<^item> The server (server.go, credentials.go, discovery.go). Scim_Server holds the operations create, replace, patch_resource and remove below
      HTTP, Scim_Http the handlers, Scim_Discovery the discovery endpoints and \<open>ServeHTTP\<close>. Scim_Server_Facts proves the
      effect of the operations in the locale \<open>credential_transactions\<close>.
    \<^item> Bulk requests (bulk.go, bulk_execute.go): Scim_Bulk, Scim_Bulk_Facts. Reconciliation (reconcile.go): Scim_Reconcile,
      Scim_Reconcile_Facts.
    \<^item> Everything together. Scim_Responses says what a status means for the store, Scim_Evolution follows a store through any sequence of requests and reconciliations
      (\<open>history\<close>), Scim_Abstract is the abstract machine the memory store refines, Scim_Examples has the data of the
      witnesses, and Scim_Boundaries the cases in which two parts of the code disagree.

  \<^bold>\<open>How state and operations correspond.\<close> The fields of the Go structs are the fields of the records, with a prefix
  where a name would clash. A store is a value: a transaction is a function from the state to a result and
  a new state, \<open>Transact\<close> keeps the old state when the callback fails or the context is cancelled, and the
  mutex of the memory store makes any concurrent use a sequence of such transactions. The clock and the
  entropy source are the \<open>world\<close>, which every operation returns with what it took removed, also when it
  fails. A request holds what net/http has parsed and the answers of its context at the begin and
  end of each transaction. Functions that change maps in place return the changed map. A time is its
  number of nanoseconds, zero being the zero time.

  \<^bold>\<open>What is proved.\<close> C1 to C7 are about the store over all histories, C8 to C13 about the operations of the
  server, C14 to C16 about reconciliation and bulk requests, C17 to C24 about documents, names, tags and
  the registry, C25 to C27 about filters, C28 to C31 about patches, C32 to C35 about the preparation of
  resources, C36 to C40 about what is returned. Properties of the storage layer are proved over any
  provider of the contract and instantiated to the memory store by the interpretations \<open>memory\<close>,
  \<open>memory_server\<close> and \<open>memory_runs\<close>.

  \<^bold>\<open>Bounds and fuel.\<close> The limits are the constants of the code. The JSON parser runs on fuel,
  twice the number of its tokens and one, which C19 shows to be enough. The loops of the filter parser run on
  the number of tokens left, of which every round takes one (\<open>chain_fuel\<close>). The bulk loop ends because
  each pass settles an operation or is the last. All other recursions end by measures.

  \<^bold>\<open>Not modelled.\<close> Sharing: the model has no aliases, so the defensive copies of the code (cloneRecord,
  cloneDefinition, cloneSchemaAttributes, clearSecret) have no counterpart. Where a patch stores one array under several
  elements and appends to it later, the code's elements share memory and the model's do not; Scim_Sharing has
  the append of the code over an explicit store, the condition under which the two agree and what happens
  without it. Go map
  iteration: where \<^verbatim>\<open>range\<close> goes over a map the model goes in the order of insertion, and no property depends on it;
  \<^verbatim>\<open>sort.SliceStable\<close> is an insertion sort, which gives the same list whenever the comparison is a weak
  order (C36 asks for that). Reads of a request body, response writers, headers that are not used, nil receivers
  and nil contexts are left out. The tests, fuzz targets and build scripts are no part of the model.
\<close>

section \<open>The store, over all histories\<close>

lemma history_served:
  "history P sv s t \<Longrightarrow> history P sv s (snd (snd (ServeHTTP P (memory_ops P) sv rq w t)))"
  by (erule history_request [where resp = "fst (ServeHTTP P (memory_ops P) sv rq w t)"
        and w' = "fst (snd (ServeHTTP P (memory_ops P) sv rq w t))" and rq = rq and w = w]) simp

text \<open>C1: after any history of requests, bulk operations and reconciliations, with any clock, entropy and
  cancellations, the memory store is well-formed: keys name their records, every record is valid, live
  identifiers are pairwise different and differ from tombstoned ones, and no two live records of
  a scope and type collide on a unique index.\<close>

theorem history_store_ok:
  assumes "history P sv newMemoryState s"
  shows "store_ok P s"
  using assms by (rule history_ok)

theorem history_store_ok_witness:
  "store_ok plain_platform (snd (snd (ServeHTTP plain_platform (memory_ops plain_platform) sample_server
     (sample_request ''POST'' ''/scim/Things'' (Some sample_body) (Some ''scope-a'')) sample_world newMemoryState)))"
proof (rule history_store_ok)
  show "history plain_platform sample_server newMemoryState
    (snd (snd (ServeHTTP plain_platform (memory_ops plain_platform) sample_server
     (sample_request ''POST'' ''/scim/Things'' (Some sample_body) (Some ''scope-a'')) sample_world newMemoryState)))"
    by (rule history_served [OF history_start])
qed

text \<open>C2: a request answered in one scope leaves every record of every other scope exactly as it was,
  whatever the request, bulk requests included.\<close>

theorem scope_isolation:
  assumes "store_ok P s" and "rq_scope rq = Some scope" and "sc \<noteq> scope"
  shows "memory_get (snd (snd (ServeHTTP P (memory_ops P) sv rq w s))) sc ty i = memory_get s sc ty i"
  using memory_server.request_isolated [of P sv rq w s "fst (ServeHTTP P (memory_ops P) sv rq w s)"
      "fst (snd (ServeHTTP P (memory_ops P) sv rq w s))" "snd (snd (ServeHTTP P (memory_ops P) sv rq w s))" scope sc ty i] assms
  by (simp add: memory_ops_def)

theorem scope_isolation_witness:
  "memory_get (snd (snd (ServeHTTP plain_platform (memory_ops plain_platform) sample_server
     (sample_request ''DELETE'' ''/scim/Things/id-one'' None (Some ''scope-b'')) sample_world sample_store)))
     ''scope-a'' ''Thing'' ''id-one'' = Inr sample_record"
  by (subst scope_isolation [where scope = "''scope-b''"])
    (simp_all add: sample_store_ok sample_get, simp add: sample_request_def)

text \<open>C3: a request to which the scope resolver gives no scope changes nothing in the store, also when
  discovery is public and its path looks like a resource below a discovery endpoint.\<close>

theorem unauthenticated_changes_nothing:
  assumes "store_ok P s" and "rq_scope rq = None"
  shows "snd (snd (ServeHTTP P (memory_ops P) sv rq w s)) = s"
  using memory_server.unauthenticated_unchanged [of P sv rq w s "fst (ServeHTTP P (memory_ops P) sv rq w s)"
      "fst (snd (ServeHTTP P (memory_ops P) sv rq w s))" "snd (snd (ServeHTTP P (memory_ops P) sv rq w s))"] assms
  by simp

theorem unauthenticated_changes_nothing_witness:
  "snd (snd (ServeHTTP plain_platform (memory_ops plain_platform) sample_server
     (sample_request ''DELETE'' ''/scim/ServiceProviderConfig/id-one'' None None) sample_world sample_store)) = sample_store"
  by (rule unauthenticated_changes_nothing [OF sample_store_ok]) (simp add: sample_request_def)

text \<open>C4: a tombstone stays through every history, and its identifier is never live again, in any
  scope and under any resource type.\<close>

theorem tombstones_are_final:
  assumes "history P sv s t" and "store_ok P s" and "(k, grave) \<in> set (mem_tombstones s)"
  shows "(k, grave) \<in> set (mem_tombstones t) \<and> (\<forall>x \<in> set (mem_records t). rec_id (snd x) \<noteq> tomb_id grave)"
proof -
  have run: "store_run P s t" using assms(1) by (rule history_run)
  have "(k, grave) \<in> set (mem_tombstones t)" by (rule tombstone_run [OF run assms(3)])
  moreover have "store_ok P t" by (rule store_run_ok [OF run assms(2)])
  ultimately show ?thesis by (fastforce simp: store_ok_def)
qed

theorem tombstones_are_final_witness:
  "\<exists>t. history plain_platform sample_server sample_deleted t
     \<and> (recordKey ''Thing'' ''id-one'', sample_grave) \<in> set (mem_tombstones t)"
proof (intro exI conjI)
  let ?t = "snd (snd (ServeHTTP plain_platform (memory_ops plain_platform) sample_server
     (sample_request ''POST'' ''/scim/Things'' (Some sample_body) (Some ''scope-a'')) sample_world sample_deleted))"
  show h: "history plain_platform sample_server sample_deleted ?t"
    by (rule history_served [OF history_start])
  show "(recordKey ''Thing'' ''id-one'', sample_grave) \<in> set (mem_tombstones ?t)"
    using tombstones_are_final [OF h sample_deleted_ok sample_grave_there] by simp
qed

text \<open>C5: a record that is live at some time is, at any later time, either live with the same scope, type,
  identifier, creation time and manager, or tombstoned.\<close>

theorem record_life:
  assumes "history P sv s t" and "store_ok P s" and "(k, r) \<in> set (mem_records s)"
  shows "(\<exists>k' q. (k', q) \<in> set (mem_records t) \<and> same_identity r q)
    \<or> (\<exists>k' grave. (k', grave) \<in> set (mem_tombstones t) \<and> tomb_id grave = rec_id r)"
proof -
  have "lives_or_died r s" using assms(3) by (auto simp: lives_or_died_def same_identity_def)
  from life_run [OF history_run [OF assms(1)] assms(2) this] show ?thesis by (simp add: lives_or_died_def)
qed

theorem record_life_witness:
  "lives_or_died sample_record (snd (snd (ServeHTTP plain_platform (memory_ops plain_platform) sample_server
     (sample_request ''DELETE'' ''/scim/Things/id-one'' None (Some ''scope-a'')) sample_world sample_store)))"
proof -
  have h: "history plain_platform sample_server sample_store
    (snd (snd (ServeHTTP plain_platform (memory_ops plain_platform) sample_server
     (sample_request ''DELETE'' ''/scim/Things/id-one'' None (Some ''scope-a'')) sample_world sample_store)))"
    by (rule history_served [OF history_start])
  have "(recordKey ''Thing'' ''id-one'', sample_record) \<in> set (mem_records sample_store)"
    by (simp add: sample_store_def newMemoryState_def)
  from record_life [OF h sample_store_ok this] show ?thesis by (simp add: lives_or_died_def)
qed

text \<open>C6: every successful write of the memory store is one step of the abstract machine that maps types and
  identifiers to live records and remembers the identifiers that are gone.\<close>

theorem memory_refines_machine:
  assumes "store_ok P s" and "store_step P s s'"
  shows "abstract_step (abstraction s) (abstraction s')"
  using assms by (rule abstract_simulation)

theorem memory_refines_machine_witness:
  "abstract_step (abstraction newMemoryState) (abstraction sample_store)"
  by (rule memory_refines_machine [OF store_ok_empty step_create [OF sample_created]])

text \<open>C7: listing returns, sorted by identifier, exactly the records of the scope and type that match the
  query, each once, or an error when there are more than the limit.\<close>

theorem memory_list_exact:
  assumes "store_ok P s" and "memory_list P s q = Inr rs"
  shows "sorted (map rec_id rs) \<and> distinct (map rec_id rs) \<and> int (length rs) \<le> q_limit q
    \<and> (\<forall>r. r \<in> set rs \<longleftrightarrow> memory_get s (q_scope q) (q_type q) (rec_id r) = Inr r \<and> query_matches P q r)"
  using memory_list_Inr [OF assms] by blast

theorem memory_list_exact_witness:
  "\<exists>rs. memory_list plain_platform sample_store
       \<lparr>q_scope = ''scope-a'', q_type = ''Thing'', q_attribute = [], q_value = [], q_limit = 1\<rparr> = Inr rs
     \<and> sample_record \<in> set rs"
proof -
  let ?q = "\<lparr>q_scope = ''scope-a'', q_type = ''Thing'', q_attribute = [], q_value = [], q_limit = 1\<rparr>"
  have "isl (memory_list plain_platform sample_store ?q) = False" by code_simp
  then obtain rs where l: "memory_list plain_platform sample_store ?q = Inr rs"
    by (cases "memory_list plain_platform sample_store ?q") auto
  have id: "rec_scope sample_record = ''scope-a'' \<and> rec_type sample_record = ''Thing'' \<and> rec_id sample_record = ''id-one''"
    by code_simp
  have "sample_record \<in> set rs"
    using memory_list_exact [OF sample_store_ok l] sample_get id by (auto simp: query_matches_def)
  with l show ?thesis by blast
qed

section \<open>Writes of the server\<close>

text \<open>C8: a create that succeeds returns a valid record of the scope and manager with an identifier that was
  not live, the record is what a read then returns, and no other record changes.\<close>

theorem create_then_read:
  assumes "store_ok P s" and "create P (memory_ops P) sv ctx scope m d raw w s = (Inr r, w', s')"
  shows "record_ok P r \<and> rec_scope r = scope \<and> rec_type r = def_name d \<and> rec_manager r = m
    \<and> (\<forall>sc ty. memory_get s sc ty (rec_id r) = Inl ErrNotFound)
    \<and> (\<forall>sc ty i. memory_get s' sc ty i =
         (if sc = scope \<and> ty = def_name d \<and> i = rec_id r then Inr r else memory_get s sc ty i))"
  using memory_server.create_effect [OF assms] by (simp add: memory_ops_def)

theorem create_then_read_witness:
  "\<exists>r w s. create plain_platform (memory_ops plain_platform) sample_server live_ctx ''scope-a'' ''manager''
     sample_type sample_body sample_world sample_store = (Inr r, w, s)
     \<and> memory_get s ''scope-a'' ''Thing'' (rec_id r) = Inr r
     \<and> memory_get s ''scope-a'' ''Thing'' ''id-one'' = Inr sample_record"
proof -
  obtain r w s where c: "create plain_platform (memory_ops plain_platform) sample_server live_ctx ''scope-a'' ''manager''
     sample_type sample_body sample_world sample_store = (Inr r, w, s)" using sample_create by blast
  note e = create_then_read [OF sample_store_ok c]
  then have "rec_id r \<noteq> ''id-one''" using sample_get by auto
  with c e sample_get sample_type_name show ?thesis by auto
qed





text \<open>C11: a delete that succeeds removes exactly that record, after its preconditions, and leaves a tombstone with
  its identifiers, manager and version.\<close>

theorem remove_effect_exact:
  assumes "store_ok P s" and "remove (memory_ops P) sv ctx scope d i im inm w s = (Inr u, w', s')"
    and "memory_tombstones s scope (def_name d) = Inr ts"
  shows "(\<exists>current now ts'. memory_get s scope (def_name d) i = Inr current
      \<and> (im = [] \<or> names_version (sv_weak_etags sv) im (rec_version current))
      \<and> memory_tombstones s' scope (def_name d) = Inr ts' \<and> set ts' = insert (tombstone_of current now) (set ts))
    \<and> (\<forall>sc ty j. memory_get s' sc ty j =
         (if sc = scope \<and> ty = def_name d \<and> j = i then Inl ErrNotFound else memory_get s sc ty j))"
proof -
  note e = memory_server.remove_effect [OF assms(1,2)]
  then obtain current now where "memory_get s scope (def_name d) i = Inr current"
    and "evaluateWritePreconditions sv im inm current = Inr ()"
    and "\<exists>ts'. memory_tombstones s' scope (def_name d) = Inr ts' \<and> set ts' = insert (tombstone_of current now) (set ts)"
    using assms(3) by (auto simp: memory_ops_def)
  with evaluateWritePreconditions_Inr(1) e show ?thesis by (simp add: memory_ops_def) blast
qed

theorem remove_effect_exact_witness:
  "\<exists>u w s. remove (memory_ops plain_platform) sample_server live_ctx ''scope-a''
     sample_type ''id-one'' [] [] sample_world sample_store = (Inr u, w, s)
     \<and> memory_get s ''scope-a'' ''Thing'' ''id-one'' = Inl ErrNotFound"
proof -
  obtain u w s where c: "remove (memory_ops plain_platform) sample_server live_ctx ''scope-a''
     sample_type ''id-one'' [] [] sample_world sample_store = (Inr u, w, s)" using sample_remove by blast
  have "memory_tombstones sample_store ''scope-a'' (def_name sample_type) = Inr []" by code_simp
  from remove_effect_exact [OF sample_store_ok c this] c sample_type_name show ?thesis by auto
qed

text \<open>C12: no lost update: a client whose If-Match names only versions that are no longer current gets an error from
  replace, patch and delete, and the store stays as it was.\<close>

theorem stale_write_rejected:
  assumes "memory_get s scope (def_name d) i = Inr current" and "im \<noteq> []"
    and "\<not> names_version (sv_weak_etags sv) im (rec_version current)"
  shows "(case replace P (memory_ops P) sv ctx scope d i raw im inm w s of (r, w', s') \<Rightarrow> isl r \<and> s' = s)
    \<and> (case patch_resource P (memory_ops P) sv ctx scope d i request im inm w s of (r, w', s') \<Rightarrow> isl r \<and> s' = s)
    \<and> (case remove (memory_ops P) sv ctx scope d i im inm w s of (r, w', s') \<Rightarrow> isl r \<and> s' = s)"
proof -
  have g: "tx_get (memory_ops P) s scope (def_name d) i = Inr current" using assms(1) by (simp add: memory_ops_def)
  note stale = memory_server.stale_update_fails [OF g assms(2,3)]
  have r: "isl r \<and> s' = s" if "replace P (memory_ops P) sv ctx scope d i raw im inm w s = (r, w', s')" for r w' s'
    using that stale(1) by (auto simp: replace_def Transact_def split: sum.splits prod.splits option.splits)
  have p: "isl r \<and> s' = s" if "patch_resource P (memory_ops P) sv ctx scope d i request im inm w s = (r, w', s')" for r w' s'
    using that stale(2) by (auto simp: patch_resource_def Transact_def split: sum.splits prod.splits option.splits)
  have d: "isl r \<and> s' = s" if "remove (memory_ops P) sv ctx scope d i im inm w s = (r, w', s')" for r w' s'
    using that stale(3) by (auto simp: remove_def Transact_def split: sum.splits prod.splits option.splits)
  show ?thesis using r p d by (auto split: prod.split)
qed

theorem stale_write_rejected_witness:
  "snd (snd (remove (memory_ops plain_platform) sample_server live_ctx ''scope-a'' sample_type ''id-one''
     (quoted ''old'') [] sample_world sample_store)) = sample_store"
proof -
  have g: "memory_get sample_store ''scope-a'' (def_name sample_type) ''id-one'' = Inr sample_record"
    using sample_get sample_type_name by simp
  have p: "parseEntityTags (quoted ''old'') = Inr \<lparr>star = False, tags = [\<lparr>opaque = ''old'', weak = False\<rparr>]\<rparr>" by code_simp
  have "(case parseSingleStrongTag (rec_version sample_record) of Inl e \<Rightarrow> True | Inr u \<Rightarrow> u \<noteq> ''old'')" by code_simp
  then have "\<not> names_version (sv_weak_etags sample_server) (quoted ''old'') (rec_version sample_record)"
    by (auto simp: names_version_def p)
  moreover have "quoted ''old'' \<noteq> []" by (simp add: quoted_def)
  ultimately show ?thesis
    using stale_write_rejected [OF g, of "quoted ''old''" sample_server plain_platform live_ctx sample_body "[]" sample_world sample_patch]
    by (simp split: prod.splits)
qed

text \<open>C13: a request that comes with a change of the store is answered as done, or with 500 when the written record could not be
  rendered; in particular no request that is refused, with whatever client error, has changed anything.\<close>

theorem refused_requests_change_nothing:
  assumes "ServeHTTP P ops sv rq w s = (resp, w', s')" and "s' \<noteq> s"
  shows "rs_status resp \<in> {200, 201, 204, 500}"
  using ServeHTTP_justified [of s P ops sv rq w] assms by (simp add: justified_def settled_def)

theorem refused_requests_change_nothing_witness:
  "\<exists>resp w s. ServeHTTP plain_platform (memory_ops plain_platform) sample_server
     (sample_request ''DELETE'' ''/scim/Things/id-one'' None (Some ''scope-a'')) sample_world sample_store = (resp, w, s)
   \<and> rs_status resp \<in> {200, 201, 204, 500}"
proof -
  let ?served = "ServeHTTP plain_platform (memory_ops plain_platform) sample_server
     (sample_request ''DELETE'' ''/scim/Things/id-one'' None (Some ''scope-a'')) sample_world sample_store"
  have "mem_records (snd (snd ?served)) = []" by code_simp
  moreover have "mem_records sample_store \<noteq> []" by (simp add: sample_store_def)
  ultimately have "snd (snd ?served) \<noteq> sample_store" by auto
  then show ?thesis
    using refused_requests_change_nothing [of plain_platform "memory_ops plain_platform" sample_server _ sample_world sample_store]
    by (metis prod.collapse)
qed

section \<open>Reconciliation and bulk requests\<close>



text \<open>C15: a bulk request ends: either every operation is answered in its own place under its own method and bulkId,
  or the loop stopped early, and then exactly as many operations had failed as the client allows.\<close>

theorem bulk_answers_every_operation:
  "length (bs_results (run_bulk P ops sv rq scope bulk w s)) = length (br_operations bulk)
   \<and> list_all2 (\<lambda>b r. case r of None \<Rightarrow> True | Some p \<Rightarrow> bp_method p = bo_method b \<and> bp_bulk_id p = bo_bulk_id b)
       (br_operations bulk) (bs_results (run_bulk P ops sv rq scope bulk w s))
   \<and> (if bs_halted (run_bulk P ops sv rq scope bulk w s)
      then 0 < br_fail_on_errors bulk \<and> int (failed_answers (run_bulk P ops sv rq scope bulk w s)) = br_fail_on_errors bulk
      else None \<notin> set (bs_results (run_bulk P ops sv rq scope bulk w s)))"
proof -
  note d = run_bulk_done [of P bulk ops sv rq scope w s, unfolded bulk_done_def answered_ok_def answer_for_def]
  have "list_all2 (\<lambda>b r. case r of None \<Rightarrow> True | Some p \<Rightarrow> bp_method p = bo_method b \<and> bp_bulk_id p = bo_bulk_id b)
       (br_operations bulk) (bs_results (run_bulk P ops sv rq scope bulk w s))"
    using d by (auto simp: list_all2_conv_all_nth split: option.split)
  with d show ?thesis by simp
qed

text \<open>C16: an operation of a bulk request is reported as done only when every bulkId its path or data refers to belongs
  to an operation of the request that is reported as done, whatever the order they were written in.\<close>

theorem bulk_dependencies_done:
  assumes "i < length (br_operations bulk)"
    and "is_success (bs_results (run_bulk P ops sv rq scope bulk w s) ! i)"
    and "d \<in> set (dependencies_of P (br_operations bulk ! i))"
  shows "\<exists>j < length (br_operations bulk). bo_bulk_id (br_operations bulk ! j) = d
    \<and> is_success (bs_results (run_bulk P ops sv rq scope bulk w s) ! j)"
  using bulk_done_dependencies [OF run_bulk_done assms] .

theorem bulk_dependencies_done_witness:
  "is_success (bs_results (run_bulk plain_platform (memory_ops plain_platform) sample_server
     (sample_request ''POST'' ''/scim/Bulk'' None (Some ''scope-a'')) ''scope-a'' sample_bulk bulk_world newMemoryState) ! 1)"
proof -
  let ?results = "bs_results (run_bulk plain_platform (memory_ops plain_platform) sample_server
     (sample_request ''POST'' ''/scim/Bulk'' None (Some ''scope-a'')) ''scope-a'' sample_bulk bulk_world newMemoryState)"
  have a: "0 < length (br_operations sample_bulk)" by (simp add: sample_bulk_def)
  have b: "is_success (?results ! 0)" by code_simp
  have c: "''b'' \<in> set (dependencies_of plain_platform (br_operations sample_bulk ! 0))" by code_simp
  obtain j where j: "j < length (br_operations sample_bulk)" "bo_bulk_id (br_operations sample_bulk ! j) = ''b''"
    and ok: "is_success (?results ! j)" by (rule exE [OF bulk_dependencies_done [OF a b c]]) (elim conjE, rule that)
  from j have "j = 1" by (cases j) (auto simp: sample_bulk_def)
  from this ok show ?thesis by (rule subst [where P = "\<lambda>k. is_success (?results ! k)"])
qed

section \<open>Documents, names and versions\<close>

text \<open>C17: every document the strict decoder returns is within the bounds of the code (size, depth,
  nodes), its strings are valid UTF-8 and its object names are non-empty, canonically spelled and
  pairwise different up to letter case, at every level.\<close>

theorem decode_document_admissible:
  assumes "DecodeDocument P raw = Inr m"
  shows "length raw \<le> MaximumResourceBytes \<and> nodes (JObj m) \<le> maximumJSONNodes
    \<and> height (JObj m) \<le> maximumJSONDepth \<and> decoded_ok P (JObj m)"
  using assms DecodeDocument_admissible [OF assms]
  by (auto simp: admissible_def DecodeDocument_def split: if_splits)

theorem decode_document_admissible_witness:
  "nodes (JObj [(''userName'', JStr ''x'')]) \<le> maximumJSONNodes
   \<and> decoded_ok plain_platform (JObj [(''userName'', JStr ''x'')])"
proof -
  have "DecodeDocument plain_platform (concat [[CHR 0x7B, CHR 0x22], ''USERNAME'', [CHR 0x22, CHR 0x3A, CHR 0x22], ''x'', [CHR 0x22, CHR 0x7D]])
     = Inr [(''userName'', JStr ''x'')]" by code_simp
  from decode_document_admissible [OF this] show ?thesis by simp
qed

text \<open>C18: encoding a decoded document and decoding the result gives a deeply equal document with the same encoding,
  so records survive any number of reads and writes.\<close>

theorem document_round_trip:
  assumes "DecodeDocument P raw = Inr m" and "canonicalDocument m = Inr out"
  shows "\<exists>m'. DecodeDocument P out = Inr m' \<and> deep_equal (JObj m') (JObj m) \<and> canonicalDocument m' = Inr out"
  by (rule decode_encode [OF assms]) blast

theorem document_round_trip_witness:
  "\<exists>m out. DecodeDocument plain_platform sample_body = Inr m \<and> canonicalDocument m = Inr out
     \<and> (\<exists>m'. DecodeDocument plain_platform out = Inr m' \<and> deep_equal (JObj m') (JObj m))"
proof -
  have "case DecodeDocument plain_platform sample_body of Inl e \<Rightarrow> False | Inr m \<Rightarrow> isl (canonicalDocument m) = False"
    by code_simp
  then obtain m out where d: "DecodeDocument plain_platform sample_body = Inr m" "canonicalDocument m = Inr out"
    by (auto split: sum.splits) (metis sum.collapse(2))
  from document_round_trip [OF d] d show ?thesis by blast
qed



text \<open>C20: a list of well-formed entity-tags, weak or strong, printed as a header is parsed back as the same list.\<close>

theorem entity_tags_round_trip:
  assumes "list_all tag_ok ts" and "ts \<noteq> []"
  shows "parseEntityTags (header_text ts) = Inr \<lparr>star = False, tags = ts\<rparr>"
  using assms by (rule parse_header_text)

theorem entity_tags_round_trip_witness:
  "parseEntityTags (header_text [\<lparr>opaque = ''a,b'', weak = True\<rparr>, \<lparr>opaque = [], weak = False\<rparr>])
    = Inr \<lparr>star = False, tags = [\<lparr>opaque = ''a,b'', weak = True\<rparr>, \<lparr>opaque = [], weak = False\<rparr>]\<rparr>"
  by (rule entity_tags_round_trip) (simp_all add: tag_ok_def opaque_char_def)

text \<open>C21: the headers of a conditional request decide as RFC 9110 says, for every list of well-formed tags and every version the
  server computes: If-Match compares strongly, If-None-Match weakly, a star names any version, and a resource that does not
  exist matches nothing.\<close>

theorem conditional_headers_decide:
  assumes "list_all tag_ok ts" and "ts \<noteq> []" and "Version P canonical = Inr version"
  shows "IfMatch (header_text ts) version True
      = Inr (\<lparr>opaque = concat (map hex_byte (sha256 P canonical)), weak = False\<rparr> \<in> set ts)
    \<and> IfNoneMatch (header_text ts) version True
      = Inr (concat (map hex_byte (sha256 P canonical)) \<notin> opaque ` set ts)
    \<and> IfMatch ''*'' version True = Inr True \<and> IfNoneMatch ''*'' version True = Inr False
    \<and> IfMatch (header_text ts) version False = Inr False"
proof -
  note parsed = parse_header_text [OF assms(1,2)] and strong = Version_strong [OF assms(3)]
  have star: "parseEntityTags ''*'' = Inr \<lparr>star = True, tags = []\<rparr>" by code_simp
  have "header_text ts \<noteq> []"
  proof
    assume "header_text ts = []"
    moreover have "isl (parseEntityTags [])" by code_simp
    ultimately show False using parsed by simp
  qed
  moreover have "(\<exists>c \<in> set ts. \<not> weak c \<and> opaque c = u) \<longleftrightarrow> \<lparr>opaque = u, weak = False\<rparr> \<in> set ts" for u
    by (metis (full_types) entityTag.select_convs entityTag.surjective old.unit.exhaust)
  ultimately show ?thesis
    by (auto simp: IfMatch_def IfNoneMatch_def parsed strong star list_ex_iff image_iff)
qed

theorem conditional_headers_decide_witness:
  "\<exists>version. Version plain_platform ''x'' = Inr version
     \<and> IfMatch (header_text [\<lparr>opaque = ''other'', weak = True\<rparr>]) version True = Inr False"
proof -
  have "isl (Version plain_platform ''x'') = False" by code_simp
  then obtain version where v: "Version plain_platform ''x'' = Inr version"
    by (cases "Version plain_platform ''x''") simp_all
  have "list_all tag_ok [\<lparr>opaque = ''other'', weak = True\<rparr>]" by code_simp
  from conditional_headers_decide [OF this _ v] v show ?thesis by auto
qed

text \<open>C22: a generated identifier is valid, 22 characters long, and determines the 16 bytes it was made from.\<close>

theorem resource_ids_valid_and_distinct:
  assumes "NewResourceID (Some a) = Inr (i, rest)" and "NewResourceID (Some b) = Inr (j, rest')"
  shows "validResourceID i \<and> length i = 22 \<and> (i = j \<longleftrightarrow> take 16 a = take 16 b)"
proof -
  have n: "16 \<le> length a" "i = base64url (take 16 a)" "16 \<le> length b" "j = base64url (take 16 b)"
    using assms by (auto simp: NewResourceID_def resourceIDBytes_def split: if_splits)
  then have "i = j \<longleftrightarrow> take 16 a = take 16 b" using base64url_inject [of "take 16 a" "take 16 b"] by auto
  with NewResourceID_valid [OF assms(1)] show ?thesis by simp
qed

theorem resource_ids_valid_and_distinct_witness:
  "\<exists>i r j r'. NewResourceID (Some (replicate 16 (CHR ''A''))) = Inr (i, r)
     \<and> NewResourceID (Some (replicate 16 (CHR ''B''))) = Inr (j, r') \<and> validResourceID i \<and> i \<noteq> j"
proof -
  obtain i r j r' where ij: "NewResourceID (Some (replicate 16 (CHR ''A''))) = Inr (i, r)"
    "NewResourceID (Some (replicate 16 (CHR ''B''))) = Inr (j, r')"
    by (simp add: NewResourceID_def resourceIDBytes_def)
  have "take 16 (replicate 16 (CHR ''A'')) \<noteq> take 16 (replicate 16 (CHR ''B''))" by (simp add: numeral_eq_Suc)
  with resource_ids_valid_and_distinct [OF ij] ij show ?thesis by blast
qed

text \<open>C23: the schemas of a message are admitted exactly when they are, up to letter case and order, the expected ones.\<close>

theorem schemas_exactly_expected:
  assumes "[] \<notin> set expected" and "distinct (map (to_lower P) expected)" and "expected \<noteq> []"
  shows "ValidateSchemas P actual expected = Inr () \<longleftrightarrow>
    distinct (map (to_lower P) actual) \<and> set (map (to_lower P) actual) = set (map (to_lower P) expected)"
  using assms by (rule ValidateSchemas_exact_set)

theorem schemas_exactly_expected_witness:
  "ValidateSchemas plain_platform [''urn:A'', ''urn:b''] [''urn:b'', ''URN:a''] = Inr ()"
proof -
  have "ValidateSchemas plain_platform [''urn:A'', ''urn:b''] [''urn:b'', ''URN:a''] = Inr () \<longleftrightarrow>
    distinct (map (to_lower plain_platform) [''urn:A'', ''urn:b''])
    \<and> set (map (to_lower plain_platform) [''urn:A'', ''urn:b'']) = set (map (to_lower plain_platform) [''urn:b'', ''URN:a''])"
    by (rule schemas_exactly_expected) (simp_all, code_simp)
  also have "\<dots>" by code_simp
  finally show ?thesis by simp
qed



section \<open>Filters\<close>


text \<open>C26: every filter the parser can produce, printed with only the parentheses the precedences need, is parsed back to
  the same filter: not binds tighter than and, and than or, and equal operators associate to the left.\<close>

theorem filter_round_trip:
  assumes "parsable P e" and "fits e 0"
  shows "parse_tokens P (filter_tokens e) = Inr e"
  using assms by (rule parse_printed)

theorem filter_round_trip_witness:
  "parse_tokens plain_platform [FWord ''a'', FWord ''pr'', FWord ''or'', FWord ''b'', FWord ''pr'', FWord ''and'', FWord ''c'', FWord ''pr'']
    = Inr (FilterOr (FilterPresent ''a'' []) (FilterAnd (FilterPresent ''b'' []) (FilterPresent ''c'' [])))"
proof -
  let ?e = "FilterOr (FilterPresent ''a'' []) (FilterAnd (FilterPresent ''b'' []) (FilterPresent ''c'' []))"
  have "parsable plain_platform ?e" by code_simp
  moreover have "fits ?e 0" by code_simp
  ultimately have "parse_tokens plain_platform (filter_tokens ?e) = Inr ?e" by (rule filter_round_trip)
  then show ?thesis by (simp add: group_if_def)
qed



section \<open>Patches\<close>



text \<open>C29: a patch operation with a path changes only the attribute or the extension its path names, and the
  schemas when the path names an extension.\<close>

theorem patch_touches_only_its_target:
  assumes "applyPatchOperation P d m op rawPath v = Inr m'" and "parsePatchPath P d rawPath = Inr path" and "rawPath \<noteq> []"
    and "k \<noteq> (if pp_extension path = [] then pp_attribute path else pp_extension path)"
    and "pp_extension path = [] \<or> k \<noteq> ''schemas''"
  shows "map_of m' k = map_of m k"
  using assms by (rule operation_frame)

theorem patch_touches_only_its_target_witness:
  "\<exists>m. applyPatchOperation plain_platform sample_type [(''tag'', JStr ''a''), (''other'', JStr ''x'')]
      ''replace'' ''tag'' (JStr ''b'') = Inr m \<and> map_of m ''other'' = Some (JStr ''x'')"
proof -
  have "isl (applyPatchOperation plain_platform sample_type [(''tag'', JStr ''a''), (''other'', JStr ''x'')]
      ''replace'' ''tag'' (JStr ''b'')) = False" by code_simp
  then obtain m where m: "applyPatchOperation plain_platform sample_type [(''tag'', JStr ''a''), (''other'', JStr ''x'')]
      ''replace'' ''tag'' (JStr ''b'') = Inr m"
    by (cases "applyPatchOperation plain_platform sample_type [(''tag'', JStr ''a''), (''other'', JStr ''x'')]
      ''replace'' ''tag'' (JStr ''b'')") simp_all
  have "parsePatchPath plain_platform sample_type ''tag''
    = Inr \<lparr>pp_extension = [], pp_attribute = ''tag'', pp_filter = [], pp_sub = []\<rparr>" by code_simp
  from patch_touches_only_its_target [OF m this, of "''other''"] m show ?thesis by simp
qed

text \<open>C30: removing by a value filter takes away exactly the elements the filter selects and keeps the others in their order.\<close>

theorem filtered_remove_exact:
  assumes "applyFilteredPatch P d m path ''remove'' v = Inr m'" and "pp_sub path = []"
  shows "\<exists>items parent resolved e. map_of m (pp_attribute path) = Some (JArr items)
    \<and> resolveAttributeContract P d None (qualifiedPatchAttribute path) = Some (resolved, parent)
    \<and> parseValueFilter P (pp_filter path) (sub_attributes parent) = Inr e
    \<and> map_of m' (pp_attribute path) = Some (JArr (filter (\<lambda>x. \<not> selected P e x) items))"
  using assms by (rule filtered_remove)

theorem filtered_remove_exact_witness:
  "\<exists>m. applyFilteredPatch plain_platform sample_definition sample_user work_emails ''remove'' JNull = Inr m
     \<and> (\<exists>xs. map_of m ''emails'' = Some (JArr xs) \<and> length xs \<le> 2)"
proof -
  have "isl (applyFilteredPatch plain_platform sample_definition sample_user work_emails ''remove'' JNull) = False" by code_simp
  then obtain m where m: "applyFilteredPatch plain_platform sample_definition sample_user work_emails ''remove'' JNull = Inr m"
    by (cases "applyFilteredPatch plain_platform sample_definition sample_user work_emails ''remove'' JNull") simp_all
  have p: "pp_attribute work_emails = ''emails''" "pp_sub work_emails = []" by (simp_all add: work_emails_def)
  obtain items e where "map_of sample_user ''emails'' = Some (JArr items)"
    "map_of m ''emails'' = Some (JArr (filter (\<lambda>x. \<not> selected plain_platform e x) items))"
    using filtered_remove_exact [OF m p(2)] p(1) by auto
  then have "\<exists>xs. map_of m ''emails'' = Some (JArr xs) \<and> length xs \<le> length items" by auto
  moreover have "length items = 2" using \<open>map_of sample_user ''emails'' = Some (JArr items)\<close> by (auto simp: sample_user_def)
  ultimately show ?thesis using m by auto
qed


section \<open>Mutability and the preparation of resources\<close>



text \<open>C33: whatever a client supplies for a read-only attribute is dropped before a resource is stored: no path of a read-only
  attribute or sub-attribute is left, through objects and arrays, in the resource or in its extensions.\<close>

theorem read_only_values_dropped:
  "(\<forall>p \<in> set (read_only_paths (def_attributes d)). \<not> has_path (stripReadOnly d document) p)
   \<and> (\<forall>e \<in> set (extensions d). \<forall>object. object_at (stripReadOnly d document) (ext_schema e) = Some object
        \<longrightarrow> (\<forall>p \<in> set (read_only_paths (ext_attributes e)). \<not> has_path object p))"
  using read_only_stripped strip_extensions_gone by (auto simp: stripReadOnly_def)

theorem read_only_values_dropped_witness:
  "\<not> has_path (stripReadOnly sample_definition
      [(''groups'', JArr [JObj [(''value'', JStr ''admins''), (''display'', JStr ''x'')]])]) [''groups'']"
proof -
  have "[''groups''] \<in> set (read_only_paths (def_attributes sample_definition))" by code_simp
  with read_only_values_dropped [of sample_definition] show ?thesis by blast
qed


text \<open>C35: a prepared resource holds no password, its attributes and extensions have passed their contracts, and it is
  indexed by exactly those of its filter attributes that have a value, in their order.\<close>

theorem prepared_resource_checked:
  assumes "prepareResource P d document mode rid = Inr (out, indexes, external)"
  shows "validateAttributeValues P out (def_attributes d) = Inr ()
    \<and> list_all (\<lambda>e. extension_values_ok P out e = Inr ()) (extensions d)
    \<and> optionalString out ''externalId'' maximumStringBytes = Inr external
    \<and> map ix_name indexes = filter (\<lambda>a. \<exists>v. stringPath out a = Inr (Some v)) (filter_attributes d)"
proof (rule prepareResource_Inr [OF assms])
  assume c: "validateAttributeValues P out (def_attributes d) = Inr ()"
    "\<forall>e \<in> set (extensions d). extension_values_ok P out e = Inr ()"
    "optionalString out ''externalId'' maximumStringBytes = Inr external"
    "index_keys P d out (filter_attributes d) = Inr indexes"
  have "map ix_name indexes = filter (\<lambda>a. \<exists>v. stringPath out a = Inr (Some v)) (filter_attributes d)"
    by (subst index_keys_spec(1) [OF c(4)]) (simp add: comp_def index_key_def)
  with c show ?thesis by (simp add: list_all_iff)
qed

theorem prepared_resource_checked_witness:
  "\<exists>out ixs ext. prepareResource plain_platform sample_type
       [(''schemas'', JArr [JStr ''urn:x'']), (''tag'', JStr ''a'')] CreateMode [] = Inr (out, ixs, ext)
     \<and> validateAttributeValues plain_platform out (def_attributes sample_type) = Inr ()"
proof -
  let ?r = "prepareResource plain_platform sample_type [(''schemas'', JArr [JStr ''urn:x'']), (''tag'', JStr ''a'')] CreateMode []"
  have "isl ?r = False" by code_simp
  then obtain out ixs ext where r: "?r = Inr (out, ixs, ext)" by (cases ?r) auto
  with prepared_resource_checked [OF r] show ?thesis by auto
qed

section \<open>Searches and what they return\<close>

text \<open>C36: a search counts exactly the resources its filter matches and returns the requested slice of them, in the order of the
  sort attribute whenever the values can be compared.\<close>

theorem search_result_exact:
  assumes "applySearch P plan resources = Inr (page, n)"
    and "1 \<le> sp_start plan" and "0 \<le> sp_count plan" and "\<forall>r \<in> set resources. comparable P plan r"
  shows "\<exists>found.
    mset found = mset (filter (\<lambda>r. MatchFilter P (sp_filter plan) r = Inr True) resources)
    \<and> n = int (length found)
    \<and> page = take (nat (sp_count plan)) (drop (nat (sp_start plan - 1)) found)
    \<and> (sp_sort_path plan \<noteq> [] \<longrightarrow> sorted_wrt (in_order (sorts_before P plan)) found)"
  using assms by (rule applySearch_spec)

theorem search_result_exact_witness:
  "\<exists>page. applySearch plain_platform sample_plan sample_resources = Inr (page, 2)
     \<and> mset page = mset sample_resources"
proof -
  have "(case applySearch plain_platform sample_plan sample_resources of
      Inl e \<Rightarrow> False | Inr (page, n) \<Rightarrow> n = 2)" by code_simp
  then obtain page where r: "applySearch plain_platform sample_plan sample_resources = Inr (page, 2)"
    by (auto split: sum.splits)
  have "list_all (\<lambda>r. MatchFilter plain_platform (sp_filter sample_plan) r = Inr True) sample_resources" by code_simp
  then have all: "filter (\<lambda>r. MatchFilter plain_platform (sp_filter sample_plan) r = Inr True) sample_resources = sample_resources"
    by (simp add: filter_id_conv list_all_iff)
  have c: "\<forall>r \<in> set sample_resources. comparable plain_platform sample_plan r"
    by (simp add: sample_resources_def, code_simp)
  have b: "sp_start sample_plan = 1" "sp_count sample_plan = 10" by (simp_all add: sample_plan_def)
  have "(1::int) \<le> 1" "(0::int) \<le> 10" by simp_all
  from search_result_exact [OF r, unfolded b all, OF this c] r show ?thesis by (auto simp: sample_resources_def)
qed

text \<open>C37: reading a search page by page, each from where the last one ended, until as many were asked for as it counts, gives every
  matching resource exactly as often as the store has it.\<close>

theorem pages_cover_result:
  assumes "0 < m" and "hits \<le> int (m * n)"
    and "\<forall>k < m. applySearch P (plan\<lparr>sp_start := 1 + int k * int n, sp_count := int n\<rparr>) resources = Inr (pages k, hits)"
  shows "mset (concat (map pages [0..<m])) = mset (filter (\<lambda>r. MatchFilter P (sp_filter plan) r = Inr True) resources)"
proof -
  let ?plan = "\<lambda>k. plan\<lparr>sp_start := 1 + int k * int n, sp_count := int n\<rparr>"
  have before: "sorts_before P (?plan k) = sorts_before P plan" for k
    by (intro ext) (simp add: sorts_before_def sort_comparison_def compareSortValues_def)
  from assms(1,3) obtain filtered where f: "matching P (sp_filter plan) resources = Inr filtered"
    by (auto simp: applySearch_def result_simps)
  define found where "found = (if sp_sort_path plan = [] then filtered else sort_stable (sorts_before P plan) filtered)"
  have page: "pages k = page_of (1 + int k * int n) (int n) found \<and> hits = int (length found)" if "k < m" for k
    using assms(3) that f before by (auto simp: applySearch_def found_def Let_def)
  then have "map pages [0..<m] = map (\<lambda>k. page_of (1 + int k * int n) (int n) found) [0..<m]" by simp
  then have "concat (map pages [0..<m]) = take (m * n) found" by (simp only: pages_reassemble)
  moreover have "length found \<le> m * n" using page [OF assms(1)] assms(2) by (metis of_nat_le_iff)
  moreover have "mset found = mset filtered" by (simp add: found_def sort_stable_mset)
  ultimately show ?thesis using matching_Inr [OF f] by simp
qed

theorem pages_cover_result_witness:
  "\<exists>pages. mset (concat (map pages [0..<2])) = mset sample_resources
     \<and> applySearch plain_platform (sample_plan\<lparr>sp_start := 2, sp_count := 1\<rparr>) sample_resources = Inr (pages 1, 2)"
proof -
  let ?search = "\<lambda>k::nat. applySearch plain_platform (sample_plan\<lparr>sp_start := 1 + int k * int 1, sp_count := int 1\<rparr>) sample_resources"
  let ?pages = "\<lambda>k. fst (projr (?search k))"
  have "?search 0 = Inr (?pages 0, 2)" "?search 1 = Inr (?pages 1, 2)" by code_simp+
  then have "\<forall>k < 2. ?search k = Inr (?pages k, 2)" by (auto simp: less_2_cases_iff)
  note pages_cover_result [OF _ _ this]
  moreover have "list_all (\<lambda>r. MatchFilter plain_platform (sp_filter sample_plan) r = Inr True) sample_resources" by code_simp
  then have "filter (\<lambda>r. MatchFilter plain_platform (sp_filter sample_plan) r = Inr True) sample_resources = sample_resources"
    by (simp add: filter_id_conv list_all_iff)
  ultimately have "mset (concat (map ?pages [0..<2])) = mset sample_resources" by simp
  with \<open>?search 1 = Inr (?pages 1, 2)\<close> show ?thesis by (intro exI [of _ ?pages]) simp
qed

text \<open>C38: a count parameter is read as its number, saturated at the largest integer, and a negative one is zero,
  however many digits it has.\<close>

theorem count_saturates:
  assumes "list_all is_digit ds" and "ds \<noteq> []"
  shows "parseSearchCount ds = Inr (min (int (read_nat ds)) maximum_int)
    \<and> parseSearchCount (CHR ''+'' # ds) = Inr (min (int (read_nat ds)) maximum_int)
    \<and> parseSearchCount (CHR ''-'' # ds) = Inr 0"
  using parse_digits_count [OF assms] by simp

theorem count_saturates_witness:
  "parseSearchCount (replicate 30 (CHR ''9'')) = Inr maximum_int \<and> parseSearchCount ''-7'' = Inr 0"
proof -
  have "list_all is_digit (replicate 30 (CHR ''9''))" "replicate 30 (CHR ''9'') \<noteq> []" by code_simp+
  note nines = count_saturates [OF this]
  have "min (int (read_nat (replicate 30 (CHR ''9'')))) maximum_int = maximum_int" by code_simp
  with nines have "parseSearchCount (replicate 30 (CHR ''9'')) = Inr maximum_int" by simp
  moreover have "list_all is_digit ''7''" by code_simp
  ultimately show ?thesis using count_saturates [of "''7''"] by simp
qed




end
